(* ===== verification/Tarn_Prelude.thy ===== *)
theory Tarn_Prelude
  imports Main "HOL-Library.AList" "HOL-Library.Char_ord" "HOL-Library.List_Lexorder"
begin

text \<open>
  Shared vocabulary of the development.

  \<^item> Go's \<open>int64\<close> arithmetic as integers with the wrap-around written out (\<open>wrap64\<close>).
  \<^item> The functions of Go's \<open>strings\<close> and \<open>strconv\<close> packages the sources call, on byte
    strings (\<open>string\<close> is a list of bytes, as in Go).
  \<^item> Go maps as association lists with distinct keys: \<open>map_of\<close> looks a key up,
    \<open>AList.update\<close> stores, \<open>AList.delete\<close> removes. The order of the list stands for one
    of the iteration orders Go may choose.
  \<^item> Generic lemmas about lists and association lists used by several components.
\<close>

named_theorems go_simps "evaluation rules for the modelled Go library functions"

type_synonym bytes = string
type_synonym 'v go_map = "(string \<times> 'v) list"

section \<open>Machine integers\<close>

text \<open>Go's \<open>int\<close> and \<open>int64\<close> on the 64-bit targets tarn is built for: two's complement,
  arithmetic wraps around.\<close>

definition wrap64 :: "int \<Rightarrow> int" where
  "wrap64 x = (x + 2 ^ 63) mod 2 ^ 64 - 2 ^ 63"

definition in_int64 :: "int \<Rightarrow> bool" where
  "in_int64 x \<longleftrightarrow> - (2 ^ 63) \<le> x \<and> x < 2 ^ 63"

lemma wrap64_in_range [simp]: "in_int64 (wrap64 x)"
proof -
  have "0 \<le> (x + 2 ^ 63) mod 2 ^ 64" "(x + 2 ^ 63) mod 2 ^ 64 < 2 ^ 64" by simp_all
  then show ?thesis by (simp add: wrap64_def in_int64_def)
qed

lemma wrap64_id [simp]: "in_int64 x \<Longrightarrow> wrap64 x = x"
  by (simp add: wrap64_def in_int64_def)

section \<open>Strings\<close>

definition hasPrefix :: "string \<Rightarrow> string \<Rightarrow> bool" where
  "hasPrefix s p \<longleftrightarrow> take (length p) s = p"

definition hasSuffix :: "string \<Rightarrow> string \<Rightarrow> bool" where
  "hasSuffix s p \<longleftrightarrow> length p \<le> length s \<and> drop (length s - length p) s = p"

text \<open>\<open>strings.TrimSuffix\<close>.\<close>

definition trimSuffix :: "string \<Rightarrow> string \<Rightarrow> string" where
  "trimSuffix s p = (if hasSuffix s p then take (length s - length p) s else s)"

text \<open>\<open>strings.Split\<close> with a separator of one byte.\<close>

fun splitOn :: "char \<Rightarrow> string \<Rightarrow> string list" where
  "splitOn c [] = [[]]"
| "splitOn c (x # xs) =
     (if x = c then [] # splitOn c xs
      else (case splitOn c xs of [] \<Rightarrow> [[x]] | y # ys \<Rightarrow> (x # y) # ys))"

text \<open>\<open>strings.Index\<close>: the least index at which the needle occurs, \<open>None\<close> for -1.\<close>

fun indexOf :: "string \<Rightarrow> string \<Rightarrow> nat option" where
  "indexOf [] n = (if n = [] then Some 0 else None)"
| "indexOf (x # xs) n =
     (if hasPrefix (x # xs) n then Some 0 else map_option Suc (indexOf xs n))"

definition containsStr :: "string \<Rightarrow> string \<Rightarrow> bool" where
  "containsStr s n \<longleftrightarrow> indexOf s n \<noteq> None"

text \<open>\<open>strings.IndexByte\<close>.\<close>

fun indexByte :: "string \<Rightarrow> char \<Rightarrow> nat option" where
  "indexByte [] c = None"
| "indexByte (x # xs) c = (if x = c then Some 0 else map_option Suc (indexByte xs c))"

text \<open>\<open>strings.TrimSpace\<close> on ASCII white space.\<close>

definition isSpace :: "char \<Rightarrow> bool" where
  "isSpace c \<longleftrightarrow> (let n = of_char c :: nat in n = 32 \<or> (9 \<le> n \<and> n \<le> 13))"

definition trimSpace :: "string \<Rightarrow> string" where
  "trimSpace s = rev (dropWhile isSpace (rev (dropWhile isSpace s)))"

text \<open>\<open>strings.ToUpper\<close>, \<open>ToLower\<close> and \<open>EqualFold\<close> on ASCII text.\<close>

definition upperChar :: "char \<Rightarrow> char" where
  "upperChar c = (let n = of_char c :: nat in if 97 \<le> n \<and> n \<le> 122 then char_of (n - 32) else c)"

definition lowerChar :: "char \<Rightarrow> char" where
  "lowerChar c = (let n = of_char c :: nat in if 65 \<le> n \<and> n \<le> 90 then char_of (n + 32) else c)"

definition toUpper :: "string \<Rightarrow> string" where "toUpper = map upperChar"

definition toLower :: "string \<Rightarrow> string" where "toLower = map lowerChar"

definition equalFold :: "string \<Rightarrow> string \<Rightarrow> bool" where
  "equalFold a b \<longleftrightarrow> toLower a = toLower b"

definition isDigit :: "char \<Rightarrow> bool" where
  "isDigit c \<longleftrightarrow> (let n = of_char c :: nat in 48 \<le> n \<and> n \<le> 57)"

definition digitVal :: "char \<Rightarrow> int" where
  "digitVal c = int (of_char c) - 48"

definition digitChar :: "nat \<Rightarrow> char" where
  "digitChar d = char_of (48 + d)"

fun decVal :: "int \<Rightarrow> string \<Rightarrow> int" where
  "decVal acc [] = acc"
| "decVal acc (c # cs) = decVal (10 * acc + digitVal c) cs"

text \<open>\<open>strconv.Itoa\<close> and \<open>fmt.Sprintf("%d", n)\<close>.\<close>

fun natToDec :: "nat \<Rightarrow> string" where
  "natToDec n = (if n < 10 then [digitChar n] else natToDec (n div 10) @ [digitChar (n mod 10)])"

declare natToDec.simps [simp del]

definition itoa :: "int \<Rightarrow> string" where
  "itoa n = (if n < 0 then ''-'' @ natToDec (nat (- n)) else natToDec (nat n))"

text \<open>The sign of a decimal number: Go's scanners accept one \<open>+\<close> or \<open>-\<close>.\<close>

definition splitSign :: "string \<Rightarrow> bool \<times> string" where
  "splitSign s = (case s of
      [] \<Rightarrow> (False, [])
    | c # cs \<Rightarrow> if c = CHR ''-'' then (True, cs) else if c = CHR ''+'' then (False, cs) else (False, s))"

definition signed64 :: "bool \<Rightarrow> int \<Rightarrow> int option" where
  "signed64 neg v = (let n = (if neg then - v else v) in if in_int64 n then Some n else None)"

text \<open>\<open>strconv.Atoi\<close>: an optional sign, then digits only, in the range of \<open>int\<close>.\<close>

definition atoi :: "string \<Rightarrow> int option" where
  "atoi s = (let (neg, ds) = splitSign s in
     if ds \<noteq> [] \<and> list_all isDigit ds then signed64 neg (decVal 0 ds) else None)"

text \<open>\<open>fmt.Sscanf(v, "%d", &x)\<close>: leading blanks are skipped (a newline is an error), then an
  optional sign and at least one digit; what follows the digits is ignored. \<open>None\<close> stands for
  the error, which leaves the destination as it was.\<close>

definition sscanfD :: "string \<Rightarrow> int option" where
  "sscanfD v = (let s = dropWhile (\<lambda>c. isSpace c \<and> c \<noteq> CHR 0x0A) v;
                    (neg, ds) = splitSign s; num = takeWhile isDigit ds in
     if num \<noteq> [] then signed64 neg (decVal 0 num) else None)"

text \<open>\<open>fmt.Sprintf("%q", s)\<close>: the text in double quotes, with the quote, the backslash and the
  control characters escaped. Bytes from 0x80 on are copied, as Go does for valid printable UTF-8.\<close>

definition hexDigit :: "nat \<Rightarrow> char" where
  "hexDigit d = (if d < 10 then char_of (48 + d) else char_of (87 + d))"

definition quoteByte :: "char \<Rightarrow> string" where
  "quoteByte c = (let n = of_char c :: nat in
     if n = 34 \<or> n = 92 then [CHR 0x5C, c]
     else if n = 7 then [CHR 0x5C, CHR ''a''] else if n = 8 then [CHR 0x5C, CHR ''b'']
     else if n = 12 then [CHR 0x5C, CHR ''f''] else if n = 10 then [CHR 0x5C, CHR ''n'']
     else if n = 13 then [CHR 0x5C, CHR ''r''] else if n = 9 then [CHR 0x5C, CHR ''t'']
     else if n = 11 then [CHR 0x5C, CHR ''v'']
     else if n < 32 \<or> n = 127 then [CHR 0x5C, CHR ''x'', hexDigit (n div 16), hexDigit (n mod 16)]
     else [c])"

definition goQuote :: "string \<Rightarrow> string" where
  "goQuote s = [CHR 0x22] @ concat (map quoteByte s) @ [CHR 0x22]"

subsection \<open>Lemmas about strings\<close>

lemma splitOn_not_Nil [simp]: "splitOn c s \<noteq> []"
  by (induction s) (auto split: list.splits)

lemma splitOn_none: "c \<notin> set s \<Longrightarrow> splitOn c s = [s]"
  by (induction s) auto

lemma splitOn_append_sep: "splitOn c (xs @ c # ys) = splitOn c xs @ splitOn c ys"
proof (induction xs)
  case Nil
  then show ?case by simp
next
  case (Cons x xs)
  obtain a as where "splitOn c xs = a # as"
    by (meson list.exhaust splitOn_not_Nil)
  with Cons show ?case by auto
qed

lemma last_splitOn_sep: "c \<notin> set ys \<Longrightarrow> last (splitOn c (xs @ c # ys)) = ys"
  by (simp add: splitOn_append_sep splitOn_none)

lemma hasPrefix_iff: "hasPrefix s p \<longleftrightarrow> (\<exists>r. s = p @ r)"
  unfolding hasPrefix_def by (metis append_eq_conv_conj append_take_drop_id)

lemma hasSuffix_iff: "hasSuffix s p \<longleftrightarrow> (\<exists>r. s = r @ p)"
  unfolding hasSuffix_def
  by (metis append_eq_conv_conj append_take_drop_id diff_add_inverse2 le_add2 length_append)

lemma hasPrefix_Nil [simp]: "hasPrefix s []"
  by (simp add: hasPrefix_def)

lemma indexOf_Some_iff:
  "indexOf s n = Some i \<longleftrightarrow>
     i \<le> length s \<and> hasPrefix (drop i s) n \<and> (\<forall>j < i. \<not> hasPrefix (drop j s) n)"
proof (induction s arbitrary: i)
  case Nil
  then show ?case by (auto simp: hasPrefix_def)
next
  case (Cons x xs)
  then show ?case
    by (cases i) (auto simp: less_Suc_eq_0_disj)
qed

lemma all_le_Suc_split: "(\<forall>i \<le> Suc m. P i) \<longleftrightarrow> P 0 \<and> (\<forall>i \<le> m. P (Suc i))"
  by (metis Suc_le_mono le0 not0_implies_Suc)

lemma indexOf_None_iff:
  "indexOf s n = None \<longleftrightarrow> (\<forall>i \<le> length s. \<not> hasPrefix (drop i s) n)"
proof (induction s)
  case Nil
  then show ?case by (auto simp: hasPrefix_def)
next
  case (Cons x xs)
  have "(\<forall>i \<le> length (x # xs). \<not> hasPrefix (drop i (x # xs)) n) \<longleftrightarrow>
        \<not> hasPrefix (x # xs) n \<and> (\<forall>i \<le> length xs. \<not> hasPrefix (drop i xs) n)"
    by (simp add: all_le_Suc_split)
  with Cons show ?case by simp
qed

lemma digit_facts:
  assumes "d < 10"
  shows "isDigit (digitChar d)" and "digitVal (digitChar d) = int d"
  using assms by (simp_all add: isDigit_def digitVal_def digitChar_def Let_def)

lemma decVal_append: "decVal acc (xs @ ys) = decVal (decVal acc xs) ys"
  by (induction xs arbitrary: acc) auto

lemma natToDec_digits: "list_all isDigit (natToDec n)" and natToDec_not_Nil: "natToDec n \<noteq> []"
  by (induction n rule: natToDec.induct) (subst natToDec.simps; simp add: digit_facts)+

lemma decVal_natToDec: "decVal 0 (natToDec n) = int n"
proof (induction n rule: natToDec.induct)
  case (1 n)
  show ?case
  proof (cases "n < 10")
    case True
    then show ?thesis by (subst natToDec.simps) (simp add: digit_facts)
  next
    case False
    with 1 have "decVal 0 (natToDec (n div 10)) = int (n div 10)" by simp
    with False show ?thesis
      by (subst natToDec.simps) (simp add: decVal_append digit_facts zdiv_int zmod_int)
  qed
qed

lemma isDigit_not_sign: "isDigit c \<Longrightarrow> c \<noteq> CHR ''-'' \<and> c \<noteq> CHR ''+'' \<and> \<not> isSpace c"
  by (auto simp: isDigit_def isSpace_def Let_def)

lemma splitSign_itoa: "splitSign (itoa n) = (n < 0, natToDec (nat \<bar>n\<bar>))"
proof -
  obtain c cs where *: "natToDec (nat n) = c # cs"
    by (meson list.exhaust natToDec_not_Nil)
  then have "isDigit c" using natToDec_digits [of "nat n"] by simp
  with * show ?thesis
    by (auto simp: splitSign_def itoa_def dest: isDigit_not_sign)
qed

lemma takeWhile_natToDec: "takeWhile isDigit (natToDec n) = natToDec n"
  using natToDec_digits by (simp add: list_all_iff)

lemma sscanfD_itoa:
  assumes "in_int64 n"
  shows "sscanfD (itoa n) = Some n"
proof -
  obtain c cs where c: "itoa n = c # cs" and ns: "\<not> isSpace c"
  proof (cases "n < 0")
    case True
    then show ?thesis by (auto simp: itoa_def isSpace_def intro: that)
  next
    case False
    obtain c cs where *: "natToDec (nat n) = c # cs"
      by (meson list.exhaust natToDec_not_Nil)
    then have "isDigit c" using natToDec_digits [of "nat n"] by simp
    with * False show ?thesis by (auto simp: itoa_def dest: isDigit_not_sign intro: that)
  qed
  then have "dropWhile (\<lambda>c. isSpace c \<and> c \<noteq> CHR 0x0A) (itoa n) = itoa n" by simp
  then show ?thesis
    using assms
    by (simp add: sscanfD_def splitSign_itoa takeWhile_natToDec natToDec_not_Nil decVal_natToDec
        signed64_def)
qed

lemma atoi_itoa:
  assumes "in_int64 n"
  shows "atoi (itoa n) = Some n"
  using assms natToDec_digits natToDec_not_Nil
  by (simp add: atoi_def splitSign_itoa decVal_natToDec signed64_def)

section \<open>Association lists\<close>

lemma map_of_update [simp]: "map_of (AList.update k v m) k' = (if k' = k then Some v else map_of m k')"
  by (simp add: AList.update_conv')

lemma map_of_delete_if [simp]: "map_of (AList.delete k m) k' = (if k' = k then None else map_of m k')"
  by (simp add: AList.delete_conv')

lemma distinct_keys_update [simp]: "distinct (map fst m) \<Longrightarrow> distinct (map fst (AList.update k v m))"
  by (rule AList.distinct_update)

lemma distinct_keys_delete [simp]: "distinct (map fst m) \<Longrightarrow> distinct (map fst (AList.delete k m))"
  by (rule AList.distinct_delete)

lemma AList_update_set: "(k', v') \<in> set (AList.update k v m) \<Longrightarrow>
    (k' = k \<and> v' = v) \<or> (k', v') \<in> set m"
  by (induction m) (auto split: if_splits)

section \<open>Updating the first match of a list\<close>

text \<open>The loops \<open>for _, m := range xs { if P(m) { f(m); return } }\<close>: the first element that
  satisfies the condition is changed in place; \<open>None\<close> when there is none.\<close>

fun updateFirst :: "('a \<Rightarrow> bool) \<Rightarrow> ('a \<Rightarrow> 'a) \<Rightarrow> 'a list \<Rightarrow> 'a list option" where
  "updateFirst P f [] = None"
| "updateFirst P f (x # xs) = (if P x then Some (f x # xs) else map_option (Cons x) (updateFirst P f xs))"

lemma updateFirst_None_iff: "updateFirst P f xs = None \<longleftrightarrow> (\<forall>x \<in> set xs. \<not> P x)"
  by (induction xs) auto

lemma updateFirst_Some:
  assumes "updateFirst P f xs = Some ys"
  obtains us x vs where "xs = us @ x # vs" "ys = us @ f x # vs" "P x" "\<forall>u \<in> set us. \<not> P u"
  using assms
proof (induction xs arbitrary: ys thesis)
  case Nil
  then show ?case by simp
next
  case (Cons a xs)
  show ?case
  proof (cases "P a")
    case True
    with Cons.prems show ?thesis by (intro Cons.prems(1) [of "[]" a xs]) auto
  next
    case False
    with Cons.prems(2) obtain zs where zs: "updateFirst P f xs = Some zs" "ys = a # zs" by auto
    from Cons.IH [OF _ zs(1)] obtain us x vs where
      "xs = us @ x # vs" "zs = us @ f x # vs" "P x" "\<forall>u \<in> set us. \<not> P u" by metis
    with zs False show ?thesis by (intro Cons.prems(1) [of "a # us" x vs]) auto
  qed
qed

lemma updateFirst_map: "updateFirst P f xs = Some ys \<Longrightarrow> (\<And>x. g (f x) = g x) \<Longrightarrow> map g ys = map g xs"
  by (auto elim: updateFirst_Some)

lemma updateFirst_length: "updateFirst P f xs = Some ys \<Longrightarrow> length ys = length xs"
  by (auto elim: updateFirst_Some)

lemma find_Some_split:
  assumes "find P xs = Some x"
  obtains us vs where "xs = us @ x # vs" "P x" "\<forall>u \<in> set us. \<not> P u"
  using assms
proof (induction xs arbitrary: thesis)
  case Nil
  then show ?case by simp
next
  case (Cons a xs)
  show ?case
  proof (cases "P a")
    case True
    with Cons.prems show ?thesis by (intro Cons.prems(1) [of "[]" xs]) auto
  next
    case False
    with Cons obtain us vs where "xs = us @ x # vs" "P x" "\<forall>u \<in> set us. \<not> P u" by auto
    with False show ?thesis by (intro Cons.prems(1) [of "a # us" vs]) auto
  qed
qed

text \<open>A scan that keeps an element in front of what the rest of the scan returns.\<close>

lemma map_prod_Cons_eq: "map_prod (Cons x) id p = (a, b) \<longleftrightarrow> (\<exists>r. a = x # r \<and> p = (r, b))"
  by (cases p) auto

section \<open>Results\<close>

text \<open>\<open>Inl\<close> is the error: the code returns it at once.\<close>

definition rbind :: "'e + 'a \<Rightarrow> ('a \<Rightarrow> 'e + 'b) \<Rightarrow> 'e + 'b" where
  "rbind r f = (case r of Inl e \<Rightarrow> Inl e | Inr v \<Rightarrow> f v)"

lemma rbind_Inr: "rbind r f = Inr y \<longleftrightarrow> (\<exists>v. r = Inr v \<and> f v = Inr y)"
  by (cases r) (auto simp: rbind_def)

lemma rbind_simps [simp]: "rbind (Inr v) f = f v" "rbind (Inl e) f = Inl e"
  by (simp_all add: rbind_def)

end
