(* ===== verification/SQS_Types.thy ===== *)
theory SQS_Types
  imports Tarn_Prelude
begin

text \<open>
  The data of the SQS emulation (\<open>pkg/types/sqs.go\<close> and the types of
  \<open>internal/sqs/store.go\<close>), the queue attributes and the snapshot encoding.

  A pointer the code never shares is its value; a nil map or pointer is \<open>None\<close>. The mutexes
  are not part of the state: every operation runs under them, so it is one atomic function on
  the store. The channel \<open>wake\<close> that long polls wait on is a number: a queue creates channels
  0, 1, 2, ... and \<open>wake = Some c\<close> says that channel \<open>c\<close> is the open one. Go's code replaces
  the channel only when it closes it, so a channel that was created and is not the open one is
  closed.

  What the code takes from outside \<open>src/\<close> or from its environment is a field of \<open>sqs_env\<close>:
  the UUID package (the \<open>n\<close>-th UUID drawn is \<open>uuid E n\<close>), MD5, the JSON decoding of a redrive
  policy and the configuration of the account. The current time is an argument of every
  operation that reads the clock.
\<close>

section \<open>Messages, queues, the store\<close>

record MessageAttribute =
  DataType :: string
  StringValue :: string
  BinaryValue :: bytes

type_synonym msg_attrs = "MessageAttribute option go_map option"

record SQSMessage =
  MessageId :: string
  Body :: string
  MD5OfBody :: string
  ReceiptHandle :: string
  MessageAttributes :: msg_attrs
  SentTimestamp :: int
  ApproximateReceiveCount :: int
  ApproximateFirstReceiveTimestamp :: int
  VisibleAt :: int
  MessageGroupId :: string
  MessageDeduplicationId :: string
  DelayUntil :: int
  ExpiresAt :: int
  Deleted :: bool
  Stale :: bool

record QueueConfig =
  QueueName :: string
  QueueUrl :: string
  QueueArn :: string
  VisibilityTimeout :: int
  MessageRetentionPeriod :: int
  DelaySeconds :: int
  MaximumMessageSize :: int
  ReceiveMessageWaitTimeSeconds :: int
  FifoQueue :: bool
  ContentBasedDeduplication :: bool
  DeduplicationScope :: string
  FifoThroughputLimit :: string
  CreatedTimestamp :: int
  LastModifiedTimestamp :: int
  ProcessedCount :: int
  Tags :: "string go_map option"
  KmsMasterKeyId :: string
  KmsDataKeyReusePeriodSeconds :: int
  Policy :: string
  RedrivePolicy :: string
  DeadLetterTargetArn :: string
  MaxReceiveCount :: int

record queue =
  config :: QueueConfig
  messages :: "SQSMessage list"
  dedup :: "int go_map"
  wake :: "nat option"
  chans :: nat

record Store =
  queues :: "queue go_map"
  dirty :: bool
  uuids :: nat

record sqs_env =
  uuid :: "nat \<Rightarrow> string"
  md5Hash :: "string \<Rightarrow> string"
  decodeRedrivePolicy :: "string \<Rightarrow> (string \<times> int) option"
  Endpoint :: string
  Region :: string
  AccountID :: string

text \<open>The errors, one per message the code formats. \<open>DisruptError\<close> is the injected send
  failure of \<open>disruptor.go\<close>: queue, code, message and HTTP status.\<close>

datatype sqs_error =
    QueueNotFound string
  | FifoNameSuffix
  | InvalidDeduplicationScope string
  | InvalidFifoThroughputLimit string
  | ThroughputRequiresGroupScope
  | MissingGroupId
  | ReceiptHandleNotFound
  | SourceQueueNotFound string
  | TargetQueueNotFound string
  | SameQueue
  | DLQNotFound string
  | SameDLQ
  | SendToDLQ string sqs_error
  | DisruptError string string string int
  | MessageRequired
  | ShuttingDown

type_synonym 'a sqs_result = "(sqs_error + 'a) \<times> Store"

definition defaultStaleReceiveCount :: int where
  "defaultStaleReceiveCount = 5"

definition dlqRetryCountAttribute :: string where
  "dlqRetryCountAttribute = ''TarnRetryCount''"

section \<open>The wake channel\<close>

definition waitChan :: "queue \<Rightarrow> nat \<times> queue" where
  "waitChan q = (case wake q of
      None \<Rightarrow> (chans q, q\<lparr>wake := Some (chans q), chans := Suc (chans q)\<rparr>)
    | Some c \<Rightarrow> (c, q))"

definition signal :: "queue \<Rightarrow> queue" where
  "signal q = q\<lparr>wake := None\<rparr>"

text \<open>A select on a channel proceeds once it is closed.\<close>

definition chanClosed :: "nat \<Rightarrow> queue \<Rightarrow> bool" where
  "chanClosed c q \<longleftrightarrow> c < chans q \<and> wake q \<noteq> Some c"

section \<open>Copies\<close>

definition cloneMessageAttributes :: "msg_attrs \<Rightarrow> msg_attrs" where
  "cloneMessageAttributes src = (case src of
      None \<Rightarrow> None
    | Some m \<Rightarrow> Some (map (\<lambda>(key, value). (key, case value of
          None \<Rightarrow> None
        | Some v \<Rightarrow> Some (v\<lparr>BinaryValue := BinaryValue v\<rparr>))) m))"

definition cloneMessage :: "SQSMessage \<Rightarrow> SQSMessage" where
  "cloneMessage src = src\<lparr>MessageAttributes := cloneMessageAttributes (MessageAttributes src)\<rparr>"

definition cloneQueueConfig :: "QueueConfig \<Rightarrow> QueueConfig" where
  "cloneQueueConfig src = src\<lparr>Tags := (case Tags src of
      None \<Rightarrow> None
    | Some m \<Rightarrow> Some (map (\<lambda>(k, v). (k, v)) m))\<rparr>"

section \<open>Names\<close>

definition QueueNameFromUrl :: "string \<Rightarrow> string" where
  "QueueNameFromUrl queueUrl =
     (let parts = splitOn CHR ''/'' queueUrl in if length parts > 0 then last parts else queueUrl)"

definition queueNameFromArn :: "string \<Rightarrow> string" where
  "queueNameFromArn arn =
     (let parts = splitOn CHR '':'' arn in if length parts > 0 then last parts else arn)"

definition queueUrlOf :: "sqs_env \<Rightarrow> string \<Rightarrow> string" where
  "queueUrlOf E name = Endpoint E @ ''/'' @ AccountID E @ ''/'' @ name"

definition queueArnOf :: "sqs_env \<Rightarrow> string \<Rightarrow> string" where
  "queueArnOf E name = ''arn:aws:sqs:'' @ Region E @ '':'' @ AccountID E @ '':'' @ name"

section \<open>Queue attributes\<close>

text \<open>An attribute read with \<open>fmt.Sscanf\<close>: on a scan error the field keeps its value.\<close>

definition scanInto :: "string go_map \<Rightarrow> string \<Rightarrow> int \<Rightarrow> int" where
  "scanInto attrs key old = (case map_of attrs key of
      None \<Rightarrow> old
    | Some v \<Rightarrow> (case sscanfD v of None \<Rightarrow> old | Some n \<Rightarrow> n))"

definition applyDeduplicationScope :: "QueueConfig \<Rightarrow> string go_map \<Rightarrow> sqs_error + QueueConfig" where
  "applyDeduplicationScope cfg attrs = (case map_of attrs ''DeduplicationScope'' of
      None \<Rightarrow> Inr cfg
    | Some v \<Rightarrow>
        if v = '''' then Inr cfg
        else if v \<noteq> ''queue'' \<and> v \<noteq> ''messageGroup'' then Inl (InvalidDeduplicationScope v)
        else Inr (cfg\<lparr>DeduplicationScope := v\<rparr>))"

definition applyFifoThroughputLimit :: "QueueConfig \<Rightarrow> string go_map \<Rightarrow> sqs_error + QueueConfig" where
  "applyFifoThroughputLimit cfg attrs = (case map_of attrs ''FifoThroughputLimit'' of
      None \<Rightarrow> Inr cfg
    | Some v \<Rightarrow>
        if v = '''' then Inr cfg
        else if v \<noteq> ''perQueue'' \<and> v \<noteq> ''perMessageGroupId'' then Inl (InvalidFifoThroughputLimit v)
        else Inr (cfg\<lparr>FifoThroughputLimit := v\<rparr>))"

definition applyPlainAttributes :: "QueueConfig \<Rightarrow> string go_map \<Rightarrow> QueueConfig" where
  "applyPlainAttributes cfg attrs = cfg\<lparr>
     VisibilityTimeout := scanInto attrs ''VisibilityTimeout'' (VisibilityTimeout cfg),
     MessageRetentionPeriod := scanInto attrs ''MessageRetentionPeriod'' (MessageRetentionPeriod cfg),
     DelaySeconds := scanInto attrs ''DelaySeconds'' (DelaySeconds cfg),
     MaximumMessageSize := scanInto attrs ''MaximumMessageSize'' (MaximumMessageSize cfg),
     ReceiveMessageWaitTimeSeconds :=
       scanInto attrs ''ReceiveMessageWaitTimeSeconds'' (ReceiveMessageWaitTimeSeconds cfg),
     FifoQueue := (if map_of attrs ''FifoQueue'' = Some ''true'' then True else FifoQueue cfg),
     ContentBasedDeduplication :=
       (if map_of attrs ''ContentBasedDeduplication'' = Some ''true'' then True
        else ContentBasedDeduplication cfg),
     KmsMasterKeyId := (case map_of attrs ''KmsMasterKeyId'' of None \<Rightarrow> KmsMasterKeyId cfg | Some v \<Rightarrow> v),
     KmsDataKeyReusePeriodSeconds :=
       scanInto attrs ''KmsDataKeyReusePeriodSeconds'' (KmsDataKeyReusePeriodSeconds cfg),
     Policy := (case map_of attrs ''Policy'' of None \<Rightarrow> Policy cfg | Some v \<Rightarrow> v)\<rparr>"

definition applyRedrivePolicy :: "sqs_env \<Rightarrow> QueueConfig \<Rightarrow> string go_map \<Rightarrow> QueueConfig" where
  "applyRedrivePolicy E cfg attrs = (case map_of attrs ''RedrivePolicy'' of
      None \<Rightarrow> cfg
    | Some v \<Rightarrow>
        if v = '''' then cfg
        else (case decodeRedrivePolicy E v of
            None \<Rightarrow> cfg
          | Some (target, maxCount) \<Rightarrow>
              cfg\<lparr>RedrivePolicy := v, DeadLetterTargetArn := target, MaxReceiveCount := maxCount\<rparr>))"

definition applyQueueAttributes ::
    "sqs_env \<Rightarrow> QueueConfig \<Rightarrow> string go_map \<Rightarrow> sqs_error + QueueConfig" where
  "applyQueueAttributes E cfg attrs = (case applyDeduplicationScope cfg attrs of
      Inl e \<Rightarrow> Inl e
    | Inr cfg1 \<Rightarrow> (case applyFifoThroughputLimit cfg1 attrs of
        Inl e \<Rightarrow> Inl e
      | Inr cfg2 \<Rightarrow>
          if FifoThroughputLimit cfg2 = ''perMessageGroupId'' \<and> DeduplicationScope cfg2 \<noteq> ''messageGroup''
          then Inl ThroughputRequiresGroupScope
          else Inr (applyRedrivePolicy E (applyPlainAttributes cfg2 attrs) attrs)))"

section \<open>Lemmas\<close>

lemma cloneMessageAttributes_id [simp]: "cloneMessageAttributes a = a"
proof -
  have "map (\<lambda>(key, value). (key, case value of None \<Rightarrow> None
          | Some v \<Rightarrow> Some (v\<lparr>BinaryValue := BinaryValue v\<rparr>))) m = m" for m :: "MessageAttribute option go_map"
    by (induction m) (auto split: option.splits)
  then show ?thesis by (simp add: cloneMessageAttributes_def split: option.splits)
qed

lemma cloneMessage_id [simp]: "cloneMessage m = m"
  by (simp add: cloneMessage_def)

lemma cloneQueueConfig_id [simp]: "cloneQueueConfig c = c"
  by (cases "Tags c") (simp_all add: cloneQueueConfig_def)

lemma applyRedrivePolicy_keeps [simp]:
  "FifoQueue (applyRedrivePolicy E c a) = FifoQueue c"
  "FifoThroughputLimit (applyRedrivePolicy E c a) = FifoThroughputLimit c"
  "DeduplicationScope (applyRedrivePolicy E c a) = DeduplicationScope c"
  "QueueName (applyRedrivePolicy E c a) = QueueName c"
  "QueueUrl (applyRedrivePolicy E c a) = QueueUrl c"
  "QueueArn (applyRedrivePolicy E c a) = QueueArn c"
  "VisibilityTimeout (applyRedrivePolicy E c a) = VisibilityTimeout c"
  "DelaySeconds (applyRedrivePolicy E c a) = DelaySeconds c"
  by (simp_all add: applyRedrivePolicy_def split: option.splits)

lemma applyPlainAttributes_keeps [simp]:
  "FifoThroughputLimit (applyPlainAttributes c a) = FifoThroughputLimit c"
  "DeduplicationScope (applyPlainAttributes c a) = DeduplicationScope c"
  "QueueName (applyPlainAttributes c a) = QueueName c"
  "QueueUrl (applyPlainAttributes c a) = QueueUrl c"
  "QueueArn (applyPlainAttributes c a) = QueueArn c"
  by (simp_all add: applyPlainAttributes_def)

lemma applyDeduplicationScope_keeps:
  "applyDeduplicationScope c a = Inr c' \<Longrightarrow> \<exists>v. c' = c\<lparr>DeduplicationScope := v\<rparr>"
  by (auto simp: applyDeduplicationScope_def split: option.splits if_splits intro: exI [of _ "DeduplicationScope c"])

lemma applyFifoThroughputLimit_keeps:
  "applyFifoThroughputLimit c a = Inr c' \<Longrightarrow> \<exists>v. c' = c\<lparr>FifoThroughputLimit := v\<rparr>"
  by (auto simp: applyFifoThroughputLimit_def split: option.splits if_splits intro: exI [of _ "FifoThroughputLimit c"])

text \<open>A successful call sets the two FIFO modes and then the other attributes.\<close>

lemma applyQueueAttributes_Inr:
  assumes "applyQueueAttributes E c a = Inr c'"
  obtains s t where "c' = applyRedrivePolicy E
      (applyPlainAttributes (c\<lparr>DeduplicationScope := s, FifoThroughputLimit := t\<rparr>) a) a"
    and "t = ''perMessageGroupId'' \<longrightarrow> s = ''messageGroup''"
  using assms
  by (auto simp: applyQueueAttributes_def split: sum.splits if_splits
      dest!: applyDeduplicationScope_keeps applyFifoThroughputLimit_keeps)

lemma applyQueueAttributes_names:
  assumes "applyQueueAttributes E c a = Inr c'"
  shows "QueueName c' = QueueName c" and "QueueUrl c' = QueueUrl c" and "QueueArn c' = QueueArn c"
  using assms by (auto elim!: applyQueueAttributes_Inr)

lemma applyQueueAttributes_throughput:
  assumes "applyQueueAttributes E c a = Inr c'"
    and "FifoThroughputLimit c' = ''perMessageGroupId''"
  shows "DeduplicationScope c' = ''messageGroup''"
  using assms by (auto elim!: applyQueueAttributes_Inr)

lemma chanClosed_signal: "c < chans q \<Longrightarrow> chanClosed c (signal q)"
  by (simp add: chanClosed_def signal_def)

lemma signal_fields [simp]:
  "config (signal q) = config q" "messages (signal q) = messages q" "dedup (signal q) = dedup q"
  by (simp_all add: signal_def)

lemma waitChan_fields [simp]:
  "config (snd (waitChan q)) = config q" "messages (snd (waitChan q)) = messages q"
  "dedup (snd (waitChan q)) = dedup q"
  by (simp_all add: waitChan_def split: option.splits)

end
