(* ===== verification/SQS_Store.thy ===== *)
theory SQS_Store
  imports SQS_Types
begin

text \<open>
  The operations of \<open>internal/sqs/store.go\<close> on the store: queue administration, sending,
  receiving, deleting and redriving messages, tags, and the snapshot that persistence writes
  and reads. Each operation returns the Go result (an error or a value) and the new store.
  The definitions come first; the lemmas that the properties share follow.
\<close>

section \<open>Queue administration\<close>

definition NewStore :: Store where
  "NewStore = \<lparr>queues = [], dirty = False, uuids = 0\<rparr>"

definition putQueue :: "string \<Rightarrow> queue \<Rightarrow> Store \<Rightarrow> Store" where
  "putQueue name q s = s\<lparr>queues := AList.update name q (queues s)\<rparr>"

definition newQueueConfig :: "sqs_env \<Rightarrow> int \<Rightarrow> string \<Rightarrow> bool \<Rightarrow> string go_map option \<Rightarrow> QueueConfig" where
  "newQueueConfig E nowSec name isFIFO tags =
     \<lparr>QueueName = name,
      QueueUrl = queueUrlOf E name,
      QueueArn = queueArnOf E name,
      VisibilityTimeout = 30,
      MessageRetentionPeriod = 345600,
      DelaySeconds = 0,
      MaximumMessageSize = 262144,
      ReceiveMessageWaitTimeSeconds = 0,
      FifoQueue = isFIFO,
      ContentBasedDeduplication = False,
      DeduplicationScope = (if isFIFO then ''queue'' else ''''),
      FifoThroughputLimit = (if isFIFO then ''perQueue'' else ''''),
      CreatedTimestamp = nowSec,
      LastModifiedTimestamp = nowSec,
      ProcessedCount = 0,
      Tags = tags,
      KmsMasterKeyId = '''',
      KmsDataKeyReusePeriodSeconds = 0,
      Policy = '''',
      RedrivePolicy = '''',
      DeadLetterTargetArn = '''',
      MaxReceiveCount = 0\<rparr>"

definition newQueue :: "QueueConfig \<Rightarrow> queue" where
  "newQueue cfg = \<lparr>config = cfg, messages = [], dedup = [], wake = None, chans = 0\<rparr>"

definition CreateQueue ::
    "sqs_env \<Rightarrow> int \<Rightarrow> string \<Rightarrow> string go_map \<Rightarrow> string go_map option \<Rightarrow> Store \<Rightarrow> QueueConfig sqs_result" where
  "CreateQueue E nowSec name attrs tags s = (case map_of (queues s) name of
      Some q \<Rightarrow> (Inr (cloneQueueConfig (config q)), s)
    | None \<Rightarrow>
        let isFIFO = (map_of attrs ''FifoQueue'' = Some ''true'') in
        if isFIFO \<and> \<not> hasSuffix name ''.fifo'' then (Inl FifoNameSuffix, s)
        else (case applyQueueAttributes E (newQueueConfig E nowSec name isFIFO tags) attrs of
            Inl e \<Rightarrow> (Inl e, s)
          | Inr qCfg \<Rightarrow>
              (Inr (cloneQueueConfig qCfg),
               (putQueue name (newQueue (cloneQueueConfig qCfg)) s)\<lparr>dirty := True\<rparr>)))"

definition GetQueue :: "string \<Rightarrow> Store \<Rightarrow> sqs_error + QueueConfig" where
  "GetQueue name s = (case map_of (queues s) name of
      None \<Rightarrow> Inl (QueueNotFound name)
    | Some q \<Rightarrow> Inr (cloneQueueConfig (config q)))"

definition ListQueues :: "string \<Rightarrow> Store \<Rightarrow> QueueConfig list" where
  "ListQueues pfx s =
     map (\<lambda>(name, q). cloneQueueConfig (config q))
       (filter (\<lambda>(name, q). pfx = '''' \<or> hasPrefix name pfx) (queues s))"

definition DeleteQueue :: "string \<Rightarrow> Store \<Rightarrow> unit sqs_result" where
  "DeleteQueue name s = (case map_of (queues s) name of
      None \<Rightarrow> (Inl (QueueNotFound name), s)
    | Some q \<Rightarrow> (Inr (), s\<lparr>queues := AList.delete name (queues s), dirty := True\<rparr>))"

definition SetQueueAttributes :: "sqs_env \<Rightarrow> int \<Rightarrow> string \<Rightarrow> string go_map \<Rightarrow> Store \<Rightarrow> unit sqs_result" where
  "SetQueueAttributes E nowSec name attrs s = (case map_of (queues s) name of
      None \<Rightarrow> (Inl (QueueNotFound name), s)
    | Some q \<Rightarrow> (case applyQueueAttributes E (config q) attrs of
          Inl e \<Rightarrow> (Inl e, s)
        | Inr candidate \<Rightarrow>
            (Inr (), (putQueue name (q\<lparr>config := candidate\<lparr>LastModifiedTimestamp := nowSec\<rparr>\<rparr>) s)\<lparr>dirty := True\<rparr>)))"

text \<open>\<open>GetQueueAttributes\<close>: each attribute is added to the result when all attributes or this one
  are requested (\<open>attrNames = None\<close> is Go's nil slice).\<close>

definition attrIf :: "bool \<Rightarrow> string \<Rightarrow> string \<Rightarrow> string go_map" where
  "attrIf c k v = (if c then [(k, v)] else [])"

definition boolAttr :: "bool \<Rightarrow> string" where
  "boolAttr b = (if b then ''true'' else ''false'')"

definition countLive :: "int \<Rightarrow> (SQSMessage \<Rightarrow> bool) \<Rightarrow> SQSMessage list \<Rightarrow> string" where
  "countLive now P ms =
     itoa (int (length (filter (\<lambda>m. \<not> (Deleted m \<or> ExpiresAt m \<le> now) \<and> P m) ms)))"

definition queueAttributes :: "int \<Rightarrow> string list option \<Rightarrow> queue \<Rightarrow> string go_map" where
  "queueAttributes now attrNames q =
     (let c = config q;
          want = (\<lambda>a. case attrNames of None \<Rightarrow> True | Some ns \<Rightarrow> ''All'' \<in> set ns \<or> a \<in> set ns) in
      attrIf (want ''QueueArn'') ''QueueArn'' (QueueArn c)
      @ attrIf (want ''VisibilityTimeout'') ''VisibilityTimeout'' (itoa (VisibilityTimeout c))
      @ attrIf (want ''MessageRetentionPeriod'') ''MessageRetentionPeriod'' (itoa (MessageRetentionPeriod c))
      @ attrIf (want ''DelaySeconds'') ''DelaySeconds'' (itoa (DelaySeconds c))
      @ attrIf (want ''MaximumMessageSize'') ''MaximumMessageSize'' (itoa (MaximumMessageSize c))
      @ attrIf (want ''ReceiveMessageWaitTimeSeconds'') ''ReceiveMessageWaitTimeSeconds''
          (itoa (ReceiveMessageWaitTimeSeconds c))
      @ attrIf (want ''CreatedTimestamp'') ''CreatedTimestamp'' (itoa (CreatedTimestamp c))
      @ attrIf (want ''LastModifiedTimestamp'') ''LastModifiedTimestamp'' (itoa (LastModifiedTimestamp c))
      @ attrIf (want ''FifoQueue'') ''FifoQueue'' (boolAttr (FifoQueue c))
      @ attrIf (want ''ContentBasedDeduplication'') ''ContentBasedDeduplication''
          (boolAttr (ContentBasedDeduplication c))
      @ attrIf (FifoQueue c \<and> want ''DeduplicationScope'' \<and> DeduplicationScope c \<noteq> '''')
          ''DeduplicationScope'' (DeduplicationScope c)
      @ attrIf (FifoQueue c \<and> want ''FifoThroughputLimit'' \<and> FifoThroughputLimit c \<noteq> '''')
          ''FifoThroughputLimit'' (FifoThroughputLimit c)
      @ attrIf (want ''SqsManagedSseEnabled'') ''SqsManagedSseEnabled'' ''true''
      @ attrIf (want ''KmsMasterKeyId'' \<and> KmsMasterKeyId c \<noteq> '''') ''KmsMasterKeyId'' (KmsMasterKeyId c)
      @ attrIf (want ''KmsDataKeyReusePeriodSeconds'' \<and> KmsDataKeyReusePeriodSeconds c \<noteq> 0)
          ''KmsDataKeyReusePeriodSeconds'' (itoa (KmsDataKeyReusePeriodSeconds c))
      @ attrIf (want ''Policy'' \<and> Policy c \<noteq> '''') ''Policy'' (Policy c)
      @ attrIf (want ''RedrivePolicy'' \<and> RedrivePolicy c \<noteq> '''') ''RedrivePolicy'' (RedrivePolicy c)
      @ attrIf (want ''ApproximateNumberOfMessages'') ''ApproximateNumberOfMessages''
          (countLive now (\<lambda>m. VisibleAt m \<le> now \<and> DelayUntil m \<le> now) (messages q))
      @ attrIf (want ''ApproximateNumberOfMessagesNotVisible'') ''ApproximateNumberOfMessagesNotVisible''
          (countLive now (\<lambda>m. VisibleAt m > now) (messages q))
      @ attrIf (want ''ApproximateNumberOfMessagesDelayed'') ''ApproximateNumberOfMessagesDelayed''
          (countLive now (\<lambda>m. DelayUntil m > now) (messages q))
      @ attrIf (want ''ApproximateNumberOfMessagesStale'') ''ApproximateNumberOfMessagesStale''
          (countLive now Stale (messages q)))"

definition GetQueueAttributes ::
    "int \<Rightarrow> string \<Rightarrow> string list option \<Rightarrow> Store \<Rightarrow> sqs_error + string go_map" where
  "GetQueueAttributes now name attrNames s = (case map_of (queues s) name of
      None \<Rightarrow> Inl (QueueNotFound name)
    | Some q \<Rightarrow> Inr (queueAttributes now attrNames q))"

section \<open>Sending\<close>

text \<open>The \<open>n\<close>-th UUID is drawn from \<open>E\<close>; the result carries the number of UUIDs drawn so far.\<close>

definition newMessage ::
    "sqs_env \<Rightarrow> int \<Rightarrow> queue \<Rightarrow> nat \<Rightarrow> string \<Rightarrow> int \<Rightarrow> msg_attrs \<Rightarrow> string \<Rightarrow> string \<Rightarrow> SQSMessage" where
  "newMessage E now q u body delay attrs groupId dedupId =
     \<lparr>MessageId = uuid E u, Body = body, MD5OfBody = md5Hash E body, ReceiptHandle = '''',
      MessageAttributes = cloneMessageAttributes attrs, SentTimestamp = now,
      ApproximateReceiveCount = 0, ApproximateFirstReceiveTimestamp = 0,
      VisibleAt = now, MessageGroupId = groupId, MessageDeduplicationId = dedupId,
      DelayUntil = wrap64 (now + delay * 1000),
      ExpiresAt = wrap64 (now + MessageRetentionPeriod (config q) * 1000),
      Deleted = False, Stale = False\<rparr>"

definition enqueueMessageLocked ::
    "sqs_env \<Rightarrow> int \<Rightarrow> queue \<Rightarrow> nat \<Rightarrow> string \<Rightarrow> int \<Rightarrow> msg_attrs \<Rightarrow> string \<Rightarrow> string \<Rightarrow> bool
       \<Rightarrow> sqs_error + (SQSMessage \<times> queue \<times> nat)" where
  "enqueueMessageLocked E now q u body delay attrs groupId dedupId honorDedup =
     (if FifoQueue (config q) \<and> groupId = '''' then Inl MissingGroupId
      else
        let useDedup = (honorDedup \<and> FifoQueue (config q) \<and> dedupId \<noteq> '''');
            duplicate = (if useDedup \<and> (case map_of (dedup q) dedupId of None \<Rightarrow> False | Some expiry \<Rightarrow> now < expiry)
                         then find (\<lambda>m. MessageDeduplicationId m = dedupId \<and> \<not> Deleted m) (messages q)
                         else None)
        in case duplicate of
             Some m \<Rightarrow> Inr (m, q, u)
           | None \<Rightarrow>
               let q' = (if useDedup then q\<lparr>dedup := AList.update dedupId (now + 300000) (dedup q)\<rparr> else q);
                   msg = newMessage E now q u body delay attrs groupId dedupId
               in Inr (msg, signal (q'\<lparr>messages := messages q' @ [msg]\<rparr>), Suc u))"

definition SendMessage ::
    "sqs_env \<Rightarrow> int \<Rightarrow> string \<Rightarrow> string \<Rightarrow> int \<Rightarrow> msg_attrs \<Rightarrow> string \<Rightarrow> string \<Rightarrow> Store \<Rightarrow> SQSMessage sqs_result" where
  "SendMessage E now name body delaySec attrs groupId dedupId s = (case map_of (queues s) name of
      None \<Rightarrow> (Inl (QueueNotFound name), s)
    | Some q \<Rightarrow>
        let delay = (if delaySec = 0 then DelaySeconds (config q) else delaySec) in
        (case enqueueMessageLocked E now q (uuids s) body delay attrs groupId dedupId True of
            Inl e \<Rightarrow> (Inl e, s)
          | Inr (msg, q', u') \<Rightarrow>
              (Inr (cloneMessage msg),
               (putQueue name q' s)\<lparr>uuids := u',
                 dirty := (if length (messages q') \<noteq> length (messages q) then True else dirty s)\<rparr>)))"

section \<open>Receiving\<close>

text \<open>\<open>later\<close> keeps the earliest instant after \<open>now\<close>; 0 stands for none.\<close>

definition later :: "int \<Rightarrow> int \<Rightarrow> int \<Rightarrow> int" where
  "later now nextAt at = (if at > now \<and> (nextAt = 0 \<or> at < nextAt) then at else nextAt)"

definition deliver :: "sqs_env \<Rightarrow> int \<Rightarrow> int \<Rightarrow> nat \<Rightarrow> SQSMessage \<Rightarrow> SQSMessage" where
  "deliver E now visTimeout u m = m\<lparr>
     ReceiptHandle := uuid E u,
     ApproximateReceiveCount := ApproximateReceiveCount m + 1,
     ApproximateFirstReceiveTimestamp :=
       (if ApproximateFirstReceiveTimestamp m = 0 then now else ApproximateFirstReceiveTimestamp m),
     VisibleAt := wrap64 (now + visTimeout * 1000)\<rparr>"

text \<open>The scan of \<open>receive\<close>: the messages as the scan leaves them, the snapshots returned, the
  earliest instant at which a message may become receivable, and the UUIDs drawn. The break at
  \<open>maxCount\<close> leaves the rest of the queue as it is.\<close>

fun receiveScan :: "sqs_env \<Rightarrow> bool \<Rightarrow> int \<Rightarrow> int \<Rightarrow> int \<Rightarrow> string list \<Rightarrow> SQSMessage list
      \<Rightarrow> SQSMessage list \<Rightarrow> int \<Rightarrow> nat \<Rightarrow> SQSMessage list \<times> SQSMessage list \<times> int \<times> nat" where
  "receiveScan E fifo now maxCount vis blocked [] result nextAt u = ([], result, nextAt, u)"
| "receiveScan E fifo now maxCount vis blocked (m # ms) result nextAt u =
     (if int (length result) \<ge> maxCount then (m # ms, result, nextAt, u)
      else if Deleted m \<or> Stale m then
        map_prod (Cons m) id (receiveScan E fifo now maxCount vis blocked ms result nextAt u)
      else if ExpiresAt m \<le> now then
        map_prod (Cons m) id (receiveScan E fifo now maxCount vis blocked ms result nextAt u)
      else
        let n1 = later now nextAt (VisibleAt m);
            n2 = later now n1 (DelayUntil m);
            n3 = (if fifo then later now n2 (ExpiresAt m) else n2) in
        if fifo \<and> MessageGroupId m \<in> set blocked then
          map_prod (Cons m) id (receiveScan E fifo now maxCount vis blocked ms result n3 u)
        else if fifo \<and> (VisibleAt m > now \<or> DelayUntil m > now) then
          map_prod (Cons m) id
            (receiveScan E fifo now maxCount vis (MessageGroupId m # blocked) ms result n3 u)
        else if VisibleAt m > now then
          map_prod (Cons m) id (receiveScan E fifo now maxCount vis blocked ms result n3 u)
        else if DelayUntil m > now then
          map_prod (Cons m) id (receiveScan E fifo now maxCount vis blocked ms result n3 u)
        else
          let m' = deliver E now vis u m in
          map_prod (Cons m') id
            (receiveScan E fifo now maxCount vis blocked ms (result @ [cloneMessage m']) n3 (Suc u)))"

definition clampMaxCount :: "int \<Rightarrow> int" where
  "clampMaxCount maxCount = (let c = (if maxCount \<le> 0 then 1 else maxCount) in if c > 10 then 10 else c)"

definition receive ::
    "sqs_env \<Rightarrow> int \<Rightarrow> string \<Rightarrow> int \<Rightarrow> int \<Rightarrow> Store \<Rightarrow> (SQSMessage list \<times> nat option \<times> int) sqs_result" where
  "receive E now name maxCount visTimeout s = (case map_of (queues s) name of
      None \<Rightarrow> (Inl (QueueNotFound name), s)
    | Some q \<Rightarrow>
        let vis = (if visTimeout < 0 then VisibilityTimeout (config q) else visTimeout) in
        (case receiveScan E (FifoQueue (config q)) now (clampMaxCount maxCount) vis [] (messages q) [] 0 (uuids s) of
           (ms, result, nextAt, u) \<Rightarrow>
             if result = [] then
               (case waitChan (q\<lparr>messages := ms\<rparr>) of
                  (c, q') \<Rightarrow> (Inr (result, Some c, nextAt), (putQueue name q' s)\<lparr>uuids := u\<rparr>))
             else (Inr (result, None, nextAt),
                   (putQueue name (q\<lparr>messages := ms\<rparr>) s)\<lparr>uuids := u, dirty := True\<rparr>)))"

definition ReceiveMessage ::
    "sqs_env \<Rightarrow> int \<Rightarrow> string \<Rightarrow> int \<Rightarrow> int \<Rightarrow> Store \<Rightarrow> SQSMessage list sqs_result" where
  "ReceiveMessage E now name maxCount visTimeout s = (case receive E now name maxCount visTimeout s of
      (Inl e, s') \<Rightarrow> (Inl e, s')
    | (Inr (msgs, _, _), s') \<Rightarrow> (Inr msgs, s'))"

definition PeekMessages :: "int \<Rightarrow> string \<Rightarrow> int \<Rightarrow> Store \<Rightarrow> sqs_error + SQSMessage list" where
  "PeekMessages now name limit s = (case map_of (queues s) name of
      None \<Rightarrow> Inl (QueueNotFound name)
    | Some q \<Rightarrow>
        let lim = (if limit \<le> 0 then 10 else limit) in
        Inr (map cloneMessage
          (take (nat lim) (filter (\<lambda>m. \<not> (Deleted m \<or> ExpiresAt m \<le> now)) (rev (messages q))))))"

section \<open>Operations on one message\<close>

definition byReceipt :: "string \<Rightarrow> SQSMessage \<Rightarrow> bool" where
  "byReceipt receiptHandle m \<longleftrightarrow> ReceiptHandle m = receiptHandle \<and> \<not> Deleted m"

definition DeleteMessage :: "string \<Rightarrow> string \<Rightarrow> Store \<Rightarrow> unit sqs_result" where
  "DeleteMessage name receiptHandle s = (case map_of (queues s) name of
      None \<Rightarrow> (Inl (QueueNotFound name), s)
    | Some q \<Rightarrow> (case updateFirst (byReceipt receiptHandle) (\<lambda>m. m\<lparr>Deleted := True\<rparr>) (messages q) of
          None \<Rightarrow> (Inl ReceiptHandleNotFound, s)
        | Some ms \<Rightarrow>
            let q' = q\<lparr>messages := ms\<rparr>; q'' = (if FifoQueue (config q) then signal q' else q') in
            (Inr (), (putQueue name q'' s)\<lparr>dirty := True\<rparr>)))"

definition IncrementProcessedCount :: "string \<Rightarrow> int \<Rightarrow> Store \<Rightarrow> unit sqs_result" where
  "IncrementProcessedCount name delta s =
     (if delta \<le> 0 then (Inr (), s)
      else (case map_of (queues s) name of
          None \<Rightarrow> (Inl (QueueNotFound name), s)
        | Some q \<Rightarrow>
            (Inr (), (putQueue name (q\<lparr>config := (config q)\<lparr>ProcessedCount :=
                wrap64 (ProcessedCount (config q) + delta)\<rparr>\<rparr>) s)\<lparr>dirty := True\<rparr>)))"

definition ChangeMessageVisibility :: "int \<Rightarrow> string \<Rightarrow> string \<Rightarrow> int \<Rightarrow> Store \<Rightarrow> unit sqs_result" where
  "ChangeMessageVisibility now name receiptHandle timeout s = (case map_of (queues s) name of
      None \<Rightarrow> (Inl (QueueNotFound name), s)
    | Some q \<Rightarrow>
        (case updateFirst (byReceipt receiptHandle)
                (\<lambda>m. m\<lparr>VisibleAt := wrap64 (now + timeout * 1000)\<rparr>) (messages q) of
          None \<Rightarrow> (Inl ReceiptHandleNotFound, s)
        | Some ms \<Rightarrow> (Inr (), (putQueue name (signal (q\<lparr>messages := ms\<rparr>)) s)\<lparr>dirty := True\<rparr>)))"

definition releaseOne :: "int \<Rightarrow> SQSMessage \<Rightarrow> SQSMessage" where
  "releaseOne now m =
     (let m1 = m\<lparr>VisibleAt := now\<rparr> in
      if ApproximateReceiveCount m > 0 then
        let c = ApproximateReceiveCount m - 1; m2 = m1\<lparr>ApproximateReceiveCount := c\<rparr> in
        if c = 0 then m2\<lparr>ApproximateFirstReceiveTimestamp := 0\<rparr> else m2
      else m1)"

definition ReleaseMessage :: "int \<Rightarrow> string \<Rightarrow> string \<Rightarrow> Store \<Rightarrow> unit sqs_result" where
  "ReleaseMessage now name receiptHandle s = (case map_of (queues s) name of
      None \<Rightarrow> (Inl (QueueNotFound name), s)
    | Some q \<Rightarrow> (case updateFirst (byReceipt receiptHandle) (releaseOne now) (messages q) of
          None \<Rightarrow> (Inl ReceiptHandleNotFound, s)
        | Some ms \<Rightarrow> (Inr (), (putQueue name (signal (q\<lparr>messages := ms\<rparr>)) s)\<lparr>dirty := True\<rparr>)))"

definition PurgeQueue :: "string \<Rightarrow> Store \<Rightarrow> unit sqs_result" where
  "PurgeQueue name s = (case map_of (queues s) name of
      None \<Rightarrow> (Inl (QueueNotFound name), s)
    | Some q \<Rightarrow> (Inr (), (putQueue name (q\<lparr>messages := []\<rparr>) s)\<lparr>dirty := True\<rparr>))"

definition DeleteMessageByID :: "string \<Rightarrow> string \<Rightarrow> Store \<Rightarrow> unit sqs_result" where
  "DeleteMessageByID name messageID s = (case map_of (queues s) name of
      None \<Rightarrow> (Inl (QueueNotFound name), s)
    | Some q \<Rightarrow>
        (case updateFirst (\<lambda>m. (MessageId m = messageID \<or> ReceiptHandle m = messageID) \<and> \<not> Deleted m)
                (\<lambda>m. m\<lparr>Deleted := True\<rparr>) (messages q) of
          None \<Rightarrow> (Inr (), s)
        | Some ms \<Rightarrow>
            let q' = q\<lparr>messages := ms\<rparr>; q'' = (if FifoQueue (config q) then signal q' else q') in
            (Inr (), (putQueue name q'' s)\<lparr>dirty := True\<rparr>)))"

section \<open>Redrive\<close>

definition redriveCopy :: "sqs_env \<Rightarrow> int \<Rightarrow> QueueConfig \<Rightarrow> nat \<Rightarrow> SQSMessage \<Rightarrow> SQSMessage" where
  "redriveCopy E now cfgTo u m =
     \<lparr>MessageId = uuid E u, Body = Body m, MD5OfBody = MD5OfBody m, ReceiptHandle = '''',
      MessageAttributes = map_option (AList.delete dlqRetryCountAttribute)
        (cloneMessageAttributes (MessageAttributes m)),
      SentTimestamp = now, ApproximateReceiveCount = 0, ApproximateFirstReceiveTimestamp = 0,
      VisibleAt = now, MessageGroupId = MessageGroupId m,
      MessageDeduplicationId = MessageDeduplicationId m,
      DelayUntil = wrap64 (now + DelaySeconds cfgTo * 1000),
      ExpiresAt = wrap64 (now + MessageRetentionPeriod cfgTo * 1000),
      Deleted = False, Stale = False\<rparr>"

text \<open>The loop of \<open>RedriveMessages\<close>: the source messages as it leaves them, the copies appended to
  the target, the number moved and the UUIDs drawn.\<close>

fun redriveScan :: "sqs_env \<Rightarrow> int \<Rightarrow> QueueConfig \<Rightarrow> int \<Rightarrow> SQSMessage list \<Rightarrow> int \<Rightarrow> nat
      \<Rightarrow> SQSMessage list \<times> SQSMessage list \<times> int \<times> nat" where
  "redriveScan E now cfgTo maxMessages [] moved u = ([], [], moved, u)"
| "redriveScan E now cfgTo maxMessages (m # ms) moved u =
     (if Deleted m \<or> ExpiresAt m \<le> now then
        map_prod (Cons m) id (redriveScan E now cfgTo maxMessages ms moved u)
      else if maxMessages > 0 \<and> moved \<ge> maxMessages then (m # ms, [], moved, u)
      else
        (case redriveScan E now cfgTo maxMessages ms (moved + 1) (Suc u) of
           (rest, copies, moved', u') \<Rightarrow>
             (m\<lparr>Deleted := True\<rparr> # rest, redriveCopy E now cfgTo u m # copies, moved', u')))"

definition RedriveMessages :: "sqs_env \<Rightarrow> int \<Rightarrow> string \<Rightarrow> string \<Rightarrow> int \<Rightarrow> Store \<Rightarrow> int sqs_result" where
  "RedriveMessages E now fromQueue toQueue maxMessages s =
     (case map_of (queues s) fromQueue of
        None \<Rightarrow> (Inl (SourceQueueNotFound fromQueue), s)
      | Some qFrom \<Rightarrow> (case map_of (queues s) toQueue of
          None \<Rightarrow> (Inl (TargetQueueNotFound toQueue), s)
        | Some qTo \<Rightarrow>
            if fromQueue = toQueue then (Inl SameQueue, s)
            else
              (case redriveScan E now (config qTo) maxMessages (messages qFrom) 0 (uuids s) of
                 (fromMsgs, copies, moved, u) \<Rightarrow>
                   let qFrom' = qFrom\<lparr>messages := fromMsgs\<rparr>;
                       qTo' = qTo\<lparr>messages := messages qTo @ copies\<rparr>;
                       s' = (if moved > 0 then
                               (putQueue toQueue (signal qTo')
                                 (putQueue fromQueue
                                   (if FifoQueue (config qFrom) then signal qFrom' else qFrom') s))\<lparr>dirty := True\<rparr>
                             else putQueue toQueue qTo' (putQueue fromQueue qFrom' s))
                   in (Inr moved, s'\<lparr>uuids := u\<rparr>))))"

section \<open>Tags\<close>

definition TagQueue :: "string \<Rightarrow> string go_map \<Rightarrow> Store \<Rightarrow> unit sqs_result" where
  "TagQueue name tags s = (case map_of (queues s) name of
      None \<Rightarrow> (Inl (QueueNotFound name), s)
    | Some q \<Rightarrow>
        let old = (case Tags (config q) of None \<Rightarrow> [] | Some m \<Rightarrow> m);
            new = fold (\<lambda>(k, v) m. AList.update k v m) tags old in
        (Inr (), (putQueue name (q\<lparr>config := (config q)\<lparr>Tags := Some new\<rparr>\<rparr>) s)\<lparr>dirty := True\<rparr>))"

definition UntagQueue :: "string \<Rightarrow> string list \<Rightarrow> Store \<Rightarrow> unit sqs_result" where
  "UntagQueue name tagKeys s = (case map_of (queues s) name of
      None \<Rightarrow> (Inl (QueueNotFound name), s)
    | Some q \<Rightarrow>
        let new = map_option (fold AList.delete tagKeys) (Tags (config q)) in
        (Inr (), (putQueue name (q\<lparr>config := (config q)\<lparr>Tags := new\<rparr>\<rparr>) s)\<lparr>dirty := True\<rparr>))"

definition ListQueueTags :: "string \<Rightarrow> Store \<Rightarrow> sqs_error + string go_map" where
  "ListQueueTags name s = (case map_of (queues s) name of
      None \<Rightarrow> Inl (QueueNotFound name)
    | Some q \<Rightarrow> Inr (case Tags (config q) of None \<Rightarrow> [] | Some m \<Rightarrow> map (\<lambda>(k, v). (k, v)) m))"

end
