(* ===== verification/SQS_Receive.thy ===== *)
theory SQS_Receive
  imports SQS_Store
begin

text \<open>
  What \<open>receive\<close> computes, stated without its loop. A message is \<open>live\<close> when it is neither
  deleted nor stale nor expired, \<open>available\<close> when it is live, visible and past its delay. The
  positions a receive may serve are \<open>receivable\<close>: the available messages and, on a FIFO queue,
  only those with no live but unavailable message of their group before them. The lemma
  \<open>receiveScan_spec\<close> shows that the scan serves exactly the first \<open>maxCount\<close> of them.
\<close>

section \<open>The specification\<close>

definition live :: "int \<Rightarrow> SQSMessage \<Rightarrow> bool" where
  "live now m \<longleftrightarrow> \<not> Deleted m \<and> \<not> Stale m \<and> now < ExpiresAt m"

definition available :: "int \<Rightarrow> SQSMessage \<Rightarrow> bool" where
  "available now m \<longleftrightarrow> live now m \<and> VisibleAt m \<le> now \<and> DelayUntil m \<le> now"

definition blocks :: "int \<Rightarrow> SQSMessage \<Rightarrow> string \<Rightarrow> bool" where
  "blocks now b g \<longleftrightarrow> live now b \<and> \<not> available now b \<and> MessageGroupId b = g"

definition receivableAt :: "bool \<Rightarrow> int \<Rightarrow> string list \<Rightarrow> SQSMessage list \<Rightarrow> nat \<Rightarrow> bool" where
  "receivableAt fifo now blocked ms i \<longleftrightarrow> available now (ms ! i) \<and>
     (fifo \<longrightarrow> MessageGroupId (ms ! i) \<notin> set blocked \<and>
               (\<forall>j < i. \<not> blocks now (ms ! j) (MessageGroupId (ms ! i))))"

definition receivable :: "bool \<Rightarrow> int \<Rightarrow> string list \<Rightarrow> SQSMessage list \<Rightarrow> nat list" where
  "receivable fifo now blocked ms = filter (receivableAt fifo now blocked ms) [0..<length ms]"

section \<open>The scan meets the specification\<close>

lemma receivable_Nil [simp]: "receivable fifo now blocked [] = []"
  by (simp add: receivable_def)

lemma receivableAt_Suc:
  "receivableAt fifo now blocked (m # ms) (Suc i) \<longleftrightarrow>
     receivableAt fifo now (if live now m \<and> \<not> available now m then MessageGroupId m # blocked else blocked) ms i"
  by (auto simp: receivableAt_def blocks_def less_Suc_eq_0_disj)

lemma receivable_Cons:
  "receivable fifo now blocked (m # ms) =
     (if available now m \<and> (fifo \<longrightarrow> MessageGroupId m \<notin> set blocked) then [0] else []) @
     map Suc (receivable fifo now
       (if live now m \<and> \<not> available now m then MessageGroupId m # blocked else blocked) ms)"
proof -
  let ?b = "if live now m \<and> \<not> available now m then MessageGroupId m # blocked else blocked"
  have upt: "[0..<length (m # ms)] = 0 # map Suc [0..<length ms]"
    by (simp add: map_Suc_upt upt_conv_Cons del: upt_Suc)
  have "receivable fifo now blocked (m # ms) =
      filter (receivableAt fifo now blocked (m # ms)) (0 # map Suc [0..<length ms])"
    by (simp only: receivable_def upt)
  moreover have "receivableAt fifo now blocked (m # ms) 0 \<longleftrightarrow>
      available now m \<and> (fifo \<longrightarrow> MessageGroupId m \<notin> set blocked)"
    by (simp add: receivableAt_def)
  moreover have "filter (receivableAt fifo now blocked (m # ms)) (map Suc [0..<length ms]) =
      map Suc (receivable fifo now ?b ms)"
    by (simp add: filter_map o_def receivableAt_Suc receivable_def)
  ultimately show ?thesis by simp
qed

lemma receivable_in_range: "i \<in> set (receivable fifo now blocked ms) \<Longrightarrow> i < length ms"
  by (auto simp: receivable_def)

lemma receivable_standard: "receivable False now b1 ms = receivable False now b2 ms"
  unfolding receivable_def by (rule filter_cong) (auto simp: receivableAt_def)

lemma receivable_blocked_group:
  "MessageGroupId m \<in> set blocked \<Longrightarrow>
     receivable True now (MessageGroupId m # blocked) ms = receivable True now blocked ms"
  unfolding receivable_def by (rule filter_cong) (auto simp: receivableAt_def)

text \<open>One step of the scan, with its branches gathered into three: the message blocks its group,
  is passed over, or is delivered.\<close>

lemma receiveScan_skip:
  assumes "\<not> (available now m \<and> (fifo \<longrightarrow> MessageGroupId m \<notin> set blocked))" and "int (length result) < maxCount"
  shows "\<exists>n blocked'. receiveScan E fifo now maxCount vis blocked (m # ms) result nextAt u =
      map_prod (Cons m) id (receiveScan E fifo now maxCount vis blocked' ms result n u) \<and>
      receivable fifo now blocked' ms = receivable fifo now
       (if live now m \<and> \<not> available now m then MessageGroupId m # blocked else blocked) ms"
proof (cases "live now m")
  case False
  with assms show ?thesis
    by (cases "Deleted m \<or> Stale m"; intro exI [of _ nextAt] exI [of _ blocked]) (auto simp: live_def)
next
  case True
  then have l: "\<not> Deleted m" "\<not> Stale m" "\<not> ExpiresAt m \<le> now" by (auto simp: live_def)
  let ?n = "let n1 = later now nextAt (VisibleAt m); n2 = later now n1 (DelayUntil m)
            in if fifo then later now n2 (ExpiresAt m) else n2"
  show ?thesis
  proof (cases "fifo \<and> MessageGroupId m \<notin> set blocked")
    case True
    with assms l \<open>live now m\<close> have "VisibleAt m > now \<or> DelayUntil m > now" "\<not> available now m"
      by (auto simp: available_def)
    with True assms l \<open>live now m\<close> show ?thesis
      by (intro exI [of _ ?n] exI [of _ "MessageGroupId m # blocked"]) (simp add: Let_def)
  next
    case False
    have "receivable fifo now blocked ms = receivable fifo now
       (if live now m \<and> \<not> available now m then MessageGroupId m # blocked else blocked) ms"
      using False receivable_blocked_group [of m blocked now ms]
      by (cases fifo) (auto simp: receivable_standard [of now "MessageGroupId m # blocked" ms blocked])
    with False assms l show ?thesis
      by (intro exI [of _ ?n] exI [of _ blocked])
        (auto simp: Let_def available_def live_def)
  qed
qed

lemma receiveScan_deliver:
  assumes "available now m" and "fifo \<longrightarrow> MessageGroupId m \<notin> set blocked" and "int (length result) < maxCount"
  shows "\<exists>n. receiveScan E fifo now maxCount vis blocked (m # ms) result nextAt u =
      map_prod (Cons (deliver E now vis u m)) id
        (receiveScan E fifo now maxCount vis blocked ms (result @ [deliver E now vis u m]) n (Suc u))"
  using assms by (auto simp: available_def live_def Let_def)

text \<open>The positions served, given how many messages were collected before.\<close>

definition served :: "bool \<Rightarrow> int \<Rightarrow> int \<Rightarrow> string list \<Rightarrow> SQSMessage list \<Rightarrow> nat \<Rightarrow> nat list" where
  "served fifo now maxCount blocked ms n = take (nat (maxCount - int n)) (receivable fifo now blocked ms)"

lemma served_Cons_deliver:
  assumes "available now m" and "fifo \<longrightarrow> MessageGroupId m \<notin> set blocked" and "int n < maxCount"
  shows "served fifo now maxCount blocked (m # ms) n = 0 # map Suc (served fifo now maxCount blocked ms (Suc n))"
proof -
  have "nat (maxCount - int n) = Suc (nat (maxCount - int (Suc n)))" using assms(3) by simp
  with assms show ?thesis by (simp add: served_def receivable_Cons take_map)
qed

lemma receiveScan_spec:
  assumes "receiveScan E fifo now maxCount vis blocked ms result nextAt u = (ms', result', nextAt', u')"
    and "idx = served fifo now maxCount blocked ms (length result)"
  shows "result' = result @ map (\<lambda>k. deliver E now vis (u + k) (ms ! (idx ! k))) [0..<length idx]"
    and "length ms' = length ms" and "u' = u + length idx"
    and "\<forall>k < length idx. ms' ! (idx ! k) = deliver E now vis (u + k) (ms ! (idx ! k))"
    and "\<forall>i < length ms. i \<notin> set idx \<longrightarrow> ms' ! i = ms ! i"
proof -
  have "result' = result @ map (\<lambda>k. deliver E now vis (u + k) (ms ! (idx ! k))) [0..<length idx] \<and>
      length ms' = length ms \<and> u' = u + length idx \<and>
      (\<forall>k < length idx. ms' ! (idx ! k) = deliver E now vis (u + k) (ms ! (idx ! k))) \<and>
      (\<forall>i < length ms. i \<notin> set idx \<longrightarrow> ms' ! i = ms ! i)"
    using assms
  proof (induction ms arbitrary: blocked result nextAt u ms' idx)
    case Nil
    then show ?case by (simp add: served_def)
  next
    case (Cons m ms)
    consider (full) "int (length result) \<ge> maxCount"
      | (skip) "int (length result) < maxCount" "\<not> (available now m \<and> (fifo \<longrightarrow> MessageGroupId m \<notin> set blocked))"
      | (take) "int (length result) < maxCount" "available now m" "fifo \<longrightarrow> MessageGroupId m \<notin> set blocked"
      by linarith
    then show ?case
    proof cases
      case full
      with Cons.prems show ?thesis by (simp add: served_def)
    next
      case skip
      obtain n b where
        scan: "receiveScan E fifo now maxCount vis blocked (m # ms) result nextAt u =
          map_prod (Cons m) id (receiveScan E fifo now maxCount vis b ms result n u)"
        and b: "receivable fifo now b ms = receivable fifo now
           (if live now m \<and> \<not> available now m then MessageGroupId m # blocked else blocked) ms"
        using receiveScan_skip [OF skip(2,1), of E vis ms nextAt u] by blast
      obtain rest where rec: "receiveScan E fifo now maxCount vis b ms result n u = (rest, result', nextAt', u')"
        and ms': "ms' = m # rest"
        using scan Cons.prems(1) by (cases "receiveScan E fifo now maxCount vis b ms result n u") auto
      have idx: "idx = map Suc (served fifo now maxCount b ms (length result))"
        using Cons.prems(2) skip(2) b by (auto simp: served_def receivable_Cons take_map)
      note IH = Cons.IH [OF rec refl]
      show ?thesis using IH unfolding idx ms' by (auto simp: nth_Cons split: nat.splits)
    next
      case take
      let ?m = "deliver E now vis u m"
      obtain n where scan: "receiveScan E fifo now maxCount vis blocked (m # ms) result nextAt u =
          map_prod (Cons ?m) id (receiveScan E fifo now maxCount vis blocked ms (result @ [?m]) n (Suc u))"
        using receiveScan_deliver [OF take(2,3,1), of E vis ms nextAt u] by blast
      obtain rest where rec:
        "receiveScan E fifo now maxCount vis blocked ms (result @ [?m]) n (Suc u) = (rest, result', nextAt', u')"
        and ms': "ms' = ?m # rest"
        using scan Cons.prems(1)
        by (cases "receiveScan E fifo now maxCount vis blocked ms (result @ [?m]) n (Suc u)") auto
      have idx: "idx = 0 # map Suc (served fifo now maxCount blocked ms (length (result @ [?m])))"
        using Cons.prems(2) served_Cons_deliver [OF take(2,3,1)] by simp
      note IH = Cons.IH [OF rec refl]
      show ?thesis using IH unfolding idx ms'
        by (auto simp: nth_Cons map_upt_Suc less_Suc_eq_0_disj simp del: upt_Suc split: nat.splits)
    qed
  qed
  then show "result' = result @ map (\<lambda>k. deliver E now vis (u + k) (ms ! (idx ! k))) [0..<length idx]"
    and "length ms' = length ms" and "u' = u + length idx"
    and "\<forall>k < length idx. ms' ! (idx ! k) = deliver E now vis (u + k) (ms ! (idx ! k))"
    and "\<forall>i < length ms. i \<notin> set idx \<longrightarrow> ms' ! i = ms ! i"
    by blast+
qed

section \<open>The next instant\<close>

text \<open>\<open>covers n at\<close>: the instant \<open>n\<close> computed so far is set and not later than \<open>at\<close>.\<close>

definition covers :: "int \<Rightarrow> int \<Rightarrow> bool" where
  "covers n at \<longleftrightarrow> n \<noteq> 0 \<and> n \<le> at"

lemma later_covers:
  assumes "0 \<le> now"
  shows "now < at \<Longrightarrow> covers (later now n at) at" and "covers n at' \<Longrightarrow> covers (later now n at) at'"
  using assms by (auto simp: later_def covers_def)

definition nextInstant :: "bool \<Rightarrow> int \<Rightarrow> int \<Rightarrow> SQSMessage \<Rightarrow> int" where
  "nextInstant fifo now n m =
     (let n1 = later now n (VisibleAt m); n2 = later now n1 (DelayUntil m)
      in if fifo then later now n2 (ExpiresAt m) else n2)"

lemma nextInstant_covers:
  assumes "0 \<le> now"
  shows "covers n at \<Longrightarrow> covers (nextInstant fifo now n m) at"
    and "now < VisibleAt m \<Longrightarrow> covers (nextInstant fifo now n m) (VisibleAt m)"
    and "now < DelayUntil m \<Longrightarrow> covers (nextInstant fifo now n m) (DelayUntil m)"
    and "fifo \<Longrightarrow> now < ExpiresAt m \<Longrightarrow> covers (nextInstant fifo now n m) (ExpiresAt m)"
  by (auto simp: nextInstant_def Let_def intro: later_covers [OF assms])

text \<open>The scan of a non-empty queue stops, passes over a message that is not live, or takes the
  instants of a live one into account and goes on.\<close>

lemma receiveScan_Cons_cases:
  assumes "receiveScan E fifo now maxCount vis blocked (m # ms) result n u = (ms', result', n', u')"
  obtains (full) "int (length result) \<ge> maxCount" "n' = n"
    | (dead) rest where "\<not> live now m"
        "receiveScan E fifo now maxCount vis blocked ms result n u = (rest, result', n', u')"
    | (live) b r u0 rest where "live now m" "\<exists>xs. r = result @ xs"
        "receiveScan E fifo now maxCount vis b ms r (nextInstant fifo now n m) u0 = (rest, result', n', u')"
proof (cases "int (length result) \<ge> maxCount")
  case True
  with assms show thesis by (auto intro: full)
next
  case notfull: False
  show thesis
  proof (cases "live now m")
    case False
    with assms notfull have "\<exists>rest. receiveScan E fifo now maxCount vis blocked ms result n u = (rest, result', n', u')"
      by (cases "Deleted m \<or> Stale m") (auto simp: live_def map_prod_Cons_eq)
    with False show thesis by (auto intro: dead)
  next
    case True
    then have l: "\<not> Deleted m" "\<not> Stale m" "\<not> ExpiresAt m \<le> now" by (auto simp: live_def)
    have "\<exists>b xs u0 rest. receiveScan E fifo now maxCount vis b ms (result @ xs) (nextInstant fifo now n m) u0 =
        (rest, result', n', u')"
    proof (cases "available now m \<and> (fifo \<longrightarrow> MessageGroupId m \<notin> set blocked)")
      case True
      with assms notfull l show ?thesis
        by (auto simp: available_def live_def Let_def nextInstant_def map_prod_Cons_eq split: if_splits)
    next
      case False
      have "\<exists>b rest. receiveScan E fifo now maxCount vis b ms result (nextInstant fifo now n m) u =
          (rest, result', n', u')"
        using assms notfull l False \<open>live now m\<close>
        by (auto simp: available_def live_def Let_def nextInstant_def map_prod_Cons_eq split: if_splits)
      then show ?thesis by (metis append_Nil2)
    qed
    with True show thesis by (auto intro: live)
  qed
qed

lemma receiveScan_nextAt_keeps:
  assumes "0 \<le> now" and "covers n at"
    and "receiveScan E fifo now maxCount vis blocked ms result n u = (ms', result', n', u')"
  shows "covers n' at"
  using assms(2,3)
proof (induction ms arbitrary: blocked result n u ms')
  case Nil
  then show ?case by simp
next
  case (Cons m ms)
  from Cons.prems(2) show ?case
  proof (cases rule: receiveScan_Cons_cases)
    case full
    with Cons.prems(1) show ?thesis by simp
  next
    case dead
    with Cons show ?thesis by blast
  next
    case live
    with Cons.IH nextInstant_covers(1) [OF assms(1) Cons.prems(1)] show ?thesis by blast
  qed
qed

lemma receiveScan_extends:
  assumes "receiveScan E fifo now maxCount vis blocked ms result n u = (ms', result', n', u')"
  shows "\<exists>xs. result' = result @ xs"
  using receiveScan_spec(1) [OF assms refl] by blast

text \<open>While nothing has been collected, the result covers every future instant of every live
  message: it becomes visible, its delay ends or, on a FIFO queue, it expires.\<close>

lemma receiveScan_nextAt:
  assumes "0 \<le> now" and "1 \<le> maxCount"
    and "receiveScan E fifo now maxCount vis blocked ms [] n u = (ms', [], n', u')"
    and "m \<in> set ms" and "live now m"
  shows "(now < VisibleAt m \<longrightarrow> covers n' (VisibleAt m)) \<and>
         (now < DelayUntil m \<longrightarrow> covers n' (DelayUntil m)) \<and> (fifo \<longrightarrow> covers n' (ExpiresAt m))"
  using assms(3,4)
proof (induction ms arbitrary: blocked n u ms')
  case Nil
  then show ?case by simp
next
  case (Cons a ms)
  from Cons.prems(1) show ?case
  proof (cases rule: receiveScan_Cons_cases)
    case full
    with assms(2) show ?thesis by simp
  next
    case dead
    with Cons assms(5) show ?thesis by auto
  next
    case (live b r u0 rest)
    then have r: "r = []" using receiveScan_extends [OF live(3)] by simp
    have "now < ExpiresAt a" using live(1) by (simp add: live_def)
    with nextInstant_covers(2-4) [OF assms(1), where m = a] receiveScan_nextAt_keeps [OF assms(1) _ live(3)]
    have "(now < VisibleAt a \<longrightarrow> covers n' (VisibleAt a)) \<and>
        (now < DelayUntil a \<longrightarrow> covers n' (DelayUntil a)) \<and> (fifo \<longrightarrow> covers n' (ExpiresAt a))"
      by blast
    with Cons.IH [OF live(3) [unfolded r]] Cons.prems(2) show ?thesis by auto
  qed
qed

text \<open>So nothing becomes receivable before that instant.\<close>

lemma receivable_before_nextAt:
  assumes "0 \<le> now" and "1 \<le> maxCount"
    and scan: "receiveScan E fifo now maxCount vis [] ms [] 0 u = (ms', [], n, u')"
    and "now \<le> now'" and before: "n = 0 \<or> now' < n"
  shows "receivable fifo now' [] ms = []"
proof (rule ccontr)
  assume "receivable fifo now' [] ms \<noteq> []"
  then obtain i where i: "i < length ms" and at: "receivableAt fifo now' [] ms i"
    by (auto simp: receivable_def filter_empty_conv)
  have nc: "\<not> (covers n t \<and> t \<le> now')" for t using before by (auto simp: covers_def)
  note nx = receiveScan_nextAt [OF assms(1,2) scan]
  have none: "receivable fifo now [] ms = []"
    using receiveScan_spec(1) [OF scan refl] assms(2) by (auto simp: served_def min_def split: if_splits)
  have live: "live now (ms ! i)" using at assms(4) by (auto simp: receivableAt_def available_def live_def)
  then have "available now (ms ! i)"
    using at nx [of "ms ! i"] i nc by (force simp: receivableAt_def available_def)
  with none i at obtain j where j: "j < i" and b: "blocks now (ms ! j) (MessageGroupId (ms ! i))" and fifo
    by (auto simp: receivable_def filter_empty_conv receivableAt_def)
  from b have lj: "live now (ms ! j)" and "\<not> available now (ms ! j)" by (auto simp: blocks_def)
  moreover have "ms ! j \<in> set ms" using i j by simp
  ultimately have "live now' (ms ! j)" and "\<not> available now' (ms ! j)"
    using nx [of "ms ! j"] nc [of "ExpiresAt (ms ! j)"] nc [of "VisibleAt (ms ! j)"]
      nc [of "DelayUntil (ms ! j)"] \<open>fifo\<close>
    by (auto simp: live_def available_def)
  with b have "blocks now' (ms ! j) (MessageGroupId (ms ! i))" by (simp add: blocks_def)
  with at j \<open>fifo\<close> show False by (auto simp: receivableAt_def)
qed

end
