(* ===== verification/SQS_Dlq.thy ===== *)
theory SQS_Dlq
  imports SQS_Receive
begin

text \<open>
  Dead-letter transfers (\<open>internal/sqs/dlq.go\<close>) and the reaper (\<open>Store.Reap\<close>).

  \<open>moveToDLQ\<close> reads the clock three times (the two eligibility checks and the enqueue); the three
  values are arguments. The lock it releases between the first check and the pair of locks is why
  it checks twice; here both checks see the same store. \<open>Reap\<close> visits the queues in the order
  of the association list and then tries one transfer per candidate; \<open>clk i\<close> gives the three clock
  values of the \<open>i\<close>-th transfer.
\<close>

section \<open>Transfers\<close>

record dlqCandidate =
  cand_id :: string
  cand_receipt :: string

text \<open>\<open>lockQueuePair\<close>: the order in which the two queue locks are taken.\<close>

definition lockQueuePair :: "string \<Rightarrow> string \<Rightarrow> string list" where
  "lockQueuePair fromName toName = (if fromName < toName then [fromName, toName] else [toName, fromName])"

definition dlqMatch :: "dlqCandidate \<Rightarrow> int \<Rightarrow> SQSMessage \<Rightarrow> bool" where
  "dlqMatch candidate now current \<longleftrightarrow>
     \<not> (MessageId current \<noteq> cand_id candidate \<or> ReceiptHandle current \<noteq> cand_receipt candidate \<or>
        Deleted current \<or> ExpiresAt current \<le> now)"

definition dlqMessageLocked :: "int \<Rightarrow> queue \<Rightarrow> dlqCandidate \<Rightarrow> bool \<Rightarrow> SQSMessage option" where
  "dlqMessageLocked now q candidate reaping =
     (if MaxReceiveCount (config q) \<le> 0 \<or> DeadLetterTargetArn (config q) = '''' then None
      else (case find (dlqMatch candidate now) (messages q) of
          None \<Rightarrow> None
        | Some current \<Rightarrow>
            if ApproximateReceiveCount current < MaxReceiveCount (config q) \<or> (reaping \<and> VisibleAt current > now)
            then None else Some current))"

definition retryCountAttrs :: "SQSMessage \<Rightarrow> msg_attrs" where
  "retryCountAttrs current = Some (AList.update dlqRetryCountAttribute
     (Some \<lparr>DataType = ''Number'', StringValue = itoa (ApproximateReceiveCount current), BinaryValue = []\<rparr>)
     (case MessageAttributes current of None \<Rightarrow> [] | Some m \<Rightarrow> m))"

definition moveToDLQ ::
    "sqs_env \<Rightarrow> int \<times> int \<times> int \<Rightarrow> string \<Rightarrow> dlqCandidate \<Rightarrow> bool \<Rightarrow> (string \<Rightarrow> sqs_error option) option
       \<Rightarrow> Store \<Rightarrow> (SQSMessage \<times> string) option sqs_result" where
  "moveToDLQ E clk3 source candidate reaping beforeSend s =
     (case clk3 of (now1, now2, now3) \<Rightarrow>
      case map_of (queues s) source of
        None \<Rightarrow> (Inl (SourceQueueNotFound source), s)
      | Some from \<Rightarrow>
          let target = queueNameFromArn (DeadLetterTargetArn (config from)) in
          if dlqMessageLocked now1 from candidate reaping = None then (Inr None, s)
          else (case map_of (queues s) target of
              None \<Rightarrow> (Inl (DLQNotFound target), s)
            | Some to \<Rightarrow>
                if source = target then (Inl SameDLQ, s)
                else if MaxReceiveCount (config from) \<le> 0 \<or>
                        queueNameFromArn (DeadLetterTargetArn (config from)) \<noteq> target then (Inr None, s)
                else (case dlqMessageLocked now2 from candidate reaping of
                    None \<Rightarrow> (Inr None, s)
                  | Some current \<Rightarrow>
                      (case (case beforeSend of None \<Rightarrow> None | Some f \<Rightarrow> f target) of
                          Some e \<Rightarrow> (Inl (SendToDLQ target e), s)
                        | None \<Rightarrow>
                            let delay = (if reaping then 0 else DelaySeconds (config to)) in
                            (case enqueueMessageLocked E now3 to (uuids s) (Body current) delay
                                    (retryCountAttrs current) (MessageGroupId current)
                                    (MessageDeduplicationId current) (\<not> reaping) of
                                Inl e \<Rightarrow> (Inl (SendToDLQ target e), s)
                              | Inr (delivered, to', u) \<Rightarrow>
                                  let ms = (case updateFirst (dlqMatch candidate now2) (\<lambda>m. m\<lparr>Deleted := True\<rparr>)
                                                    (messages from) of
                                              None \<Rightarrow> messages from | Some ms \<Rightarrow> ms);
                                      from' = from\<lparr>messages := ms\<rparr>;
                                      from'' = (if FifoQueue (config from) then signal from' else from')
                                  in (Inr (Some (cloneMessage delivered, target)),
                                      (putQueue source from'' (putQueue target to' s))\<lparr>uuids := u, dirty := True\<rparr>))))))"

section \<open>The reaper\<close>

definition hasDLQ :: "QueueConfig \<Rightarrow> bool" where
  "hasDLQ c \<longleftrightarrow> MaxReceiveCount c > 0 \<and> DeadLetterTargetArn c \<noteq> ''''"

definition staleThreshold :: "QueueConfig \<Rightarrow> int" where
  "staleThreshold c = (if MaxReceiveCount c > 0 then MaxReceiveCount c else defaultStaleReceiveCount)"

definition overThreshold :: "int \<Rightarrow> QueueConfig \<Rightarrow> SQSMessage \<Rightarrow> bool" where
  "overThreshold now c m \<longleftrightarrow> VisibleAt m \<le> now \<and> ApproximateReceiveCount m \<ge> staleThreshold c"

text \<open>The inner loop: the messages kept, the transfer candidates and whether anything changed.\<close>

fun reapScan :: "int \<Rightarrow> QueueConfig \<Rightarrow> SQSMessage list \<Rightarrow> SQSMessage list \<times> dlqCandidate list \<times> bool" where
  "reapScan now c [] = ([], [], False)"
| "reapScan now c (m # ms) =
     (case reapScan now c ms of (alive, moves, changed) \<Rightarrow>
        if Deleted m \<or> ExpiresAt m \<le> now then (alive, moves, True)
        else
          let moves' = (if hasDLQ c \<and> overThreshold now c m
                        then \<lparr>cand_id = MessageId m, cand_receipt = ReceiptHandle m\<rparr> # moves else moves) in
          if \<not> hasDLQ c \<and> \<not> Stale m \<and> overThreshold now c m
          then (m\<lparr>Stale := True\<rparr> # alive, moves', True)
          else (m # alive, moves', changed))"

definition reapQueue :: "int \<Rightarrow> queue \<Rightarrow> queue \<times> dlqCandidate list \<times> bool" where
  "reapQueue now q =
     (case reapScan now (config q) (messages q) of (alive, moves, receivabilityChanged) \<Rightarrow>
        let dd = filter (\<lambda>(id, expiry). \<not> now \<ge> expiry) (dedup q);
            q' = q\<lparr>messages := alive, dedup := dd\<rparr>
        in (if FifoQueue (config q) \<and> receivabilityChanged then signal q' else q', moves,
            receivabilityChanged \<or> dd \<noteq> dedup q))"

fun reapQueues :: "int \<Rightarrow> queue go_map \<Rightarrow> queue go_map \<times> (string \<times> dlqCandidate) list \<times> bool" where
  "reapQueues now [] = ([], [], False)"
| "reapQueues now ((name, q) # qs) =
     (case reapQueue now q of (q', moves, changed) \<Rightarrow>
      case reapQueues now qs of (qs', moves', changed') \<Rightarrow>
        ((name, q') # qs', map (Pair name) moves @ moves', changed \<or> changed'))"

fun reapMoves :: "sqs_env \<Rightarrow> (nat \<Rightarrow> int \<times> int \<times> int) \<Rightarrow> nat \<Rightarrow> (string \<times> dlqCandidate) list \<Rightarrow> Store \<Rightarrow> Store" where
  "reapMoves E clk i [] s = s"
| "reapMoves E clk i ((source, candidate) # moves) s =
     reapMoves E clk (Suc i) moves (snd (moveToDLQ E (clk i) source candidate True None s))"

definition Reap :: "sqs_env \<Rightarrow> int \<Rightarrow> (nat \<Rightarrow> int \<times> int \<times> int) \<Rightarrow> Store \<Rightarrow> Store" where
  "Reap E now clk s =
     (case reapQueues now (queues s) of (qs, moves, changed) \<Rightarrow>
        reapMoves E clk 0 moves (s\<lparr>queues := qs, dirty := dirty s \<or> changed\<rparr>))"

section \<open>Lemmas about transfers\<close>

lemma lockQueuePair_sorted:
  assumes "a \<noteq> b"
  shows "sorted (lockQueuePair a b)" and "lockQueuePair a b = lockQueuePair b a"
  using assms by (auto simp: lockQueuePair_def)

lemma dlqMessageLocked_Some:
  assumes "dlqMessageLocked now q candidate reaping = Some m"
  obtains us vs where "messages q = us @ m # vs" "dlqMatch candidate now m"
    "\<forall>x \<in> set us. \<not> dlqMatch candidate now x"
    "0 < MaxReceiveCount (config q)" "DeadLetterTargetArn (config q) \<noteq> ''''"
    "MaxReceiveCount (config q) \<le> ApproximateReceiveCount m"
    "reaping \<longrightarrow> VisibleAt m \<le> now"
  using assms
  by (auto simp: dlqMessageLocked_def split: if_splits option.splits elim!: find_Some_split)

lemma updateFirst_split:
  assumes "xs = us @ x # vs" "P x" "\<forall>u \<in> set us. \<not> P u"
  shows "updateFirst P f xs = Some (us @ f x # vs)"
  using assms(2,3) unfolding assms(1) by (induction us) auto

text \<open>A transfer that reports success marks exactly the candidate as deleted and hands its body to
  the dead-letter queue; every other outcome leaves the store as it was.\<close>

lemma moveToDLQ_unchanged:
  assumes "moveToDLQ E clk3 source candidate reaping beforeSend s = (r, s')"
    and "\<And>d. r \<noteq> Inr (Some d)"
  shows "s' = s"
  using assms
  by (auto simp: moveToDLQ_def Let_def split: prod.splits option.splits sum.splits if_splits)

lemma moveToDLQ_moved:
  assumes "moveToDLQ E (now1, now2, now3) source candidate reaping beforeSend s = (Inr (Some (msg, target)), s')"
  obtains src current us vs to to' u where
    "map_of (queues s) source = Some src" "target = queueNameFromArn (DeadLetterTargetArn (config src))"
    "source \<noteq> target" "map_of (queues s) target = Some to"
    "messages src = us @ current # vs" "dlqMatch candidate now2 current"
    "MaxReceiveCount (config src) \<le> ApproximateReceiveCount current" "0 < MaxReceiveCount (config src)"
    "reaping \<longrightarrow> VisibleAt current \<le> now2"
    "enqueueMessageLocked E now3 to (uuids s) (Body current) (if reaping then 0 else DelaySeconds (config to))
       (retryCountAttrs current) (MessageGroupId current) (MessageDeduplicationId current) (\<not> reaping)
       = Inr (msg, to', u)"
    "s' = (putQueue source ((if FifoQueue (config src) then signal else id)
             (src\<lparr>messages := us @ current\<lparr>Deleted := True\<rparr> # vs\<rparr>)) (putQueue target to' s))\<lparr>uuids := u, dirty := True\<rparr>"
proof -
  obtain src where src: "map_of (queues s) source = Some src"
    using assms by (auto simp: moveToDLQ_def split: option.splits)
  let ?t = "queueNameFromArn (DeadLetterTargetArn (config src))"
  obtain to where to: "map_of (queues s) ?t = Some to"
    using assms src by (auto simp: moveToDLQ_def Let_def split: option.splits if_splits)
  obtain current where cur: "dlqMessageLocked now2 src candidate reaping = Some current"
    using assms src to by (auto simp: moveToDLQ_def Let_def split: option.splits if_splits)
  obtain us vs where split: "messages src = us @ current # vs" "dlqMatch candidate now2 current"
      "\<forall>x \<in> set us. \<not> dlqMatch candidate now2 x" "0 < MaxReceiveCount (config src)"
      "MaxReceiveCount (config src) \<le> ApproximateReceiveCount current" "reaping \<longrightarrow> VisibleAt current \<le> now2"
    using cur by (auto elim!: dlqMessageLocked_Some)
  have upd: "updateFirst (dlqMatch candidate now2) (\<lambda>m. m\<lparr>Deleted := True\<rparr>) (us @ current # vs) =
      Some (us @ current\<lparr>Deleted := True\<rparr> # vs)"
    using split(2,3) by (intro updateFirst_split) auto
  have neq: "source \<noteq> ?t" and tgt: "target = ?t"
    using assms src to cur
    by (auto simp: moveToDLQ_def Let_def split: option.splits if_splits sum.splits)
  obtain to' u where enq: "enqueueMessageLocked E now3 to (uuids s) (Body current)
       (if reaping then 0 else DelaySeconds (config to))
       (retryCountAttrs current) (MessageGroupId current) (MessageDeduplicationId current) (\<not> reaping)
       = Inr (msg, to', u)"
    using assms src to cur
    by (auto simp: moveToDLQ_def Let_def split: option.splits if_splits sum.splits)
  have "s' = (putQueue source ((if FifoQueue (config src) then signal else id)
             (src\<lparr>messages := us @ current\<lparr>Deleted := True\<rparr> # vs\<rparr>)) (putQueue target to' s))\<lparr>uuids := u, dirty := True\<rparr>"
    using assms src to cur enq tgt upd split(1)
    by (auto simp: moveToDLQ_def Let_def split: option.splits if_splits)
  from that [OF src tgt neq [folded tgt] to [folded tgt] split(1,2,5,4,6) enq this] show thesis .
qed

end
