(* ===== verification/Tarn_Interfaces.thy ===== *)
theory Tarn_Interfaces
  imports Tarn_Prelude
begin

text \<open>
  The interfaces several components share, as locales.

  \<^item> \<open>keyed_store\<close>: a state that holds values under string keys, with a lookup, a put and a
    remove (the queue table of the SQS store, the rule table of the SQS disruptor). The client
    lemmas say how a property of every stored value survives a put or a remove, and that a put
    or a remove leaves the other keys alone.
  \<^item> \<open>transition_system\<close>: a state, a step relation and an invariant kept by every step. The client
    lemma lifts the invariant to every state a sequence of steps reaches.
\<close>

section \<open>Keyed stores\<close>

locale keyed_store =
  fixes lookup :: "'s \<Rightarrow> string \<Rightarrow> 'v option"
    and put :: "string \<Rightarrow> 'v \<Rightarrow> 's \<Rightarrow> 's"
    and remove :: "string \<Rightarrow> 's \<Rightarrow> 's"
  assumes lookup_put: "lookup (put k v s) k' = (if k' = k then Some v else lookup s k')"
    and lookup_remove: "lookup (remove k s) k' = (if k' = k then None else lookup s k')"
begin

definition every :: "(string \<Rightarrow> 'v \<Rightarrow> bool) \<Rightarrow> 's \<Rightarrow> bool" where
  "every P s \<longleftrightarrow> (\<forall>k v. lookup s k = Some v \<longrightarrow> P k v)"

lemma every_put: "every P s \<Longrightarrow> P k v \<Longrightarrow> every P (put k v s)"
  by (auto simp: every_def lookup_put)

lemma every_remove: "every P s \<Longrightarrow> every P (remove k s)"
  by (auto simp: every_def lookup_remove)

lemma every_mono: "every P s \<Longrightarrow> (\<And>k v. P k v \<Longrightarrow> Q k v) \<Longrightarrow> every Q s"
  by (auto simp: every_def)

lemma everyD: "every P s \<Longrightarrow> lookup s k = Some v \<Longrightarrow> P k v"
  by (simp add: every_def)

lemma put_frame: "k' \<noteq> k \<Longrightarrow> lookup (put k v s) k' = lookup s k'"
  by (simp add: lookup_put)

lemma put_commute: "k \<noteq> k' \<Longrightarrow> lookup (put k v (put k' v' s)) = lookup (put k' v' (put k v s))"
  by (rule ext) (simp add: lookup_put)

lemma remove_put: "lookup (remove k (put k v s)) = lookup (remove k s)"
  by (rule ext) (simp add: lookup_put lookup_remove)

end

section \<open>Transition systems\<close>

locale transition_system =
  fixes step :: "'s \<Rightarrow> 's \<Rightarrow> bool" and invariant :: "'s \<Rightarrow> bool"
  assumes step_invariant: "step s t \<Longrightarrow> invariant s \<Longrightarrow> invariant t"
begin

lemma steps_invariant: "step\<^sup>*\<^sup>* s t \<Longrightarrow> invariant s \<Longrightarrow> invariant t"
  by (induction rule: rtranclp_induct) (auto intro: step_invariant)

lemma run_invariant:
  assumes "invariant s" and "\<And>i. i < n \<Longrightarrow> step (f i) (f (Suc i))" and "f 0 = s"
  shows "invariant (f n)"
  using assms(2) by (induction n) (auto simp: assms(1,3) intro: step_invariant)

end

end
