(* ===== verification/SQS_Invariant.thy ===== *)
theory SQS_Invariant
  imports SQS_Dlq Tarn_Interfaces
begin

text \<open>
  The invariant of the SQS store and the step relation of its operations.

  The UUID package is a parameter; what the store relies on is that the UUIDs it draws differ
  from one another and are not empty (\<open>good_uuids\<close>). Under that hypothesis every operation keeps
  \<open>store_inv\<close>: queue names are distinct and agree with the stored configuration, message ids
  within a queue are distinct, so are the receipt handles handed out, and the channel long polls
  wait on is the last one created.
\<close>

section \<open>The queue table is a keyed store\<close>

interpretation queueTable: keyed_store
  "\<lambda>s name. map_of (queues s) name" putQueue
  "\<lambda>name s. s\<lparr>queues := AList.delete name (queues s)\<rparr>"
  by unfold_locales (simp_all add: putQueue_def)

lemma putQueue_lookup [simp]:
  "map_of (queues (putQueue n q s)) n' = (if n' = n then Some q else map_of (queues s) n')"
  by (rule queueTable.lookup_put)

lemma putQueue_fields [simp]: "uuids (putQueue n q s) = uuids s" "dirty (putQueue n q s) = dirty s"
  by (simp_all add: putQueue_def)

section \<open>The invariant\<close>

definition good_uuids :: "sqs_env \<Rightarrow> bool" where
  "good_uuids E \<longleftrightarrow> inj (uuid E) \<and> (\<forall>n. uuid E n \<noteq> '''')"

text \<open>\<open>drawn E u x\<close>: \<open>x\<close> is one of the first \<open>u\<close> UUIDs.\<close>

definition drawn :: "sqs_env \<Rightarrow> nat \<Rightarrow> string \<Rightarrow> bool" where
  "drawn E u x \<longleftrightarrow> (\<exists>k < u. x = uuid E k)"

definition handles :: "SQSMessage list \<Rightarrow> string list" where
  "handles ms = filter (\<lambda>h. h \<noteq> '''') (map ReceiptHandle ms)"

definition messages_inv :: "sqs_env \<Rightarrow> nat \<Rightarrow> SQSMessage list \<Rightarrow> bool" where
  "messages_inv E u ms \<longleftrightarrow>
     (\<forall>m \<in> set ms. drawn E u (MessageId m) \<and> (ReceiptHandle m = '''' \<or> drawn E u (ReceiptHandle m)) \<and>
        0 \<le> ApproximateReceiveCount m) \<and>
     distinct (map MessageId ms) \<and> distinct (handles ms)"

definition queue_inv :: "sqs_env \<Rightarrow> nat \<Rightarrow> string \<Rightarrow> queue \<Rightarrow> bool" where
  "queue_inv E u name q \<longleftrightarrow>
     QueueName (config q) = name \<and> QueueUrl (config q) = queueUrlOf E name \<and>
     QueueArn (config q) = queueArnOf E name \<and>
     (FifoThroughputLimit (config q) = ''perMessageGroupId'' \<longrightarrow> DeduplicationScope (config q) = ''messageGroup'') \<and>
     distinct (map fst (dedup q)) \<and>
     (\<forall>c. wake q = Some c \<longrightarrow> Suc c = chans q) \<and>
     messages_inv E u (messages q)"

definition store_inv :: "sqs_env \<Rightarrow> Store \<Rightarrow> bool" where
  "store_inv E s \<longleftrightarrow> distinct (map fst (queues s)) \<and> queueTable.every (queue_inv E (uuids s)) s"

section \<open>The operations as steps\<close>

inductive sqs_step :: "sqs_env \<Rightarrow> Store \<Rightarrow> Store \<Rightarrow> bool" for E :: sqs_env where
  create: "sqs_step E s (snd (CreateQueue E nowSec name attrs tags s))"
| delete_queue: "sqs_step E s (snd (DeleteQueue name s))"
| set_attributes: "sqs_step E s (snd (SetQueueAttributes E nowSec name attrs s))"
| send: "sqs_step E s (snd (SendMessage E now name body delaySec mattrs groupId dedupId s))"
| receive: "sqs_step E s (snd (receive E now name maxCount visTimeout s))"
| delete_message: "sqs_step E s (snd (DeleteMessage name handle s))"
| delete_by_id: "sqs_step E s (snd (DeleteMessageByID name messageID s))"
| processed: "sqs_step E s (snd (IncrementProcessedCount name delta s))"
| visibility: "sqs_step E s (snd (ChangeMessageVisibility now name handle timeout s))"
| release: "sqs_step E s (snd (ReleaseMessage now name handle s))"
| purge: "sqs_step E s (snd (PurgeQueue name s))"
| redrive: "sqs_step E s (snd (RedriveMessages E now src dst maxMessages s))"
| tag: "sqs_step E s (snd (TagQueue name tags' s))"
| untag: "sqs_step E s (snd (UntagQueue name keys s))"
| move: "sqs_step E s (snd (moveToDLQ E clk3 src cand reaping beforeSend s))"
| reap: "sqs_step E s (Reap E now clk s)"

section \<open>Preservation\<close>

lemma drawn_mono: "drawn E u x \<Longrightarrow> u \<le> u' \<Longrightarrow> drawn E u' x"
  unfolding drawn_def using order_less_le_trans by blast

lemma not_drawn_next: "good_uuids E \<Longrightarrow> u \<le> k \<Longrightarrow> \<not> drawn E u (uuid E k)"
  by (auto simp: drawn_def good_uuids_def dest: injD)

lemma drawn_next: "k < u \<Longrightarrow> drawn E u (uuid E k)"
  by (auto simp: drawn_def)

lemma handles_simps [simp]:
  "handles [] = []"
  "handles (m # ms) = (if ReceiptHandle m \<noteq> '''' then [ReceiptHandle m] else []) @ handles ms"
  by (simp_all add: handles_def)

lemma not_drawn_range: "good_uuids E \<Longrightarrow> drawn E u x \<Longrightarrow> x \<notin> uuid E ` {u..<u'}"
  using not_drawn_next by auto

lemma handles_drawn:
  assumes "\<forall>m \<in> set ms. ReceiptHandle m = '''' \<or> drawn E u (ReceiptHandle m)" and "x \<in> set (handles ms)"
  shows "drawn E u x"
  using assms by (auto simp: handles_def)

lemma messages_inv_handles: "messages_inv E u ms \<Longrightarrow> x \<in> set (handles ms) \<Longrightarrow> drawn E u x"
  by (rule handles_drawn) (auto simp: messages_inv_def)

lemma messages_inv_Nil [simp]: "messages_inv E u []"
  by (simp add: messages_inv_def handles_def)

lemma messages_inv_mono: "messages_inv E u ms \<Longrightarrow> u \<le> u' \<Longrightarrow> messages_inv E u' ms"
  by (auto simp: messages_inv_def intro: drawn_mono)

lemma messages_inv_append:
  assumes "messages_inv E u xs" and "messages_inv E u ys"
    and "set (map MessageId xs) \<inter> set (map MessageId ys) = {}"
    and "set (handles xs) \<inter> set (handles ys) = {}"
  shows "messages_inv E u (xs @ ys)"
  using assms by (auto simp: messages_inv_def handles_def)

lemma messages_inv_appendD: "messages_inv E u (xs @ ys) \<Longrightarrow> messages_inv E u xs \<and> messages_inv E u ys"
  by (auto simp: messages_inv_def handles_def)

text \<open>Changing messages in place, keeping ids and handles.\<close>

lemma messages_inv_update:
  assumes "messages_inv E u xs" and "map MessageId ys = map MessageId xs"
    and "map ReceiptHandle ys = map ReceiptHandle xs"
    and "\<forall>m \<in> set ys. 0 \<le> ApproximateReceiveCount m"
  shows "messages_inv E u ys"
proof -
  have "MessageId ` set ys = MessageId ` set xs" "ReceiptHandle ` set ys = ReceiptHandle ` set xs"
    using assms(2,3) by (metis list.set_map)+
  moreover have "\<forall>x \<in> MessageId ` set xs. drawn E u x"
      "\<forall>x \<in> ReceiptHandle ` set xs. x = '''' \<or> drawn E u x"
    using assms(1) by (auto simp: messages_inv_def)
  ultimately have "\<forall>m \<in> set ys. drawn E u (MessageId m)"
      "\<forall>m \<in> set ys. ReceiptHandle m = '''' \<or> drawn E u (ReceiptHandle m)"
    by blast+
  with assms show ?thesis by (auto simp: messages_inv_def handles_def)
qed

lemma messages_inv_updateFirst:
  assumes "updateFirst P f xs = Some ys" and "messages_inv E u xs"
    and "\<And>m. MessageId (f m) = MessageId m" and "\<And>m. ReceiptHandle (f m) = ReceiptHandle m"
    and "\<And>m. 0 \<le> ApproximateReceiveCount m \<Longrightarrow> 0 \<le> ApproximateReceiveCount (f m)"
  shows "messages_inv E u ys"
proof (rule messages_inv_update [OF assms(2)])
  show "map MessageId ys = map MessageId xs" "map ReceiptHandle ys = map ReceiptHandle xs"
    using assms(1,3,4) by (auto dest: updateFirst_map)
  show "\<forall>m \<in> set ys. 0 \<le> ApproximateReceiveCount m"
    using assms(1,2,5) by (auto simp: messages_inv_def elim!: updateFirst_Some)
qed

lemma distinct_handles_filter: "distinct (handles ms) \<Longrightarrow> distinct (handles (filter P ms))"
  by (induction ms) (auto simp: handles_def)

lemma messages_inv_filter: "messages_inv E u ms \<Longrightarrow> messages_inv E u (filter P ms)"
  by (auto simp: messages_inv_def distinct_handles_filter intro: distinct_map_filter)

lemma messages_inv_map:
  assumes "messages_inv E u ms" and "\<And>m. MessageId (f m) = MessageId m"
    and "\<And>m. ReceiptHandle (f m) = ReceiptHandle m"
    and "\<And>m. ApproximateReceiveCount (f m) = ApproximateReceiveCount m"
  shows "messages_inv E u (map f ms)"
  using assms by (intro messages_inv_update [OF assms(1)]) (auto simp: messages_inv_def)

lemma queue_inv_mono: "queue_inv E u n q \<Longrightarrow> u \<le> u' \<Longrightarrow> queue_inv E u' n q"
  by (auto simp: queue_inv_def intro: messages_inv_mono)

lemma queue_inv_messages:
  "queue_inv E u n q \<Longrightarrow> messages_inv E u' ms \<Longrightarrow> queue_inv E u' n (q\<lparr>messages := ms\<rparr>)"
  by (auto simp: queue_inv_def)

lemma queue_inv_signal: "queue_inv E u n q \<Longrightarrow> queue_inv E u n (signal q)"
  by (auto simp: queue_inv_def signal_def)

lemma queue_inv_waitChan: "queue_inv E u n q \<Longrightarrow> queue_inv E u n (snd (waitChan q))"
  by (auto simp: queue_inv_def waitChan_def split: option.splits)

lemma store_inv_lookup: "store_inv E s \<Longrightarrow> map_of (queues s) n = Some q \<Longrightarrow> queue_inv E (uuids s) n q"
  by (auto simp: store_inv_def dest: queueTable.everyD)

lemma store_inv_put:
  assumes "store_inv E s" and "queue_inv E (uuids s') n q" and "uuids s \<le> uuids s'"
    and "queues s' = queues (putQueue n q s)"
  shows "store_inv E s'"
proof -
  have "queueTable.every (queue_inv E (uuids s')) s"
    using assms(1,3) unfolding store_inv_def by (blast intro: queueTable.every_mono queue_inv_mono)
  then have "queueTable.every (queue_inv E (uuids s')) (putQueue n q s)"
    using assms(2) by (rule queueTable.every_put)
  with assms(1,4) show ?thesis by (simp add: store_inv_def queueTable.every_def putQueue_def)
qed

subsection \<open>Sending\<close>

lemma messages_inv_snoc_fresh:
  assumes "good_uuids E" and "messages_inv E u ms" and "MessageId m = uuid E u" and "ReceiptHandle m = ''''"
    and "ApproximateReceiveCount m = 0"
  shows "messages_inv E (Suc u) (ms @ [m])"
proof (rule messages_inv_append)
  show "messages_inv E (Suc u) ms" using assms(2) by (rule messages_inv_mono) simp
  show "messages_inv E (Suc u) [m]" using assms(3-5) by (simp add: messages_inv_def handles_def drawn_next)
  show "set (map MessageId ms) \<inter> set (map MessageId [m]) = {}"
    using assms(2,3) not_drawn_next [OF assms(1), of u u] by (auto simp: messages_inv_def)
  show "set (handles ms) \<inter> set (handles [m]) = {}" using assms(4) by (simp add: handles_def)
qed

lemma newMessage_fields [simp]:
  "MessageId (newMessage E now q u body delay attrs g d) = uuid E u"
  "Body (newMessage E now q u body delay attrs g d) = body"
  "ReceiptHandle (newMessage E now q u body delay attrs g d) = ''''"
  "ApproximateReceiveCount (newMessage E now q u body delay attrs g d) = 0"
  "MessageGroupId (newMessage E now q u body delay attrs g d) = g"
  "MessageDeduplicationId (newMessage E now q u body delay attrs g d) = d"
  "MessageAttributes (newMessage E now q u body delay attrs g d) = attrs"
  "Deleted (newMessage E now q u body delay attrs g d) = False"
  "Stale (newMessage E now q u body delay attrs g d) = False"
  by (simp_all add: newMessage_def)

text \<open>An enqueue either returns a message already in the queue or appends a new one.\<close>

lemma enqueue_cases:
  assumes "enqueueMessageLocked E now q u body delay attrs g d honor = Inr (msg, q', u')"
  obtains (duplicate) "msg \<in> set (messages q)" "MessageDeduplicationId msg = d" "\<not> Deleted msg"
      "honor" "FifoQueue (config q)" "d \<noteq> ''''" "q' = q" "u' = u"
    | (fresh) dd where "msg = newMessage E now q u body delay attrs g d" "u' = Suc u"
      "q' = signal (q\<lparr>dedup := dd, messages := messages q @ [msg]\<rparr>)"
      "dd = (if honor \<and> FifoQueue (config q) \<and> d \<noteq> '''' then AList.update d (now + 300000) (dedup q) else dedup q)"
proof -
  let ?use = "honor \<and> FifoQueue (config q) \<and> d \<noteq> ''''"
  let ?dup = "if ?use \<and> (case map_of (dedup q) d of None \<Rightarrow> False | Some expiry \<Rightarrow> now < expiry)
     then find (\<lambda>m. MessageDeduplicationId m = d \<and> \<not> Deleted m) (messages q) else None"
  show thesis
  proof (cases ?dup)
    case (Some m)
    then have "m \<in> set (messages q)" "MessageDeduplicationId m = d" "\<not> Deleted m" and use: ?use
      by (auto simp: find_Some_iff split: if_splits)
    moreover have "msg = m" "q' = q" "u' = u"
      using assms Some by (auto simp: enqueueMessageLocked_def Let_def split: if_splits)
    ultimately show thesis by (intro duplicate) auto
  next
    case None
    let ?msg = "newMessage E now q u body delay attrs g d"
    let ?dd = "if ?use then AList.update d (now + 300000) (dedup q) else dedup q"
    have "msg = ?msg \<and> u' = Suc u \<and> q' = signal (q\<lparr>dedup := ?dd, messages := messages q @ [?msg]\<rparr>)"
      using assms None by (auto simp: enqueueMessageLocked_def Let_def split: if_splits)
    then show thesis by (intro fresh [of ?dd]) auto
  qed
qed

lemma enqueue_inv:
  assumes "good_uuids E" and "queue_inv E u n q"
    and "enqueueMessageLocked E now q u body delay attrs g d honor = Inr (msg, q', u')"
  shows "queue_inv E u' n q' \<and> u \<le> u'"
  using assms(3)
proof (cases rule: enqueue_cases)
  case duplicate
  with assms(2) show ?thesis by simp
next
  case (fresh dd)
  have "messages_inv E (Suc u) (messages q @ [msg])"
    using assms(1,2) fresh(1) by (intro messages_inv_snoc_fresh) (auto simp: queue_inv_def)
  with fresh assms(2) show ?thesis by (auto simp: queue_inv_def signal_def)
qed

subsection \<open>Receiving\<close>

lemma receiveScan_Cons_step:
  assumes "receiveScan E fifo now maxCount vis blocked (m # ms) result n u = (ms', result', n', u')"
  obtains (full) "ms' = m # ms" "u' = u"
    | (skip) b n1 rest where "ms' = m # rest"
        "receiveScan E fifo now maxCount vis b ms result n1 u = (rest, result', n', u')"
    | (deliver) b r n1 rest where "ms' = deliver E now vis u m # rest"
        "receiveScan E fifo now maxCount vis b ms r n1 (Suc u) = (rest, result', n', u')"
proof (cases "int (length result) < maxCount")
  case False
  with assms show thesis by (auto intro: full)
next
  case True
  show thesis
  proof (cases "available now m \<and> (fifo \<longrightarrow> MessageGroupId m \<notin> set blocked)")
    case False
    from receiveScan_skip [OF False True, of E vis ms n u] obtain n1 b where
      "map_prod (Cons m) id (receiveScan E fifo now maxCount vis b ms result n1 u) = (ms', result', n', u')"
      using assms by metis
    then show thesis by (auto simp: map_prod_Cons_eq intro: skip)
  next
    case True
    with receiveScan_deliver [of now m fifo blocked result maxCount E vis ms n u] obtain n1 where
      "map_prod (Cons (SQS_Store.deliver E now vis u m)) id (receiveScan E fifo now maxCount vis blocked ms
         (result @ [SQS_Store.deliver E now vis u m]) n1 (Suc u)) = (ms', result', n', u')"
      using assms \<open>int (length result) < maxCount\<close> by metis
    then show thesis by (auto simp: map_prod_Cons_eq intro: deliver)
  qed
qed

lemma deliver_fields [simp]:
  "MessageId (deliver E now vis u m) = MessageId m" "Body (deliver E now vis u m) = Body m"
  "MessageGroupId (deliver E now vis u m) = MessageGroupId m"
  "ReceiptHandle (deliver E now vis u m) = uuid E u"
  "ApproximateReceiveCount (deliver E now vis u m) = ApproximateReceiveCount m + 1"
  "Deleted (deliver E now vis u m) = Deleted m" "Stale (deliver E now vis u m) = Stale m"
  "VisibleAt (deliver E now vis u m) = wrap64 (now + vis * 1000)"
  "DelayUntil (deliver E now vis u m) = DelayUntil m" "ExpiresAt (deliver E now vis u m) = ExpiresAt m"
  by (simp_all add: deliver_def)

lemma receiveScan_ids:
  assumes "receiveScan E fifo now maxCount vis blocked ms result n u = (ms', result', n', u')"
  shows "map MessageId ms' = map MessageId ms" and "u \<le> u'"
    and "set (handles ms') \<subseteq> set (handles ms) \<union> uuid E ` {u..<u'}"
proof -
  have "map MessageId ms' = map MessageId ms \<and> u \<le> u' \<and>
      set (handles ms') \<subseteq> set (handles ms) \<union> uuid E ` {u..<u'}"
    using assms
  proof (induction ms arbitrary: blocked result n u ms')
    case Nil
    then show ?case by simp
  next
    case (Cons m ms)
    from Cons.prems show ?case
    proof (cases rule: receiveScan_Cons_step)
      case full
      then show ?thesis by simp
    next
      case (skip b n1 rest)
      with Cons.IH [OF skip(2)] show ?thesis by auto
    next
      case (deliver b r n1 rest)
      have "uuid E ` {Suc u..<u'} \<subseteq> uuid E ` {u..<u'}" by auto
      with deliver Cons.IH [OF deliver(2)] show ?thesis by auto
    qed
  qed
  then show "map MessageId ms' = map MessageId ms" and "u \<le> u'"
    and "set (handles ms') \<subseteq> set (handles ms) \<union> uuid E ` {u..<u'}"
    by blast+
qed

lemma receiveScan_messages_inv:
  assumes "good_uuids E"
    and "receiveScan E fifo now maxCount vis blocked ms result n u = (ms', result', n', u')"
    and "messages_inv E u ms"
  shows "messages_inv E u' ms'"
  using assms(2,3)
proof (induction ms arbitrary: blocked result n u ms')
  case Nil
  then show ?case by simp
next
  case (Cons m ms)
  have tail: "messages_inv E u ms" and m: "messages_inv E u [m]"
    using Cons.prems(2) messages_inv_appendD [of E u "[m]" ms] by simp_all
  have new: "MessageId m \<notin> set (map MessageId ms)" "ReceiptHandle m \<noteq> '''' \<longrightarrow> ReceiptHandle m \<notin> set (handles ms)"
    using Cons.prems(2) by (auto simp: messages_inv_def)
  from Cons.prems(1) show ?case
  proof (cases rule: receiveScan_Cons_step)
    case full
    with Cons.prems show ?thesis by simp
  next
    case (skip b n1 rest)
    note ids = receiveScan_ids [OF skip(2)]
    have "messages_inv E u' ([m] @ rest)"
    proof (rule messages_inv_append)
      show "messages_inv E u' [m]" using m ids(2) by (rule messages_inv_mono)
      show "messages_inv E u' rest" using Cons.IH [OF skip(2) tail] .
      show "set (map MessageId [m]) \<inter> set (map MessageId rest) = {}" using ids(1) new(1) by simp
      show "set (handles [m]) \<inter> set (handles rest) = {}"
        using ids(3) new(2) messages_inv_handles [OF m] not_drawn_range [OF assms(1), of u "ReceiptHandle m" u']
        by auto
    qed
    with skip show ?thesis by simp
  next
    case (deliver b r n1 rest)
    note ids = receiveScan_ids [OF deliver(2)]
    have tail': "messages_inv E (Suc u) ms" using tail by (rule messages_inv_mono) simp
    have "messages_inv E u' ([SQS_Store.deliver E now vis u m] @ rest)"
    proof (rule messages_inv_append)
      have "drawn E u' (MessageId m)" using m ids(2) by (auto simp: messages_inv_def intro: drawn_mono)
      then show "messages_inv E u' [SQS_Store.deliver E now vis u m]"
        using m ids(2) by (auto simp: messages_inv_def handles_def drawn_next)
      show "messages_inv E u' rest" using Cons.IH [OF deliver(2) tail'] .
      show "set (map MessageId [SQS_Store.deliver E now vis u m]) \<inter> set (map MessageId rest) = {}"
        using ids(1) new(1) by simp
      show "set (handles [SQS_Store.deliver E now vis u m]) \<inter> set (handles rest) = {}"
        using ids(3) messages_inv_handles [OF tail, of "uuid E u"] not_drawn_next [OF assms(1), of u u]
          not_drawn_range [OF assms(1) drawn_next, of u "Suc u" u']
        by auto
    qed
    with deliver show ?thesis by simp
  qed
qed

lemma receive_store_inv:
  assumes "good_uuids E" and "store_inv E s"
  shows "store_inv E (snd (receive E now name maxCount visTimeout s))"
proof (cases "map_of (queues s) name")
  case None
  with assms(2) show ?thesis by (simp add: receive_def)
next
  case (Some q)
  let ?vis = "if visTimeout < 0 then VisibilityTimeout (config q) else visTimeout"
  obtain ms result nextAt u where scan:
    "receiveScan E (FifoQueue (config q)) now (clampMaxCount maxCount) ?vis [] (messages q) [] 0 (uuids s) =
       (ms, result, nextAt, u)" by (metis prod_cases4)
  have q: "queue_inv E (uuids s) name q" using assms(2) Some by (rule store_inv_lookup)
  have "messages_inv E u ms"
    using receiveScan_messages_inv [OF assms(1) scan] q by (simp add: queue_inv_def)
  with q have q': "queue_inv E u name (q\<lparr>messages := ms\<rparr>)" by (rule queue_inv_messages)
  have "uuids s \<le> u" using receiveScan_ids(2) [OF scan] .
  show ?thesis
  proof (cases "result = []")
    case True
    obtain c qw where w: "waitChan (q\<lparr>messages := ms\<rparr>) = (c, qw)" by fastforce
    then have "queue_inv E u name qw" using queue_inv_waitChan [OF q'] by simp
    with True w Some scan \<open>uuids s \<le> u\<close> show ?thesis
      by (intro store_inv_put [OF assms(2), of _ name qw]) (simp_all add: receive_def putQueue_def)
  next
    case False
    with q' Some scan \<open>uuids s \<le> u\<close> show ?thesis
      by (intro store_inv_put [OF assms(2), of _ name "q\<lparr>messages := ms\<rparr>"])
        (simp_all add: receive_def putQueue_def)
  qed
qed

subsection \<open>Operations on stored messages\<close>

lemma releaseOne_fields [simp]:
  "MessageId (releaseOne now m) = MessageId m" "ReceiptHandle (releaseOne now m) = ReceiptHandle m"
  by (simp_all add: releaseOne_def Let_def)

lemma releaseOne_count: "0 \<le> ApproximateReceiveCount m \<Longrightarrow> 0 \<le> ApproximateReceiveCount (releaseOne now m)"
  by (simp add: releaseOne_def Let_def)

text \<open>Replacing the messages of a queue, with or without a wake-up.\<close>

lemma store_inv_messages:
  assumes "store_inv E s" and "map_of (queues s) n = Some q" and "messages_inv E (uuids s') ms"
    and "uuids s \<le> uuids s'" and "f = id \<or> f = signal"
    and "queues s' = queues (putQueue n (f (q\<lparr>messages := ms\<rparr>)) s)"
  shows "store_inv E s'"
proof (rule store_inv_put [OF assms(1) _ assms(4,6)])
  have "queue_inv E (uuids s') n (q\<lparr>messages := ms\<rparr>)"
    using store_inv_lookup [OF assms(1,2)] assms(3) by (rule queue_inv_messages)
  with assms(5) show "queue_inv E (uuids s') n (f (q\<lparr>messages := ms\<rparr>))" by (auto intro: queue_inv_signal)
qed

lemma queue_messages_inv:
  "store_inv E s \<Longrightarrow> map_of (queues s) n = Some q \<Longrightarrow> messages_inv E (uuids s) (messages q)"
  by (auto simp: queue_inv_def dest: store_inv_lookup)

lemma put_messages_inv:
  assumes "store_inv E s" and "map_of (queues s) n = Some q" and "messages_inv E (uuids s) ms"
  shows "store_inv E ((putQueue n (q\<lparr>messages := ms\<rparr>) s)\<lparr>dirty := b\<rparr>)"
    and "store_inv E ((putQueue n (signal (q\<lparr>messages := ms\<rparr>)) s)\<lparr>dirty := b\<rparr>)"
  using assms
  by (rule_tac store_inv_messages [OF assms(1,2), of _ ms id], simp_all)
    (rule store_inv_messages [OF assms(1,2), of _ ms signal], simp_all add: assms(3))

lemma queue_updateFirst_inv:
  assumes "store_inv E s" and "map_of (queues s) n = Some q" and "updateFirst P f (messages q) = Some ms"
    and "\<And>m. MessageId (f m) = MessageId m" and "\<And>m. ReceiptHandle (f m) = ReceiptHandle m"
    and "\<And>m. 0 \<le> ApproximateReceiveCount m \<Longrightarrow> 0 \<le> ApproximateReceiveCount (f m)"
  shows "messages_inv E (uuids s) ms"
  using messages_inv_updateFirst [OF assms(3) queue_messages_inv [OF assms(1,2)]] assms(4-6) .

lemma DeleteMessage_inv: "store_inv E s \<Longrightarrow> store_inv E (snd (DeleteMessage name h s))"
  by (auto simp: DeleteMessage_def Let_def split: option.splits
      intro!: put_messages_inv intro: queue_updateFirst_inv)

lemma DeleteMessageByID_inv: "store_inv E s \<Longrightarrow> store_inv E (snd (DeleteMessageByID name h s))"
  by (auto simp: DeleteMessageByID_def Let_def split: option.splits
      intro!: put_messages_inv intro: queue_updateFirst_inv)

lemma ChangeMessageVisibility_inv: "store_inv E s \<Longrightarrow> store_inv E (snd (ChangeMessageVisibility now name h t s))"
  by (auto simp: ChangeMessageVisibility_def split: option.splits
      intro!: put_messages_inv intro: queue_updateFirst_inv)

lemma ReleaseMessage_inv: "store_inv E s \<Longrightarrow> store_inv E (snd (ReleaseMessage now name h s))"
  by (auto simp: ReleaseMessage_def releaseOne_count split: option.splits
      intro!: put_messages_inv intro: queue_updateFirst_inv)

lemma PurgeQueue_inv: "store_inv E s \<Longrightarrow> store_inv E (snd (PurgeQueue name s))"
  by (auto simp: PurgeQueue_def split: option.splits intro!: put_messages_inv)

lemma SendMessage_inv:
  assumes "good_uuids E" and "store_inv E s"
  shows "store_inv E (snd (SendMessage E now name body delaySec attrs g d s))"
  using assms(2)
  by (auto simp: SendMessage_def Let_def putQueue_def split: option.splits sum.splits
      dest!: enqueue_inv [OF assms(1), rotated] dest: store_inv_lookup
      intro!: store_inv_put [OF assms(2)])

subsection \<open>Configuration\<close>

lemma store_inv_config:
  assumes "store_inv E s" and "map_of (queues s) n = Some q" and "uuids s' = uuids s"
    and "queues s' = queues (putQueue n (q\<lparr>config := c\<rparr>) s)"
    and "QueueName c = QueueName (config q)" "QueueUrl c = QueueUrl (config q)"
      "QueueArn c = QueueArn (config q)"
    and "FifoThroughputLimit c = ''perMessageGroupId'' \<longrightarrow> DeduplicationScope c = ''messageGroup''"
  shows "store_inv E s'"
  using store_inv_lookup [OF assms(1,2)] assms(3-)
  by (intro store_inv_put [OF assms(1), of s' n "q\<lparr>config := c\<rparr>"]) (auto simp: queue_inv_def)

lemma queue_throughput:
  "store_inv E s \<Longrightarrow> map_of (queues s) n = Some q \<Longrightarrow>
     FifoThroughputLimit (config q) = ''perMessageGroupId'' \<longrightarrow> DeduplicationScope (config q) = ''messageGroup''"
  by (auto simp: queue_inv_def dest: store_inv_lookup)

lemma SetQueueAttributes_inv:
  assumes "store_inv E s"
  shows "store_inv E (snd (SetQueueAttributes E t name attrs s))"
proof (cases "map_of (queues s) name")
  case None
  with assms show ?thesis by (simp add: SetQueueAttributes_def)
next
  case (Some q)
  show ?thesis
  proof (cases "applyQueueAttributes E (config q) attrs")
    case (Inl e)
    with Some assms show ?thesis by (simp add: SetQueueAttributes_def)
  next
    case (Inr c)
    with Some show ?thesis
      using applyQueueAttributes_names [OF Inr] applyQueueAttributes_throughput [OF Inr]
      by (intro store_inv_config [OF assms Some, of _ "c\<lparr>LastModifiedTimestamp := t\<rparr>"])
        (simp_all add: SetQueueAttributes_def)
  qed
qed

lemma IncrementProcessedCount_inv: "store_inv E s \<Longrightarrow> store_inv E (snd (IncrementProcessedCount name delta s))"
  by (auto simp: IncrementProcessedCount_def queue_throughput split: option.splits intro: store_inv_config)

lemma TagQueue_inv: "store_inv E s \<Longrightarrow> store_inv E (snd (TagQueue name tags s))"
  by (auto simp: TagQueue_def Let_def queue_throughput split: option.splits intro: store_inv_config)

lemma UntagQueue_inv: "store_inv E s \<Longrightarrow> store_inv E (snd (UntagQueue name keys s))"
  by (auto simp: UntagQueue_def Let_def queue_throughput split: option.splits intro: store_inv_config)

lemma newQueue_inv:
  assumes "applyQueueAttributes E (newQueueConfig E t name b tags) attrs = Inr c"
  shows "queue_inv E u name (newQueue c)"
  using applyQueueAttributes_names [OF assms] applyQueueAttributes_throughput [OF assms]
  by (simp add: queue_inv_def newQueue_def newQueueConfig_def)

lemma CreateQueue_inv:
  assumes "store_inv E s"
  shows "store_inv E (snd (CreateQueue E t name attrs tags s))"
  using assms newQueue_inv
  by (auto simp: CreateQueue_def Let_def putQueue_def split: option.splits sum.splits
      intro!: store_inv_put [OF assms])

lemma DeleteQueue_inv:
  assumes "store_inv E s"
  shows "store_inv E (snd (DeleteQueue name s))"
proof (cases "map_of (queues s) name")
  case None
  with assms show ?thesis by (simp add: DeleteQueue_def)
next
  case (Some q)
  have "queueTable.every (queue_inv E (uuids s)) (s\<lparr>queues := AList.delete name (queues s)\<rparr>)"
    using assms by (simp add: store_inv_def queueTable.every_remove)
  moreover have "snd (DeleteQueue name s) = s\<lparr>queues := AList.delete name (queues s), dirty := True\<rparr>"
    using Some by (simp add: DeleteQueue_def)
  ultimately show ?thesis
    using assms by (simp add: store_inv_def queueTable.every_def del: map_of_eq_Some_iff)
qed

subsection \<open>Redrive\<close>

lemma redriveCopy_fields [simp]:
  "MessageId (redriveCopy E now c u m) = uuid E u" "ReceiptHandle (redriveCopy E now c u m) = ''''"
  "Body (redriveCopy E now c u m) = Body m" "MessageGroupId (redriveCopy E now c u m) = MessageGroupId m"
  "ApproximateReceiveCount (redriveCopy E now c u m) = 0"
  "Deleted (redriveCopy E now c u m) = False" "Stale (redriveCopy E now c u m) = False"
  by (simp_all add: redriveCopy_def)

lemma redriveScan_ids:
  assumes "redriveScan E now c maxM ms moved u = (ms', copies, moved', u')"
  shows "map MessageId ms' = map MessageId ms \<and> map ReceiptHandle ms' = map ReceiptHandle ms \<and>
    map ApproximateReceiveCount ms' = map ApproximateReceiveCount ms \<and>
    u' = u + length copies \<and> map MessageId copies = map (uuid E) [u..<u'] \<and>
    (\<forall>m \<in> set copies. ReceiptHandle m = '''' \<and> ApproximateReceiveCount m = 0)"
  using assms
proof (induction ms arbitrary: moved u ms' copies moved' u')
  case Nil
  then show ?case by simp
next
  case (Cons m ms)
  consider (dead) "Deleted m \<or> ExpiresAt m \<le> now"
    | (full) "\<not> (Deleted m \<or> ExpiresAt m \<le> now)" "maxM > 0 \<and> moved \<ge> maxM"
    | (take) "\<not> (Deleted m \<or> ExpiresAt m \<le> now)" "\<not> (maxM > 0 \<and> moved \<ge> maxM)" by blast
  then show ?case
  proof cases
    case dead
    with Cons.prems obtain rest where "ms' = m # rest"
        "redriveScan E now c maxM ms moved u = (rest, copies, moved', u')"
      by (auto simp: map_prod_Cons_eq)
    with Cons.IH show ?thesis by force
  next
    case full
    with Cons.prems show ?thesis by auto
  next
    case take
    obtain rest cs mv v where rec: "redriveScan E now c maxM ms (moved + 1) (Suc u) = (rest, cs, mv, v)"
      by (metis prod_cases4)
    with take Cons.prems have "ms' = m\<lparr>Deleted := True\<rparr> # rest" "copies = redriveCopy E now c u m # cs" "u' = v"
      by auto
    with Cons.IH [OF rec] show ?thesis by (auto simp: upt_conv_Cons simp del: upt_Suc)
  qed
qed

lemma distinct_uuid_range: "good_uuids E \<Longrightarrow> distinct (map (uuid E) [u..<u'])"
  by (auto simp: distinct_map good_uuids_def intro: inj_on_subset)

lemma redrive_copies_inv:
  assumes "good_uuids E" and "messages_inv E u ms"
    and "map MessageId copies = map (uuid E) [u..<u']" "u \<le> u'"
    and "\<forall>m \<in> set copies. ReceiptHandle m = '''' \<and> ApproximateReceiveCount m = 0"
  shows "messages_inv E u' (ms @ copies)"
proof (rule messages_inv_append)
  have ids: "MessageId ` set copies = uuid E ` {u..<u'}"
    using assms(3) by (metis atLeastLessThan_upt list.set_map)
  have h: "handles copies = []" using assms(5) by (simp add: handles_def filter_empty_conv)
  show "messages_inv E u' ms" using assms(2,4) by (rule messages_inv_mono)
  have "drawn E u' x" if "x \<in> uuid E ` {u..<u'}" for x
    using that by (auto intro: drawn_next)
  then have "drawn E u' (MessageId m)" if "m \<in> set copies" for m
    using ids that by blast
  then show "messages_inv E u' copies"
    using assms(3,5) h distinct_uuid_range [OF assms(1)] by (simp add: messages_inv_def)
  show "set (map MessageId ms) \<inter> set (map MessageId copies) = {}"
  proof -
    have "MessageId m \<notin> uuid E ` {u..<u'}" if "m \<in> set ms" for m
      using that assms(2) not_drawn_range [OF assms(1)] by (simp add: messages_inv_def)
    with ids show ?thesis by auto
  qed
  show "set (handles ms) \<inter> set (handles copies) = {}" using h by simp
qed

lemma RedriveMessages_inv:
  assumes "good_uuids E" and "store_inv E s"
  shows "store_inv E (snd (RedriveMessages E now src dst maxM s))"
proof (cases "\<exists>qFrom qTo. map_of (queues s) src = Some qFrom \<and> map_of (queues s) dst = Some qTo \<and> src \<noteq> dst")
  case False
  then have "snd (RedriveMessages E now src dst maxM s) = s"
    by (auto simp: RedriveMessages_def split: option.splits)
  with assms(2) show ?thesis by simp
next
  case True
  then obtain qFrom qTo where q: "map_of (queues s) src = Some qFrom" "map_of (queues s) dst = Some qTo" "src \<noteq> dst"
    by blast
  obtain ms copies moved u where scan:
    "redriveScan E now (config qTo) maxM (messages qFrom) 0 (uuids s) = (ms, copies, moved, u)"
    by (metis prod_cases4)
  note ids = redriveScan_ids [OF scan]
  have le: "uuids s \<le> u" using ids by simp
  have qf: "queue_inv E (uuids s) src (qFrom\<lparr>messages := ms\<rparr>)"
  proof (rule queue_inv_messages [OF store_inv_lookup [OF assms(2) q(1)]])
    have "\<forall>x \<in> set (map ApproximateReceiveCount (messages qFrom)). 0 \<le> x"
      using queue_messages_inv [OF assms(2) q(1)] by (simp add: messages_inv_def)
    then have "\<forall>x \<in> set (map ApproximateReceiveCount ms). 0 \<le> x" using ids by metis
    then have "\<forall>m \<in> set ms. 0 \<le> ApproximateReceiveCount m" by simp
    with ids show "messages_inv E (uuids s) ms"
      by (intro messages_inv_update [OF queue_messages_inv [OF assms(2) q(1)]]) blast+
  qed
  have to: "queue_inv E u dst (qTo\<lparr>messages := messages qTo @ copies\<rparr>)"
    using ids le
    by (intro queue_inv_messages [OF store_inv_lookup [OF assms(2) q(2)]]
        redrive_copies_inv [OF assms(1) queue_messages_inv [OF assms(2) q(2)]]) auto
  define f where "f = (if moved > 0 \<and> FifoQueue (config qFrom) then signal else id)"
  define g where "g = (if moved > 0 then signal else id)"
  have s1: "store_inv E (putQueue src (f (qFrom\<lparr>messages := ms\<rparr>)) s)"
    using qf by (intro store_inv_put [OF assms(2), of _ src "f (qFrom\<lparr>messages := ms\<rparr>)"])
      (auto simp: f_def intro: queue_inv_signal)
  have "queues (snd (RedriveMessages E now src dst maxM s)) =
      queues (putQueue dst (g (qTo\<lparr>messages := messages qTo @ copies\<rparr>)) (putQueue src (f (qFrom\<lparr>messages := ms\<rparr>)) s))"
    "uuids (snd (RedriveMessages E now src dst maxM s)) = u"
    using q scan by (simp_all add: RedriveMessages_def Let_def f_def g_def putQueue_def)
  with to le show ?thesis
    by (intro store_inv_put [OF s1]) (auto simp: g_def intro: queue_inv_signal)
qed

subsection \<open>Transfers and reaping\<close>

lemma messages_inv_delete: "messages_inv E u (us @ m # vs) \<Longrightarrow> messages_inv E u (us @ m\<lparr>Deleted := b\<rparr> # vs)"
  by (simp add: messages_inv_def handles_def)

lemma moveToDLQ_inv:
  assumes "good_uuids E" and "store_inv E s"
  shows "store_inv E (snd (moveToDLQ E clk3 source candidate reaping beforeSend s))"
proof -
  obtain t1 t2 t3 where clk3: "clk3 = (t1, t2, t3)" by (rule prod_cases3)
  obtain r s' where res: "moveToDLQ E clk3 source candidate reaping beforeSend s = (r, s')" by fastforce
  show ?thesis
  proof (cases "\<exists>msg target. r = Inr (Some (msg, target))")
    case False
    then have "s' = s" using moveToDLQ_unchanged [OF res] by auto
    with res assms(2) show ?thesis by simp
  next
    case True
    then obtain msg target where
      moved: "moveToDLQ E (t1, t2, t3) source candidate reaping beforeSend s = (Inr (Some (msg, target)), s')"
      using res clk3 by auto
    then show ?thesis
    proof (cases rule: moveToDLQ_moved)
      case (1 src current us vs to to' u)
      have to: "queue_inv E u target to' \<and> uuids s \<le> u"
        using enqueue_inv [OF assms(1) store_inv_lookup [OF assms(2) 1(4)] 1(10)] .
      have s1: "store_inv E ((putQueue target to' s)\<lparr>uuids := u\<rparr>)"
        using to by (intro store_inv_put [OF assms(2), of _ target to']) (simp_all add: putQueue_def)
      have "messages_inv E (uuids s) (us @ current\<lparr>Deleted := True\<rparr> # vs)"
        using queue_messages_inv [OF assms(2) 1(1)] by (simp only: 1(5) messages_inv_delete)
      then have "queue_inv E u source (src\<lparr>messages := us @ current\<lparr>Deleted := True\<rparr> # vs\<rparr>)"
        using to queue_inv_messages [OF store_inv_lookup [OF assms(2) 1(1)]] queue_inv_mono by blast
      then have "queue_inv E u source ((if FifoQueue (config src) then signal else id)
             (src\<lparr>messages := us @ current\<lparr>Deleted := True\<rparr> # vs\<rparr>))"
        by (simp add: queue_inv_signal)
      with 1(11) have "store_inv E s'"
        by (intro store_inv_put [OF s1, of s' source "(if FifoQueue (config src) then signal else id)
             (src\<lparr>messages := us @ current\<lparr>Deleted := True\<rparr> # vs\<rparr>)"]) (simp_all add: putQueue_def)
      with res show ?thesis by simp
    qed
  qed
qed

text \<open>The scan of the reaper drops dead messages and marks some as stale, in place.\<close>

definition reapMark :: "int \<Rightarrow> QueueConfig \<Rightarrow> SQSMessage \<Rightarrow> SQSMessage" where
  "reapMark now c m = (if \<not> hasDLQ c \<and> overThreshold now c m then m\<lparr>Stale := True\<rparr> else m)"

lemma reapMark_fields [simp]:
  "MessageId (reapMark now c m) = MessageId m" "ReceiptHandle (reapMark now c m) = ReceiptHandle m"
  "Body (reapMark now c m) = Body m" "Deleted (reapMark now c m) = Deleted m"
  "ApproximateReceiveCount (reapMark now c m) = ApproximateReceiveCount m"
  by (simp_all add: reapMark_def)

lemma reapScan_alive:
  "fst (reapScan now c ms) = map (reapMark now c) (filter (\<lambda>m. \<not> (Deleted m \<or> ExpiresAt m \<le> now)) ms)"
  by (induction ms) (auto simp: reapMark_def Let_def split: prod.splits)

lemma reapScan_moves:
  "fst (snd (reapScan now c ms)) =
     map (\<lambda>m. \<lparr>cand_id = MessageId m, cand_receipt = ReceiptHandle m\<rparr>)
       (filter (\<lambda>m. \<not> (Deleted m \<or> ExpiresAt m \<le> now) \<and> hasDLQ c \<and> overThreshold now c m) ms)"
  by (induction ms) (auto simp: Let_def split: prod.splits)

lemma reapQueue_fields:
  "config (fst (reapQueue now q)) = config q"
  "messages (fst (reapQueue now q)) =
     map (reapMark now (config q)) (filter (\<lambda>m. \<not> (Deleted m \<or> ExpiresAt m \<le> now)) (messages q))"
  using reapScan_alive [of now "config q" "messages q"]
  by (auto simp: reapQueue_def Let_def split: prod.splits)

lemma distinct_keys_filter: "distinct (map fst m) \<Longrightarrow> distinct (map fst (filter P m))"
  by (rule distinct_map_filter)

lemma reapQueue_inv:
  assumes "queue_inv E u n q"
  shows "queue_inv E u n (fst (reapQueue now q))"
proof -
  have "messages_inv E u (messages (fst (reapQueue now q)))"
    using assms unfolding reapQueue_fields
    by (intro messages_inv_map messages_inv_filter) (auto simp: queue_inv_def)
  with assms show ?thesis
    by (auto simp: queue_inv_def reapQueue_def signal_def Let_def distinct_keys_filter split: prod.splits)
qed

lemma reapQueues_map: "fst (reapQueues now qs) = map (\<lambda>(n, q). (n, fst (reapQueue now q))) qs"
  by (induction now qs rule: reapQueues.induct) (auto split: prod.splits)

lemma map_of_map_snd: "map_of (map (\<lambda>(n, q). (n, f q)) qs) n = map_option f (map_of qs n)"
  by (induction qs) auto

lemma reapMoves_inv:
  "good_uuids E \<Longrightarrow> store_inv E s \<Longrightarrow> store_inv E (reapMoves E clk i moves s)"
  by (induction E clk i moves s rule: reapMoves.induct) (auto intro: moveToDLQ_inv)

lemma Reap_inv:
  assumes "good_uuids E" and "store_inv E s"
  shows "store_inv E (Reap E now clk s)"
proof -
  obtain qs moves changed where r: "reapQueues now (queues s) = (qs, moves, changed)" by (rule prod_cases3)
  then have qs: "qs = map (\<lambda>(n, q). (n, fst (reapQueue now q))) (queues s)"
    using reapQueues_map [of now "queues s"] by simp
  have "map_of qs n = map_option (\<lambda>q. fst (reapQueue now q)) (map_of (queues s) n)" for n
    unfolding qs by (rule map_of_map_snd)
  moreover have "map fst qs = map fst (queues s)" unfolding qs by (induction "queues s") auto
  ultimately have "store_inv E (s\<lparr>queues := qs, dirty := dirty s \<or> changed\<rparr>)"
    using assms(2) reapQueue_inv
    by (auto simp: store_inv_def queueTable.every_def simp del: map_of_eq_Some_iff)
  with r show ?thesis by (simp add: Reap_def reapMoves_inv [OF assms(1)])
qed

lemma sqs_step_inv:
  assumes "good_uuids E" and "sqs_step E s t" and "store_inv E s"
  shows "store_inv E t"
  using assms(2,3)
  by (induction rule: sqs_step.induct)
    (simp_all add: CreateQueue_inv DeleteQueue_inv SetQueueAttributes_inv SendMessage_inv
      receive_store_inv DeleteMessage_inv DeleteMessageByID_inv IncrementProcessedCount_inv
      ChangeMessageVisibility_inv ReleaseMessage_inv PurgeQueue_inv RedriveMessages_inv
      TagQueue_inv UntagQueue_inv moveToDLQ_inv Reap_inv assms(1))

text \<open>The store is a transition system; under the hypothesis on UUIDs its invariant is kept.\<close>

interpretation sqsSystem: transition_system "\<lambda>s t. good_uuids E \<and> sqs_step E s t" "store_inv E"
  for E
  by unfold_locales (auto intro: sqs_step_inv)

lemma NewStore_inv: "store_inv E NewStore"
  by (simp add: store_inv_def NewStore_def queueTable.every_def)

end
