(* ===== verification/SQS_Disruptor.thy ===== *)
theory SQS_Disruptor
  imports SQS_Types Tarn_Interfaces "HOL-Library.Multiset"
begin

text \<open>
  Send-failure injection (\<open>internal/sqs/disruptor.go\<close>): the rule table, the normalisation of a
  rule and the decision whether a send fails. The random number \<open>rand.IntN(100)\<close> is an argument
  (\<open>roll\<close>, in 0..99). The mutex is not modelled: each operation is one step.
\<close>

record Rule =
  rule_QueueName :: string
  rule_Enabled :: bool
  rule_FailureRate :: int
  rule_Code :: string
  rule_Message :: string

record Disruptor =
  rules :: "Rule go_map"

definition disruptStatus :: "string \<Rightarrow> int" where
  "disruptStatus code =
     (if code = ''ServiceUnavailable'' then 503
      else if code = ''InternalError'' then 500
      else if code = ''Throttling'' then 400
      else if code = ''OverLimit'' then 400
      else 500)"

definition normalized :: "Rule \<Rightarrow> Rule" where
  "normalized r =
     (let rate = (if rule_FailureRate r < 0 then 0 else rule_FailureRate r);
          rate' = (if rate > 100 then 100 else rate);
          code = (if rule_Code r \<in> {''InternalError'', ''ServiceUnavailable'', ''OverLimit'', ''Throttling''}
                  then rule_Code r else ''ServiceUnavailable'');
          msg = (if rule_Message r = '''' then
                   ''Disruptor: injected '' @ code @ '' failure for queue '' @ goQuote (rule_QueueName r)
                 else rule_Message r)
      in r\<lparr>rule_FailureRate := rate', rule_Code := code, rule_Message := msg\<rparr>)"

definition newDisruptor :: Disruptor where
  "newDisruptor = \<lparr>rules = []\<rparr>"

definition SetRule :: "Rule \<Rightarrow> Disruptor \<Rightarrow> Rule \<times> Disruptor" where
  "SetRule r d = (let r' = normalized r in (r', d\<lparr>rules := AList.update (rule_QueueName r') r' (rules d)\<rparr>))"

definition ClearRule :: "string \<Rightarrow> Disruptor \<Rightarrow> bool \<times> Disruptor" where
  "ClearRule queueName d = (case map_of (rules d) queueName of
      None \<Rightarrow> (False, d)
    | Some _ \<Rightarrow> (True, d\<lparr>rules := AList.delete queueName (rules d)\<rparr>))"

definition ClearAllRules :: "Disruptor \<Rightarrow> Disruptor" where
  "ClearAllRules d = d\<lparr>rules := []\<rparr>"

definition GetRule :: "string \<Rightarrow> Disruptor \<Rightarrow> Rule option" where
  "GetRule queueName d = map_of (rules d) queueName"

text \<open>\<open>List\<close> sorts by insertion. \<open>sinkRule\<close> is the inner loop: the new element, last in the
  sorted prefix given in reverse, moves down past larger names; \<open>sortRules\<close> is the outer loop.\<close>

fun sinkRule :: "Rule \<Rightarrow> Rule list \<Rightarrow> Rule list" where
  "sinkRule r [] = [r]"
| "sinkRule r (p # ps) =
     (if rule_QueueName r < rule_QueueName p then p # sinkRule r ps else r # p # ps)"

fun sortRules :: "Rule list \<Rightarrow> Rule list \<Rightarrow> Rule list" where
  "sortRules done [] = rev done"
| "sortRules done (r # rs) = sortRules (sinkRule r done) rs"

definition ListRules :: "Disruptor \<Rightarrow> Rule list" where
  "ListRules d = sortRules [] (map snd (rules d))"

definition activeRule :: "string \<Rightarrow> Disruptor \<Rightarrow> Rule option" where
  "activeRule queueName d = (case map_of (rules d) queueName of
      None \<Rightarrow> None
    | Some r \<Rightarrow> if \<not> rule_Enabled r \<or> rule_FailureRate r \<le> 0 then None else Some r)"

definition shouldFail :: "int \<Rightarrow> string \<Rightarrow> Disruptor \<Rightarrow> sqs_error option" where
  "shouldFail roll queueName d = (case activeRule queueName d of
      None \<Rightarrow> None
    | Some rule \<Rightarrow>
        if rule_FailureRate rule < 100 \<and> roll \<ge> rule_FailureRate rule then None
        else Some (DisruptError queueName (rule_Code rule) (rule_Message rule)
               (disruptStatus (rule_Code rule))))"

section \<open>The rule table is a keyed store\<close>

interpretation ruleTable: keyed_store
  "\<lambda>d name. map_of (rules d) name"
  "\<lambda>name r d. d\<lparr>rules := AList.update name r (rules d)\<rparr>"
  "\<lambda>name d. d\<lparr>rules := AList.delete name (rules d)\<rparr>"
  by unfold_locales simp_all

definition ruleNormal :: "string \<Rightarrow> Rule \<Rightarrow> bool" where
  "ruleNormal name r \<longleftrightarrow> rule_QueueName r = name \<and> 0 \<le> rule_FailureRate r \<and> rule_FailureRate r \<le> 100 \<and>
     rule_Code r \<in> {''InternalError'', ''ServiceUnavailable'', ''OverLimit'', ''Throttling''} \<and>
     rule_Message r \<noteq> ''''"

text \<open>The operations that change the table, and the invariant they keep.\<close>

inductive disruptor_step :: "Disruptor \<Rightarrow> Disruptor \<Rightarrow> bool" where
  set_rule: "disruptor_step d (snd (SetRule r d))"
| clear_rule: "disruptor_step d (snd (ClearRule name d))"
| clear_all: "disruptor_step d (ClearAllRules d)"

definition disruptor_inv :: "Disruptor \<Rightarrow> bool" where
  "disruptor_inv d \<longleftrightarrow> distinct (map fst (rules d)) \<and> ruleTable.every ruleNormal d"

lemma normalized_ruleNormal: "ruleNormal (rule_QueueName r) (normalized r)"
  by (auto simp: ruleNormal_def normalized_def Let_def)

lemma normalized_name [simp]: "rule_QueueName (normalized r) = rule_QueueName r"
  by (simp add: normalized_def Let_def)

lemma disruptor_step_inv: "disruptor_step d d' \<Longrightarrow> disruptor_inv d \<Longrightarrow> disruptor_inv d'"
proof (induction rule: disruptor_step.induct)
  case (set_rule d r)
  then show ?case
    by (auto simp: disruptor_inv_def SetRule_def Let_def intro: normalized_ruleNormal intro!: ruleTable.every_put)
next
  case (clear_rule d name)
  then show ?case
    by (auto simp: disruptor_inv_def ClearRule_def split: option.splits intro: ruleTable.every_remove)
next
  case (clear_all d)
  then show ?case by (simp add: disruptor_inv_def ClearAllRules_def ruleTable.every_def)
qed

interpretation disruptorSystem: transition_system disruptor_step disruptor_inv
  by unfold_locales (rule disruptor_step_inv)

lemma newDisruptor_inv: "disruptor_inv newDisruptor"
  by (simp add: disruptor_inv_def newDisruptor_def ruleTable.every_def)

section \<open>Listing\<close>

lemma mset_sinkRule [simp]: "mset (sinkRule r ps) = add_mset r (mset ps)"
  by (induction ps) auto

lemma set_sinkRule [simp]: "set (sinkRule r ps) = insert r (set ps)"
  by (induction ps) auto

lemma sorted_sinkRule:
  "sorted (rev (map rule_QueueName ps)) \<Longrightarrow> sorted (rev (map rule_QueueName (sinkRule r ps)))"
  by (induction ps) (auto simp: sorted_append)

lemma mset_sortRules: "mset (sortRules done rs) = mset done + mset rs"
  by (induction rs arbitrary: "done") auto

lemma sorted_sortRules:
  "sorted (rev (map rule_QueueName done)) \<Longrightarrow> sorted (map rule_QueueName (sortRules done rs))"
  by (induction rs arbitrary: "done") (auto simp: rev_map sorted_sinkRule simp flip: rev_map)

end
