(* ===== verification/SQS_Service.thy ===== *)
theory SQS_Service
  imports SQS_Invariant SQS_Disruptor
begin

text \<open>
  The service layer of SQS (\<open>internal/sqs/service.go\<close>): sends pass the disruptor first, a poller
  moves exhausted messages to the dead-letter queue, and a receive may long poll. The methods that
  only forward to the store are the store's operations. Tracing has no effect on the state and is
  left out.

  A long poll runs concurrently with other operations. Each turn of its loop observes the
  environment through a \<open>pollTurn\<close>: whether it was cancelled at the top, the clock (milliseconds for
  the receive, nanoseconds for the deadline), what ended the sleep, and what the other goroutines
  did to the store meanwhile. \<open>pollLoop\<close> consumes one \<open>pollTurn\<close> per turn; \<open>None\<close> says that it is
  still waiting when the observations end.
\<close>

record Service =
  store :: Store
  disruptor :: Disruptor

definition ServiceSendMessage ::
    "sqs_env \<Rightarrow> int \<Rightarrow> int \<Rightarrow> string \<Rightarrow> string \<Rightarrow> int \<Rightarrow> msg_attrs \<Rightarrow> string \<Rightarrow> string \<Rightarrow> Service
       \<Rightarrow> (sqs_error + SQSMessage) \<times> Service" where
  "ServiceSendMessage E now roll queueName body delaySec attrs groupId dedupId svc =
     (case shouldFail roll queueName (disruptor svc) of
        Some derr \<Rightarrow> (Inl derr, svc)
      | None \<Rightarrow> (case SendMessage E now queueName body delaySec attrs groupId dedupId (store svc) of
            (r, st) \<Rightarrow> (r, svc\<lparr>store := st\<rparr>)))"

definition GetQueueUrl :: "string \<Rightarrow> Store \<Rightarrow> sqs_error + string" where
  "GetQueueUrl name s = (case GetQueue name s of Inl e \<Rightarrow> Inl e | Inr c \<Rightarrow> Inr (QueueUrl c))"

definition MoveToDLQIfExceeded ::
    "sqs_env \<Rightarrow> int \<times> int \<times> int \<Rightarrow> int \<Rightarrow> string \<Rightarrow> SQSMessage option \<Rightarrow> Service
       \<Rightarrow> (sqs_error + bool \<times> string) \<times> Service" where
  "MoveToDLQIfExceeded E clk3 roll srcQueue msg svc = (case msg of
      None \<Rightarrow> (Inl MessageRequired, svc)
    | Some m \<Rightarrow>
        (case moveToDLQ E clk3 srcQueue \<lparr>cand_id = MessageId m, cand_receipt = ReceiptHandle m\<rparr> False
                (Some (\<lambda>name. shouldFail roll name (disruptor svc))) (store svc) of
           (Inl e, st) \<Rightarrow> (Inl e, svc\<lparr>store := st\<rparr>)
         | (Inr None, st) \<Rightarrow> (Inr (False, ''''), svc\<lparr>store := st\<rparr>)
         | (Inr (Some (moved, dlqName)), st) \<Rightarrow> (Inr (True, dlqName), svc\<lparr>store := st\<rparr>)))"

section \<open>Long polling\<close>

datatype wakeup = Woken | TimerFired | PollCancelled | ServiceDone

record pollTurn =
  cancelled :: bool
  clockMs :: int
  clockNs :: int
  clockNs2 :: int
  event :: wakeup
  others :: "Store \<Rightarrow> Store"

text \<open>How long a turn sleeps: until the deadline, or until the next instant the receive reported,
  but at least a millisecond. \<open>t1\<close> and \<open>t2\<close> are the two clock readings, in nanoseconds.\<close>

definition pollWait :: "int \<Rightarrow> int \<Rightarrow> int \<Rightarrow> int \<Rightarrow> int" where
  "pollWait deadline t1 t2 nextAt =
     (let wait = deadline - t1 in
      if nextAt > 0 \<and> nextAt * 1000000 - t2 < wait then max (nextAt * 1000000 - t2) 1000000 else wait)"

fun pollLoop :: "sqs_env \<Rightarrow> string \<Rightarrow> int \<Rightarrow> int \<Rightarrow> int \<Rightarrow> pollTurn list \<Rightarrow> Store \<Rightarrow> SQSMessage list sqs_result option" where
  "pollLoop E queueName maxCount visTimeout deadline [] s = None"
| "pollLoop E queueName maxCount visTimeout deadline (t # ts) s =
     (if cancelled t then Some (Inr [], s)
      else (case receive E (clockMs t) queueName maxCount visTimeout s of
          (Inl e, s1) \<Rightarrow> Some (Inl e, s1)
        | (Inr (msgs, _, nextAt), s1) \<Rightarrow>
            if msgs \<noteq> [] then Some (Inr msgs, s1)
            else if deadline - clockNs t \<le> 0 then Some (Inr [], s1)
            else (case event t of
                Woken \<Rightarrow> pollLoop E queueName maxCount visTimeout deadline ts (others t s1)
              | TimerFired \<Rightarrow> pollLoop E queueName maxCount visTimeout deadline ts (others t s1)
              | PollCancelled \<Rightarrow> Some (Inr [], others t s1)
              | ServiceDone \<Rightarrow> Some (Inl ShuttingDown, others t s1))))"

text \<open>\<open>ReceiveMessageUntil\<close>: \<open>startNs\<close> is the clock when the deadline is set; the duration
  \<open>waitTimeSec\<close> seconds is an int64 number of nanoseconds.\<close>

definition ReceiveMessageUntil ::
    "sqs_env \<Rightarrow> bool \<Rightarrow> int \<Rightarrow> int \<Rightarrow> string \<Rightarrow> int \<Rightarrow> int \<Rightarrow> int \<Rightarrow> pollTurn list \<Rightarrow> Store
       \<Rightarrow> SQSMessage list sqs_result option" where
  "ReceiveMessageUntil E cancelled0 now startNs queueName maxCount visTimeout waitTimeSec turns s =
     (if cancelled0 then Some (Inr [], s)
      else
        let vis = (if visTimeout < 0 then (case GetQueue queueName s of Inl e \<Rightarrow> Inl e | Inr c \<Rightarrow> Inr (VisibilityTimeout c))
                   else Inr visTimeout) in
        (case vis of
           Inl e \<Rightarrow> Some (Inl e, s)
         | Inr v \<Rightarrow>
             if waitTimeSec \<le> 0 then Some (ReceiveMessage E now queueName maxCount v s)
             else pollLoop E queueName maxCount v (startNs + wrap64 (waitTimeSec * 1000000000)) turns s))"

section \<open>Lemmas\<close>

text \<open>The loop ends at the latest in the first turn that reads the clock past the deadline.\<close>

lemma pollLoop_returns:
  assumes "t \<in> set turns" and "deadline \<le> clockNs t"
  shows "pollLoop E name maxCount vis deadline turns s \<noteq> None"
  using assms(1)
proof (induction turns arbitrary: s)
  case Nil
  then show ?case by simp
next
  case (Cons a turns)
  then show ?case
    using assms(2) by (auto split: prod.splits sum.splits wakeup.splits if_splits)
qed

lemma ShouldFail_none: "activeRule name d = None \<Longrightarrow> shouldFail roll name d = None"
  by (simp add: shouldFail_def)

end
