(* ===== verification/SQS_Snapshot.thy ===== *)
theory SQS_Snapshot
  imports SQS_Store
begin

text \<open>
  Persistence of the SQS store: the snapshot \<open>writeSnapshot\<close> builds and the store \<open>Init\<close> rebuilds
  from it. The JSON encoding and the file in between are not modelled; the snapshot is the value
  that is encoded. Queue URLs and ARNs are recomputed on load from the configuration at that time.
\<close>

record messageSnapshot =
  ms_MessageId :: string
  ms_Body :: string
  ms_MD5OfBody :: string
  ms_ReceiptHandle :: string
  ms_MessageAttributes :: msg_attrs
  ms_SentTimestamp :: int
  ms_ApproximateReceiveCount :: int
  ms_ApproximateFirstReceiveTimestamp :: int
  ms_VisibleAt :: int
  ms_MessageGroupId :: string
  ms_MessageDeduplicationId :: string
  ms_DelayUntil :: int
  ms_ExpiresAt :: int
  ms_Deleted :: bool
  ms_Stale :: bool

record queueSnapshot =
  snap_Config :: "QueueConfig option"
  snap_Messages :: "messageSnapshot list"
  snap_Dedup :: "int go_map"

definition toMessageSnapshot :: "SQSMessage \<Rightarrow> messageSnapshot" where
  "toMessageSnapshot src =
     (let cloned = cloneMessage src in
      \<lparr>ms_MessageId = MessageId cloned,
       ms_Body = Body cloned,
       ms_MD5OfBody = MD5OfBody cloned,
       ms_ReceiptHandle = ReceiptHandle cloned,
       ms_MessageAttributes = MessageAttributes cloned,
       ms_SentTimestamp = SentTimestamp cloned,
       ms_ApproximateReceiveCount = ApproximateReceiveCount cloned,
       ms_ApproximateFirstReceiveTimestamp = ApproximateFirstReceiveTimestamp cloned,
       ms_VisibleAt = VisibleAt cloned,
       ms_MessageGroupId = MessageGroupId cloned,
       ms_MessageDeduplicationId = MessageDeduplicationId cloned,
       ms_DelayUntil = DelayUntil cloned,
       ms_ExpiresAt = ExpiresAt cloned,
       ms_Deleted = Deleted cloned,
       ms_Stale = Stale cloned\<rparr>)"

definition fromMessageSnapshot :: "messageSnapshot \<Rightarrow> SQSMessage" where
  "fromMessageSnapshot src =
     \<lparr>MessageId = ms_MessageId src,
      Body = ms_Body src,
      MD5OfBody = ms_MD5OfBody src,
      ReceiptHandle = ms_ReceiptHandle src,
      MessageAttributes = ms_MessageAttributes src,
      SentTimestamp = ms_SentTimestamp src,
      ApproximateReceiveCount = ms_ApproximateReceiveCount src,
      ApproximateFirstReceiveTimestamp = ms_ApproximateFirstReceiveTimestamp src,
      VisibleAt = ms_VisibleAt src,
      MessageGroupId = ms_MessageGroupId src,
      MessageDeduplicationId = ms_MessageDeduplicationId src,
      DelayUntil = ms_DelayUntil src,
      ExpiresAt = ms_ExpiresAt src,
      Deleted = ms_Deleted src,
      Stale = ms_Stale src\<rparr>"

definition snapshotQueue :: "int \<Rightarrow> queue \<Rightarrow> queueSnapshot" where
  "snapshotQueue now q =
     \<lparr>snap_Config = Some (cloneQueueConfig (config q)),
      snap_Messages = map toMessageSnapshot
        (filter (\<lambda>msg. \<not> (Deleted msg \<and> ExpiresAt msg \<le> now)) (messages q)),
      snap_Dedup = dedup q\<rparr>"

text \<open>\<open>writeSnapshot\<close>: the queues in the order of their sorted names.\<close>

definition writeSnapshot :: "int \<Rightarrow> Store \<Rightarrow> queueSnapshot list" where
  "writeSnapshot now s =
     map (\<lambda>name. snapshotQueue now (the (map_of (queues s) name))) (sort (map fst (queues s)))"

definition loadQueue :: "sqs_env \<Rightarrow> queueSnapshot \<Rightarrow> queue go_map \<Rightarrow> queue go_map" where
  "loadQueue E item qs = (case snap_Config item of
      None \<Rightarrow> qs
    | Some cfg \<Rightarrow>
        let cfgCopy = (cloneQueueConfig cfg)\<lparr>QueueUrl := queueUrlOf E (QueueName cfg),
                                              QueueArn := queueArnOf E (QueueName cfg)\<rparr> in
        AList.update (QueueName cfgCopy)
          \<lparr>config = cfgCopy, messages = map fromMessageSnapshot (snap_Messages item),
           dedup = fold (\<lambda>(key, value) m. AList.update key value m) (snap_Dedup item) [],
           wake = None, chans = 0\<rparr> qs)"

definition loadSnapshot :: "sqs_env \<Rightarrow> queueSnapshot list \<Rightarrow> Store \<Rightarrow> Store" where
  "loadSnapshot E items s = s\<lparr>queues := fold (loadQueue E) items []\<rparr>"

section \<open>Lemmas\<close>

lemma from_toMessageSnapshot [simp]: "fromMessageSnapshot (toMessageSnapshot m) = m"
  by (simp add: fromMessageSnapshot_def toMessageSnapshot_def Let_def)

lemma map_of_fold_update:
  "map_of (fold (\<lambda>(k, v) m. AList.update k v m) xs acc) k =
     (case map_of (rev xs) k of None \<Rightarrow> map_of acc k | Some v \<Rightarrow> Some v)"
  by (induction xs arbitrary: acc) (auto simp: map_add_def split: option.splits if_splits)

lemma map_of_rev_distinct: "distinct (map fst xs) \<Longrightarrow> map_of (rev xs) = map_of xs"
  by (intro map_of_inject_set [THEN iffD2]) (auto simp flip: rev_map)

lemma map_of_copy: "distinct (map fst xs) \<Longrightarrow>
    map_of (fold (\<lambda>(k, v) m. AList.update k v m) xs []) = map_of xs"
  by (rule ext) (simp add: map_of_fold_update map_of_rev_distinct split: option.splits)

text \<open>Loading: the last item with a queue's name determines the queue.\<close>

lemma map_of_loadQueues:
  assumes "\<And>n. n \<in> set ns \<Longrightarrow> \<exists>c. snap_Config (item n) = Some c \<and> QueueName c = n"
  shows "map_of (fold (loadQueue E) (map item ns) acc) name =
    (if name \<in> set ns then map_of (loadQueue E (item name) []) name else map_of acc name)"
  using assms
proof (induction ns arbitrary: acc)
  case Nil
  then show ?case by simp
next
  case (Cons n ns)
  then have IH: "map_of (fold (loadQueue E) (map item ns) (loadQueue E (item n) acc)) name =
      (if name \<in> set ns then map_of (loadQueue E (item name) []) name
       else map_of (loadQueue E (item n) acc) name)"
    by auto
  obtain c where "snap_Config (item n) = Some c" "QueueName c = n"
    using Cons.prems by force
  then have "map_of (loadQueue E (item n) acc) name =
      (if name = n then map_of (loadQueue E (item n) []) n else map_of acc name)"
    by (simp add: loadQueue_def Let_def)
  with IH show ?case by (cases "name = n") auto
qed

end
