(* ===== verification/SQS_Theorems.thy ===== *)
theory SQS_Theorems
  imports SQS_Service SQS_Snapshot
begin

text \<open>
  The properties of the SQS store that clients rely on: what a receive returns, in which order and
  for how long a message stays hidden, when a long poll may sleep, deduplication, and the receipt
  handle. Each property is followed by a witness that applies it to a concrete store.
\<close>

section \<open>A concrete environment for the witnesses\<close>

definition demoEnv :: sqs_env where
  "demoEnv = \<lparr>uuid = (\<lambda>n. replicate (Suc n) CHR ''u''), md5Hash = rev,
     decodeRedrivePolicy = (\<lambda>v. Some (''arn:aws:sqs:eu:1:dlq'', 2)),
     Endpoint = ''http://h'', Region = ''eu'', AccountID = ''1''\<rparr>"

definition demoMsg :: "nat \<Rightarrow> string \<Rightarrow> string \<Rightarrow> SQSMessage" where
  "demoMsg n body g =
     \<lparr>MessageId = uuid demoEnv n, Body = body, MD5OfBody = rev body, ReceiptHandle = '''',
      MessageAttributes = None, SentTimestamp = 0, ApproximateReceiveCount = 0,
      ApproximateFirstReceiveTimestamp = 0, VisibleAt = 0, MessageGroupId = g,
      MessageDeduplicationId = '''', DelayUntil = 0, ExpiresAt = 1000000, Deleted = False, Stale = False\<rparr>"

definition demoQueue :: "string \<Rightarrow> bool \<Rightarrow> SQSMessage list \<Rightarrow> queue" where
  "demoQueue name fifo ms =
     \<lparr>config = newQueueConfig demoEnv 0 name fifo None, messages = ms, dedup = [], wake = None, chans = 0\<rparr>"

definition demoStore :: Store where
  "demoStore = \<lparr>queues = [(''q'', demoQueue ''q'' False [demoMsg 0 ''a'' '''', demoMsg 1 ''b'' '''']),
                          (''f.fifo'', demoQueue ''f.fifo'' True [demoMsg 2 ''c'' ''g'', demoMsg 3 ''d'' ''g''])],
                dirty = False, uuids = 4\<rparr>"

lemma demoEnv_uuids: "good_uuids demoEnv"
  by (auto simp: good_uuids_def demoEnv_def inj_def dest: arg_cong [where f = length])

lemma demoStore_queues:
  "map_of (queues demoStore) ''q'' = Some (demoQueue ''q'' False [demoMsg 0 ''a'' '''', demoMsg 1 ''b'' ''''])"
  "map_of (queues demoStore) ''f.fifo'' =
     Some (demoQueue ''f.fifo'' True [demoMsg 2 ''c'' ''g'', demoMsg 3 ''d'' ''g''])"
  by (simp_all add: demoStore_def)

lemma demoMsg_fields [simp]:
  "MessageId (demoMsg n b g) = uuid demoEnv n" "Body (demoMsg n b g) = b" "MessageGroupId (demoMsg n b g) = g"
  "ReceiptHandle (demoMsg n b g) = ''''" "Deleted (demoMsg n b g) = False" "Stale (demoMsg n b g) = False"
  "VisibleAt (demoMsg n b g) = 0" "DelayUntil (demoMsg n b g) = 0" "ExpiresAt (demoMsg n b g) = 1000000"
  "ApproximateReceiveCount (demoMsg n b g) = 0" "MessageAttributes (demoMsg n b g) = None"
  "MessageDeduplicationId (demoMsg n b g) = ''''"
  by (simp_all add: demoMsg_def)

lemma demoQueue_fields [simp]:
  "FifoQueue (config (demoQueue n f ms)) = f" "messages (demoQueue n f ms) = ms" "dedup (demoQueue n f ms) = []"
  "wake (demoQueue n f ms) = None" "chans (demoQueue n f ms) = 0"
  "VisibilityTimeout (config (demoQueue n f ms)) = 30" "DelaySeconds (config (demoQueue n f ms)) = 0"
  "MessageRetentionPeriod (config (demoQueue n f ms)) = 345600"
  by (simp_all add: demoQueue_def newQueueConfig_def)

lemma demoEnv_uuid_inject [simp]: "uuid demoEnv i = uuid demoEnv j \<longleftrightarrow> i = j" "uuid demoEnv i \<noteq> ''''"
  using demoEnv_uuids by (auto simp: good_uuids_def dest: injD)

lemma drawn_demo [simp]: "drawn demoEnv u (uuid demoEnv n) \<longleftrightarrow> n < u"
  by (auto simp: drawn_def)

lemma demoStore_inv: "store_inv demoEnv demoStore"
proof -
  have "queue_inv demoEnv 4 ''q'' (demoQueue ''q'' False [demoMsg 0 ''a'' '''', demoMsg 1 ''b'' ''''])"
    "queue_inv demoEnv 4 ''f.fifo'' (demoQueue ''f.fifo'' True [demoMsg 2 ''c'' ''g'', demoMsg 3 ''d'' ''g''])"
    by (simp_all add: queue_inv_def demoQueue_def newQueueConfig_def messages_inv_def)
  then show ?thesis
    by (simp add: store_inv_def queueTable.every_def) (simp add: demoStore_def)
qed

section \<open>Receiving\<close>

lemma receive_result:
  assumes q: "map_of (queues s) name = Some q"
    and vis: "vis = (if visTimeout < 0 then VisibilityTimeout (config q) else visTimeout)"
    and idx: "idx = take (nat (clampMaxCount maxCount)) (receivable (FifoQueue (config q)) now [] (messages q))"
    and msgs: "msgs = map (\<lambda>k. deliver E now vis (uuids s + k) (messages q ! (idx ! k))) [0..<length idx]"
  obtains ms nextAt where
    "receiveScan E (FifoQueue (config q)) now (clampMaxCount maxCount) vis [] (messages q) [] 0 (uuids s) =
       (ms, msgs, nextAt, uuids s + length idx)"
    "receive E now name maxCount visTimeout s =
       (if idx = [] then (Inr ([], Some (fst (waitChan q)), nextAt), putQueue name (snd (waitChan q)) s)
        else (Inr (msgs, None, nextAt),
              (putQueue name (q\<lparr>messages := ms\<rparr>) s)\<lparr>uuids := uuids s + length idx, dirty := True\<rparr>))"
    "length ms = length (messages q)"
    "\<forall>k < length idx. ms ! (idx ! k) = msgs ! k"
    "\<forall>i < length ms. i \<notin> set idx \<longrightarrow> ms ! i = messages q ! i"
proof -
  obtain ms r nextAt u where scan:
    "receiveScan E (FifoQueue (config q)) now (clampMaxCount maxCount) vis [] (messages q) [] 0 (uuids s) =
       (ms, r, nextAt, u)"
    by (metis prod_cases4)
  have i: "idx = served (FifoQueue (config q)) now (clampMaxCount maxCount) [] (messages q) (length ([] :: SQSMessage list))"
    by (simp add: idx served_def)
  note spec = receiveScan_spec [OF scan i]
  have r: "r = msgs" and u: "u = uuids s + length idx" and len: "length ms = length (messages q)"
    using spec(1-3) by (simp_all add: msgs)
  have same: "ms = messages q" if "idx = []"
    using spec(2,5) that by (intro nth_equalityI) simp_all
  have "r = [] \<longleftrightarrow> idx = []" by (simp add: r msgs)
  then have "receive E now name maxCount visTimeout s =
      (if idx = [] then (Inr ([], Some (fst (waitChan q)), nextAt), putQueue name (snd (waitChan q)) s)
        else (Inr (msgs, None, nextAt),
              (putQueue name (q\<lparr>messages := ms\<rparr>) s)\<lparr>uuids := uuids s + length idx, dirty := True\<rparr>))"
    using scan q vis r u same
    by (cases "idx = []") (auto simp: receive_def Let_def putQueue_def split: prod.splits)
  from that [OF scan [unfolded r u] this len] spec(4,5) len show thesis by (simp add: msgs)
qed

lemma receive_Inr:
  assumes "receive E now name maxCount visTimeout s = (Inr (msgs, c, nextAt), s')"
  obtains q vis idx ms where
    "map_of (queues s) name = Some q"
    "vis = (if visTimeout < 0 then VisibilityTimeout (config q) else visTimeout)"
    "idx = take (nat (clampMaxCount maxCount)) (receivable (FifoQueue (config q)) now [] (messages q))"
    "msgs = map (\<lambda>k. deliver E now vis (uuids s + k) (messages q ! (idx ! k))) [0..<length idx]"
    "receiveScan E (FifoQueue (config q)) now (clampMaxCount maxCount) vis [] (messages q) [] 0 (uuids s) =
       (ms, msgs, nextAt, uuids s + length idx)"
    "length ms = length (messages q)" "\<forall>k < length idx. ms ! (idx ! k) = msgs ! k"
    "\<forall>i < length ms. i \<notin> set idx \<longrightarrow> ms ! i = messages q ! i"
    "msgs = [] \<longrightarrow> c = Some (fst (waitChan q)) \<and> s' = putQueue name (snd (waitChan q)) s"
    "msgs \<noteq> [] \<longrightarrow> c = None \<and>
       s' = (putQueue name (q\<lparr>messages := ms\<rparr>) s)\<lparr>uuids := uuids s + length idx, dirty := True\<rparr>"
proof -
  obtain q where q: "map_of (queues s) name = Some q"
    using assms by (auto simp: receive_def split: option.splits)
  define vis where "vis = (if visTimeout < 0 then VisibilityTimeout (config q) else visTimeout)"
  define idx where "idx = take (nat (clampMaxCount maxCount)) (receivable (FifoQueue (config q)) now [] (messages q))"
  define out where "out = map (\<lambda>k. deliver E now vis (uuids s + k) (messages q ! (idx ! k))) [0..<length idx]"
  obtain ms n where res:
    "receiveScan E (FifoQueue (config q)) now (clampMaxCount maxCount) vis [] (messages q) [] 0 (uuids s) =
       (ms, out, n, uuids s + length idx)"
    "receive E now name maxCount visTimeout s =
       (if idx = [] then (Inr ([], Some (fst (waitChan q)), n), putQueue name (snd (waitChan q)) s)
        else (Inr (out, None, n),
              (putQueue name (q\<lparr>messages := ms\<rparr>) s)\<lparr>uuids := uuids s + length idx, dirty := True\<rparr>))"
    "length ms = length (messages q)" "\<forall>k < length idx. ms ! (idx ! k) = out ! k"
    "\<forall>i < length ms. i \<notin> set idx \<longrightarrow> ms ! i = messages q ! i"
    by (rule receive_result [OF q vis_def idx_def out_def])
  have o: "out = msgs" "n = nextAt"
    "msgs = [] \<longrightarrow> c = Some (fst (waitChan q)) \<and> s' = putQueue name (snd (waitChan q)) s"
    "msgs \<noteq> [] \<longrightarrow> c = None \<and>
       s' = (putQueue name (q\<lparr>messages := ms\<rparr>) s)\<lparr>uuids := uuids s + length idx, dirty := True\<rparr>"
    using assms res(2) by (auto simp: out_def split: if_splits)
  show thesis
    by (rule that [OF q vis_def idx_def out_def [unfolded o(1)] res(1) [unfolded o(1,2)] res(3)
          res(4) [unfolded o(1)] res(5) o(3,4)])
qed

text \<open>C5: A receive returns exactly the first \<open>clampMaxCount maxCount\<close> (1 to 10) receivable messages
  of the queue, in queue order, each with a fresh receipt handle, its receive count incremented and
  hidden for the visibility timeout; these messages are updated in place, no other message changes
  and no other queue is touched. So the scan of \<open>receive\<close> with its blocked-group set implements the
  declarative \<open>receivable\<close>.\<close>

theorem receive_serves_first_receivable:
  assumes "map_of (queues s) name = Some q"
    and "vis = (if visTimeout < 0 then VisibilityTimeout (config q) else visTimeout)"
    and "idx = take (nat (clampMaxCount maxCount)) (receivable (FifoQueue (config q)) now [] (messages q))"
    and "msgs = map (\<lambda>k. deliver E now vis (uuids s + k) (messages q ! (idx ! k))) [0..<length idx]"
    and "receive E now name maxCount visTimeout s = (r, s')"
  shows "\<exists>q' c nextAt. r = Inr (msgs, c, nextAt) \<and> (c = None \<longleftrightarrow> msgs \<noteq> []) \<and>
     map_of (queues s') = (map_of (queues s))(name \<mapsto> q') \<and> config q' = config q \<and>
     length (messages q') = length (messages q) \<and>
     (\<forall>k < length idx. messages q' ! (idx ! k) = msgs ! k) \<and>
     (\<forall>i < length (messages q). i \<notin> set idx \<longrightarrow> messages q' ! i = messages q ! i)"
proof -
  obtain ms nextAt where
    rec: "receive E now name maxCount visTimeout s =
       (if idx = [] then (Inr ([], Some (fst (waitChan q)), nextAt), putQueue name (snd (waitChan q)) s)
        else (Inr (msgs, None, nextAt),
              (putQueue name (q\<lparr>messages := ms\<rparr>) s)\<lparr>uuids := uuids s + length idx, dirty := True\<rparr>))"
    and ms: "length ms = length (messages q)" "\<forall>k < length idx. ms ! (idx ! k) = msgs ! k"
      "\<forall>i < length ms. i \<notin> set idx \<longrightarrow> ms ! i = messages q ! i"
    using receive_result [OF assms(1-4)] by metis
  show ?thesis
  proof (cases "idx = []")
    case True
    with rec assms(4,5) show ?thesis
      by (intro exI [of _ "snd (waitChan q)"] exI [of _ "Some (fst (waitChan q))"] exI [of _ nextAt])
        (auto simp: putQueue_def update_conv')
  next
    case False
    with rec assms(4,5) ms show ?thesis
      by (intro exI [of _ "q\<lparr>messages := ms\<rparr>"] exI [of _ None] exI [of _ nextAt])
        (auto simp: putQueue_def update_conv')
  qed
qed

theorem receive_serves_first_receivable_witness:
  "\<exists>q' c nextAt. fst (receive demoEnv 5 ''q'' 2 (-1) demoStore) =
     Inr ([deliver demoEnv 5 30 4 (demoMsg 0 ''a'' ''''), deliver demoEnv 5 30 5 (demoMsg 1 ''b'' '''')], c, nextAt) \<and>
     map_of (queues (snd (receive demoEnv 5 ''q'' 2 (-1) demoStore))) =
       (map_of (queues demoStore))(''q'' \<mapsto> q') \<and>
     messages q' = [deliver demoEnv 5 30 4 (demoMsg 0 ''a'' ''''), deliver demoEnv 5 30 5 (demoMsg 1 ''b'' '''')]"
proof -
  let ?q = "demoQueue ''q'' False [demoMsg 0 ''a'' '''', demoMsg 1 ''b'' '''']"
  have i: "[0, 1] = take (nat (clampMaxCount 2)) (receivable (FifoQueue (config ?q)) 5 [] (messages ?q))"
    by (simp add: clampMaxCount_def receivable_Cons available_def live_def)
  have u: "uuids demoStore = 4" by (simp add: demoStore_def)
  have m: "[deliver demoEnv 5 30 4 (demoMsg 0 ''a'' ''''), deliver demoEnv 5 30 5 (demoMsg 1 ''b'' '''')] =
    map (\<lambda>k. deliver demoEnv 5 30 (uuids demoStore + k) (messages ?q ! ([0, 1] ! k))) [0..<length [0, 1 :: nat]]"
    by (simp add: u)
  have v: "30 = (if (-1 :: int) < 0 then VisibilityTimeout (config ?q) else -1)" by simp
  from receive_serves_first_receivable [OF demoStore_queues(1) v i m prod.collapse [symmetric]]
  show ?thesis
    by (auto simp: All_less_Suc2 numeral_2_eq_2 length_Suc_conv nth_Cons' intro: exI)
qed

text \<open>A prefix of an ascending list that reaches \<open>j\<close> has passed every smaller element.\<close>

lemma take_ascending:
  fixes xs :: "nat list"
  assumes "sorted_wrt (<) xs" and "i \<in> set xs" and "i < j" and "j \<in> set (take n xs)"
  obtains a b where "a < b" "b < length (take n xs)" "take n xs ! a = i" "take n xs ! b = j"
proof -
  obtain b where b: "b < length (take n xs)" "take n xs ! b = j" using assms(4) by (auto simp: in_set_conv_nth)
  obtain a where a: "a < length xs" "xs ! a = i" using assms(2) by (auto simp: in_set_conv_nth)
  have "a < b"
  proof (rule ccontr)
    assume "\<not> a < b"
    then have "b = a \<or> b < a" by auto
    with a b assms(1,3) show False by (auto dest: sorted_wrt_nth_less)
  qed
  with a b show thesis by (intro that [of a b]) auto
qed

lemma receivable_ascending: "sorted_wrt (<) (receivable fifo now blocked ms)"
  unfolding receivable_def by (rule sorted_wrt_filter) simp

text \<open>On a FIFO queue a live message that precedes a receivable one of its group is receivable.\<close>

lemma receivable_group_prefix:
  assumes "j \<in> set (receivable True now [] ms)" and "i < j" and "live now (ms ! i)"
    and "MessageGroupId (ms ! i) = MessageGroupId (ms ! j)"
  shows "i \<in> set (receivable True now [] ms)"
proof -
  have j: "j < length ms" "receivableAt True now [] ms j" using assms(1) by (auto simp: receivable_def)
  with assms(2-4) have "available now (ms ! i)" by (auto simp: receivableAt_def blocks_def)
  with j assms(2,4) show ?thesis by (auto simp: receivable_def receivableAt_def)
qed

text \<open>C14: FIFO order: when a receive on a FIFO queue returns a message, it also returns, earlier in
  the same result, every live message (neither deleted, stale nor expired) of its group that was
  queued before it. In particular no message overtakes one of its group that is in flight or
  delayed.\<close>

theorem receive_fifo_group_order:
  assumes "store_inv E s" and "map_of (queues s) name = Some q" and "FifoQueue (config q)"
    and "fst (receive E now name maxCount visTimeout s) = Inr (msgs, c, nextAt)"
    and "i < j" and "j < length (messages q)" and "live now (messages q ! i)"
    and "MessageGroupId (messages q ! i) = MessageGroupId (messages q ! j)"
    and "MessageId (messages q ! j) \<in> set (map MessageId msgs)"
  shows "\<exists>a b. a < b \<and> b < length msgs \<and> MessageId (msgs ! a) = MessageId (messages q ! i) \<and>
     MessageId (msgs ! b) = MessageId (messages q ! j)"
proof -
  define rs where "rs = receivable (FifoQueue (config q)) now [] (messages q)"
  obtain s' where "receive E now name maxCount visTimeout s = (Inr (msgs, c, nextAt), s')"
    using assms(4) by (metis prod.collapse)
  then obtain q2 vis idx where "map_of (queues s) name = Some q2"
      "idx = take (nat (clampMaxCount maxCount)) (receivable (FifoQueue (config q2)) now [] (messages q2))"
      "msgs = map (\<lambda>k. deliver E now vis (uuids s + k) (messages q2 ! (idx ! k))) [0..<length idx]"
    by (rule receive_Inr)
  then have idx: "idx = take (nat (clampMaxCount maxCount)) rs"
    and msgs: "msgs = map (\<lambda>k. deliver E now vis (uuids s + k) (messages q ! (idx ! k))) [0..<length idx]"
    using assms(2) by (simp_all add: rs_def)
  have range: "x < length (messages q)" if "x \<in> set idx" for x
    using that by (auto simp: idx rs_def dest!: in_set_takeD receivable_in_range)
  have ids: "distinct (map MessageId (messages q))"
    using queue_messages_inv [OF assms(1,2)] by (simp add: messages_inv_def)
  from assms(9) obtain k where k: "k < length idx" "MessageId (messages q ! j) = MessageId (messages q ! (idx ! k))"
    by (auto simp: msgs)
  with range assms(6) have "j = idx ! k"
    using nth_eq_iff_index_eq [OF ids, of j "idx ! k"] by auto
  with k have j: "j \<in> set idx" by simp
  with assms(3,5,7,8) have "i \<in> set rs"
    using receivable_group_prefix [of j now "messages q" i] by (auto simp: idx rs_def dest: in_set_takeD)
  then obtain a b where "a < b" "b < length idx" "idx ! a = i" "idx ! b = j"
    using take_ascending [of rs i j] receivable_ascending assms(5) j unfolding rs_def idx by metis
  then show ?thesis by (intro exI [of _ a] exI [of _ b]) (simp add: msgs)
qed

theorem receive_fifo_group_order_witness:
  "\<exists>a b. a < b \<and> b < 2 \<and>
     MessageId ([deliver demoEnv 5 30 4 (demoMsg 2 ''c'' ''g''), deliver demoEnv 5 30 5 (demoMsg 3 ''d'' ''g'')] ! a) =
       uuid demoEnv 2 \<and>
     MessageId ([deliver demoEnv 5 30 4 (demoMsg 2 ''c'' ''g''), deliver demoEnv 5 30 5 (demoMsg 3 ''d'' ''g'')] ! b) =
       uuid demoEnv 3"
proof -
  have u: "uuids demoStore = 4" by (simp add: demoStore_def)
  have "fst (receive demoEnv 5 ''f.fifo'' 10 30 demoStore) =
      Inr ([deliver demoEnv 5 30 4 (demoMsg 2 ''c'' ''g''), deliver demoEnv 5 30 5 (demoMsg 3 ''d'' ''g'')], None, 1000000)"
    by (simp add: receive_def demoStore_queues u clampMaxCount_def later_def Let_def)
  from receive_fifo_group_order [OF demoStore_inv demoStore_queues(2) _ this, of 0 1]
  show ?thesis by (simp add: live_def numeral_2_eq_2)
qed

text \<open>An empty receive reports the instant \<open>nextAt\<close> (0 for none) before which the queue, as it
  is, stays empty: a second receive at any later time before that instant returns nothing either.
  So a long poll that sleeps until \<open>nextAt\<close> misses no message.\<close>

theorem receive_empty_until_nextAt:
  assumes "0 \<le> now" and "now \<le> now'" and "nextAt = 0 \<or> now' < nextAt"
    and "receive E now name maxCount visTimeout s = (Inr ([], c, nextAt), s')"
  shows "\<exists>c' n. fst (receive E now' name maxCount' visTimeout' s') = Inr ([], c', n)"
proof -
  have pos: "1 \<le> clampMaxCount m" for m by (simp add: clampMaxCount_def)
  from assms(4) obtain q vis ms u where
    scan: "receiveScan E (FifoQueue (config q)) now (clampMaxCount maxCount) vis [] (messages q) [] 0 (uuids s) =
       (ms, [], nextAt, u)"
    and s': "s' = putQueue name (snd (waitChan q)) s"
    by (rule receive_Inr) auto
  from receivable_before_nextAt [OF assms(1) pos scan assms(2,3)]
  have none: "receivable (FifoQueue (config q)) now' [] (messages q) = []" .
  have q': "map_of (queues s') name = Some (snd (waitChan q))" by (simp add: s')
  show ?thesis
    by (rule receive_result [OF q' refl refl refl, of E now' maxCount' visTimeout']) (simp add: none)
qed

theorem receive_empty_until_nextAt_witness:
  "\<exists>c' n. fst (receive demoEnv 20000 ''q'' 10 0 (snd (receive demoEnv 6 ''q'' 1 0
      (snd (receive demoEnv 5 ''q'' 10 30 demoStore))))) = Inr ([], c', n)"
proof -
  have "receive demoEnv 6 ''q'' 1 0 (snd (receive demoEnv 5 ''q'' 10 30 demoStore)) =
    (Inr ([], Some 0, 30005), snd (receive demoEnv 6 ''q'' 1 0 (snd (receive demoEnv 5 ''q'' 10 30 demoStore))))"
    by (simp add: receive_def demoStore_queues clampMaxCount_def later_def Let_def putQueue_def waitChan_def
        deliver_def wrap64_def)
  from receive_empty_until_nextAt [OF _ _ _ this, of 20000 10 0] show ?thesis by simp
qed

end
