(* ===== verification/SQS_Wakeup.thy ===== *)
theory SQS_Wakeup
  imports SQS_Theorems
begin

text \<open>
  No lost wake-up: an operation that makes a message of a queue receivable closes the channel the
  long polls of that queue wait on. \<open>wakesOrQuiet now q q'\<close> relates a queue before and after an
  operation: the channel is closed, or it is the same one and a queue that had nothing to receive at
  \<open>now\<close> still has nothing.
\<close>

definition quiet :: "int \<Rightarrow> queue \<Rightarrow> bool" where
  "quiet now q \<longleftrightarrow> receivable (FifoQueue (config q)) now [] (messages q) = []"

definition wakesOrQuiet :: "int \<Rightarrow> queue \<Rightarrow> queue \<Rightarrow> bool" where
  "wakesOrQuiet now q q' \<longleftrightarrow>
     chans q' = chans q \<and> (wake q' = None \<or> wake q' = wake q \<and> (quiet now q \<longrightarrow> quiet now q'))"

definition wakes :: "int \<Rightarrow> string \<Rightarrow> Store \<Rightarrow> Store \<Rightarrow> bool" where
  "wakes now name s s' \<longleftrightarrow> (\<forall>q. map_of (queues s) name = Some q \<longrightarrow>
     (\<exists>q'. map_of (queues s') name = Some q' \<and> wakesOrQuiet now q q'))"

named_theorems wake_intros

lemma wakesOrQuiet_refl [wake_intros]: "wakesOrQuiet now q q"
  by (simp add: wakesOrQuiet_def)

lemma wakesOrQuiet_trans: "wakesOrQuiet now q q' \<Longrightarrow> wakesOrQuiet now q' q'' \<Longrightarrow> wakesOrQuiet now q q''"
  by (auto simp: wakesOrQuiet_def)

lemma wakesOrQuiet_signal [wake_intros]: "chans q' = chans q \<Longrightarrow> wakesOrQuiet now q (signal q')"
  by (simp add: wakesOrQuiet_def signal_def)

lemma wakesOrQuiet_signal_messages [wake_intros]: "wakesOrQuiet now q (signal (q\<lparr>messages := ms\<rparr>))"
  by (rule wakesOrQuiet_signal) simp

lemma wakes_refl [wake_intros]: "wakes now name s s"
  by (auto simp: wakes_def intro: wakesOrQuiet_refl)

lemma wakes_trans: "wakes now name s s' \<Longrightarrow> wakes now name s' s'' \<Longrightarrow> wakes now name s s''"
  unfolding wakes_def using wakesOrQuiet_trans by fast

lemma wakes_put:
  assumes "map_of (queues s) n = Some q" and "wakesOrQuiet now q q'"
  shows "wakes now name s ((putQueue n q' s)\<lparr>dirty := b\<rparr>)" and "wakes now name s (putQueue n q' s)"
  using assms by (auto simp: wakes_def intro: wakesOrQuiet_refl)

lemma wakes_fields [simp]:
  "wakes now name s (s'\<lparr>uuids := u\<rparr>) = wakes now name s s'"
  "wakes now name s (s'\<lparr>dirty := b\<rparr>) = wakes now name s s'"
  "wakes now name (s\<lparr>dirty := b\<rparr>) s' = wakes now name s s'"
  by (simp_all add: wakes_def)

text \<open>A standard queue is quiet when none of its messages is available.\<close>

lemma receivable_standard_empty: "receivable False now [] ms = [] \<longleftrightarrow> (\<forall>m \<in> set ms. \<not> available now m)"
  by (auto simp: receivable_def receivableAt_def filter_empty_conv all_set_conv_all_nth)

lemma receivable_fifo_empty: "receivable False now [] ms = [] \<Longrightarrow> receivable b now [] ms = []"
  by (cases b) (auto simp: receivable_def receivableAt_def filter_empty_conv)

lemma wakesOrQuiet_standard:
  assumes "\<not> FifoQueue (config q)" and "\<And>m. m \<in> set ms \<Longrightarrow> available now m \<Longrightarrow> m \<in> set (messages q)"
  shows "wakesOrQuiet now q (q\<lparr>messages := ms, dedup := d\<rparr>)"
  using assms by (auto simp: wakesOrQuiet_def quiet_def receivable_standard_empty)

lemma wakesOrQuiet_subset:
  assumes "\<not> FifoQueue (config q)" and "\<forall>m \<in> set ms. available now m \<longrightarrow> m \<in> set (messages q)"
  shows "wakesOrQuiet now q (q\<lparr>messages := ms\<rparr>)"
  using assms by (auto simp: wakesOrQuiet_def quiet_def receivable_standard_empty)

lemma wakesOrQuiet_config [wake_intros]:
  assumes "FifoQueue (config q) \<longrightarrow> FifoQueue c"
  shows "wakesOrQuiet now q (q\<lparr>config := c\<rparr>)"
proof -
  have "receivable (FifoQueue c) now [] (messages q) = []"
    if "receivable (FifoQueue (config q)) now [] (messages q) = []"
    using assms that by (cases "FifoQueue (config q)") (auto intro: receivable_fifo_empty)
  then show ?thesis by (simp add: wakesOrQuiet_def quiet_def)
qed

section \<open>Operation by operation\<close>

lemma applyQueueAttributes_fifo:
  "applyQueueAttributes E c a = Inr c' \<Longrightarrow> FifoQueue c \<longrightarrow> FifoQueue c'"
  by (auto simp: applyPlainAttributes_def elim!: applyQueueAttributes_Inr)

lemma enqueue_wakes:
  "enqueueMessageLocked E t q u body delay attrs g d honor = Inr (msg, q', u') \<Longrightarrow> wakesOrQuiet now q q'"
  by (erule enqueue_cases) (auto intro: wake_intros)

lemma SendMessage_wakes: "wakes now name s (snd (SendMessage E t n body dl attrs g d s))"
  by (auto simp: SendMessage_def Let_def split: option.splits sum.splits
      intro!: wake_intros wakes_put dest: enqueue_wakes)

lemma updateFirst_Deleted_available:
  "updateFirst P (\<lambda>m. m\<lparr>Deleted := True\<rparr>) xs = Some ys \<Longrightarrow> m \<in> set ys \<Longrightarrow> available now m \<Longrightarrow> m \<in> set xs"
  by (induction xs arbitrary: ys) (auto simp: available_def live_def split: if_splits option.splits)

text \<open>Marking a message as deleted needs no wake-up on a standard queue.\<close>

lemma delete_wakes:
  assumes "updateFirst P (\<lambda>m. m\<lparr>Deleted := True\<rparr>) (messages q) = Some ms" and "\<not> FifoQueue (config q)"
  shows "wakesOrQuiet now q (q\<lparr>messages := ms\<rparr>)"
  using updateFirst_Deleted_available [OF assms(1)] by (intro wakesOrQuiet_subset [OF assms(2)]) blast

lemma DeleteMessage_wakes: "wakes now name s (snd (DeleteMessage n h s))"
  by (auto simp: DeleteMessage_def Let_def split: option.splits
      intro: wake_intros wakes_put(2) delete_wakes)

lemma DeleteMessageByID_wakes: "wakes now name s (snd (DeleteMessageByID n h s))"
  by (auto simp: DeleteMessageByID_def Let_def split: option.splits
      intro: wake_intros wakes_put(2) delete_wakes)

lemma wakesOrQuiet_purge [wake_intros]: "wakesOrQuiet now q (q\<lparr>messages := []\<rparr>)"
  by (simp add: wakesOrQuiet_def quiet_def)

lemma administration_wakes:
  "wakes now name s (snd (CreateQueue E t n attrs tags s))"
  "wakes now name s (snd (SetQueueAttributes E t n attrs s))"
  "wakes now name s (snd (IncrementProcessedCount n delta s))"
  "wakes now name s (snd (TagQueue n tags' s))"
  "wakes now name s (snd (UntagQueue n keys s))"
  "wakes now name s (snd (PurgeQueue n s))"
  "wakes now name s (snd (ChangeMessageVisibility t n h timeout s))"
  "wakes now name s (snd (ReleaseMessage t n h s))"
proof -
  show "wakes now name s (snd (CreateQueue E t n attrs tags s))"
    by (auto simp: CreateQueue_def Let_def wakes_def split: option.splits sum.splits intro: wakesOrQuiet_refl)
  show "wakes now name s (snd (SetQueueAttributes E t n attrs s))"
    by (auto simp: SetQueueAttributes_def split: option.splits sum.splits intro!: wake_intros wakes_put(2)
        dest!: applyQueueAttributes_fifo)
qed (auto simp: IncrementProcessedCount_def TagQueue_def UntagQueue_def PurgeQueue_def ChangeMessageVisibility_def
      ReleaseMessage_def Let_def split: option.splits intro!: wake_intros wakes_put(2))

lemma redriveScan_moved:
  assumes "redriveScan E now c maxM ms moved u = (ms', copies, moved', u')"
  shows "moved' = moved + int (length copies) \<and> (copies = [] \<longrightarrow> ms' = ms) \<and>
     (\<forall>m \<in> set ms'. \<not> Deleted m \<longrightarrow> m \<in> set ms)"
  using assms
  by (induction ms arbitrary: moved u ms' copies)
    (fastforce split: if_splits prod.splits simp: map_prod_Cons_eq)+

lemma RedriveMessages_wakes: "wakes now name s (snd (RedriveMessages E t src dst maxM s))"
proof -
  have "wakes now name s (snd (RedriveMessages E t src dst maxM s))"
    if "map_of (queues s) src = Some qF" "map_of (queues s) dst = Some qT" "src \<noteq> dst"
      and scan: "redriveScan E t (config qT) maxM (messages qF) 0 (uuids s) = (ms, copies, moved, u)" for qF qT ms copies moved u
  proof -
    let ?from = "if FifoQueue (config qF) then signal (qF\<lparr>messages := ms\<rparr>) else qF\<lparr>messages := ms\<rparr>"
    note mv = redriveScan_moved [OF scan]
    have F: "wakesOrQuiet now qF ?from"
      using mv by (auto simp: available_def live_def intro: wake_intros wakesOrQuiet_subset)
    show ?thesis
    proof (cases "copies = []")
      case True
      with mv that show ?thesis by (auto simp: RedriveMessages_def wakes_def intro: wakesOrQuiet_refl)
    next
      case False
      with mv have "moved > 0" by simp
      with that F show ?thesis by (auto simp: RedriveMessages_def wakes_def Let_def intro: wake_intros)
    qed
  qed
  then show ?thesis
    by (cases "map_of (queues s) src"; cases "map_of (queues s) dst"; cases "src = dst")
      (auto simp: RedriveMessages_def wakes_refl split: prod.splits option.splits)
qed

lemma moveToDLQ_wakes: "wakes now name s (snd (moveToDLQ E clk3 source candidate reaping beforeSend s))"
proof -
  obtain t1 t2 t3 where clk3: "clk3 = (t1, t2, t3)" by (rule prod_cases3)
  obtain r s' where res: "moveToDLQ E clk3 source candidate reaping beforeSend s = (r, s')" by fastforce
  show ?thesis
  proof (cases "\<exists>d. r = Inr (Some d)")
    case False
    with moveToDLQ_unchanged [OF res] res show ?thesis by (auto intro: wake_intros)
  next
    case True
    then obtain msg target where "moveToDLQ E (t1, t2, t3) source candidate reaping beforeSend s =
        (Inr (Some (msg, target)), s')" using res clk3 by auto
    then show ?thesis
    proof (rule moveToDLQ_moved)
      fix src current us vs to to' u
      assume q: "map_of (queues s) source = Some src" "map_of (queues s) target = Some to" "source \<noteq> target"
        and ms: "messages src = us @ current # vs"
        and enq: "enqueueMessageLocked E t3 to (uuids s) (Body current) (if reaping then 0 else DelaySeconds (config to))
          (retryCountAttrs current) (MessageGroupId current) (MessageDeduplicationId current) (\<not> reaping) = Inr (msg, to', u)"
        and s': "s' = (putQueue source ((if FifoQueue (config src) then signal else id)
             (src\<lparr>messages := us @ current\<lparr>Deleted := True\<rparr> # vs\<rparr>)) (putQueue target to' s))\<lparr>uuids := u, dirty := True\<rparr>"
      have "wakesOrQuiet now src ((if FifoQueue (config src) then signal else id)
             (src\<lparr>messages := us @ current\<lparr>Deleted := True\<rparr> # vs\<rparr>))"
        using ms by (auto simp: available_def live_def intro!: wakesOrQuiet_subset intro: wake_intros)
      with q enqueue_wakes [OF enq, of now] show ?thesis
        unfolding res s' by (auto simp: wakes_def intro: wake_intros)
    qed
  qed
qed

section \<open>The reaper\<close>

lemma reapScan_unchanged:
  "\<not> snd (snd (reapScan now c ms)) \<Longrightarrow> fst (reapScan now c ms) = ms"
  by (induction ms) (auto simp: Let_def split: prod.splits if_splits)

lemma reapMark_available: "available now (reapMark t c m) \<Longrightarrow> reapMark t c m = m"
  by (auto simp: reapMark_def available_def live_def split: if_splits)

lemma reapQueue_wakes: "wakesOrQuiet now q (fst (reapQueue t q))"
proof -
  obtain alive moves changed where scan: "reapScan t (config q) (messages q) = (alive, moves, changed)"
    by (rule prod_cases3)
  let ?d = "filter (\<lambda>(id, expiry). \<not> t \<ge> expiry) (dedup q)"
  have alive: "alive = map (reapMark t (config q)) (filter (\<lambda>m. \<not> (Deleted m \<or> ExpiresAt m \<le> t)) (messages q))"
    using reapScan_alive [of t "config q" "messages q"] scan by simp
  have "m \<in> set (messages q)" if "m \<in> set alive" "available now m" for m
    using that reapMark_available by (fastforce simp: alive)
  then have std: "wakesOrQuiet now q (q\<lparr>messages := alive, dedup := ?d\<rparr>)" if "\<not> FifoQueue (config q)"
    using wakesOrQuiet_standard [OF that, of alive now ?d] by blast
  have "wakesOrQuiet now q (q\<lparr>messages := alive, dedup := ?d\<rparr>)" if "\<not> changed"
    using that reapScan_unchanged [of t "config q" "messages q"] scan by (simp add: wakesOrQuiet_def quiet_def)
  with std scan show ?thesis by (auto simp: reapQueue_def Let_def intro: wake_intros)
qed

lemma reapMoves_wakes: "wakes now name s (reapMoves E clk i moves s)"
  by (induction E clk i moves s rule: reapMoves.induct)
    (auto intro: wake_intros wakes_trans [OF moveToDLQ_wakes])

lemma Reap_wakes: "wakes now name s (Reap E t clk s)"
proof -
  obtain qs moves changed where r: "reapQueues t (queues s) = (qs, moves, changed)" by (rule prod_cases3)
  then have "map_of qs n = map_option (\<lambda>q. fst (reapQueue t q)) (map_of (queues s) n)" for n
    using reapQueues_map [of t "queues s"] by (simp add: map_of_map_snd)
  then have "wakes now name s (s\<lparr>queues := qs, dirty := dirty s \<or> changed\<rparr>)"
    by (simp add: wakes_def reapQueue_wakes)
  with r show ?thesis by (simp add: Reap_def wakes_trans [OF _ reapMoves_wakes])
qed

lemma receive_empty_state:
  assumes "receive E now name maxCount visTimeout s = (Inr ([], Some c, nextAt), s1)" and "store_inv E s"
  obtains q where "map_of (queues s1) name = Some q" "quiet now q" "wake q = Some c" "c < chans q"
proof -
  from assms(1) obtain q vis idx where q: "map_of (queues s) name = Some q"
    and idx: "idx = take (nat (clampMaxCount maxCount)) (receivable (FifoQueue (config q)) now [] (messages q))"
    and out: "[] = map (\<lambda>k. deliver E now vis (uuids s + k) (messages q ! (idx ! k))) [0..<length idx]"
    and s1: "([] :: SQSMessage list) = [] \<longrightarrow>
      Some c = Some (fst (waitChan q)) \<and> s1 = putQueue name (snd (waitChan q)) s"
    by (rule receive_Inr)
  from arg_cong [OF out, of length] have "idx = []" by (metis diff_zero length_0_conv length_map length_upt list.size(3))
  then have "quiet now (snd (waitChan q))"
    using idx by (auto simp: quiet_def clampMaxCount_def split: if_splits)
  moreover have "\<forall>c. wake q = Some c \<longrightarrow> Suc c = chans q"
    using store_inv_lookup [OF assms(2) q] by (simp add: queue_inv_def)
  ultimately show thesis
    using s1 that [of "snd (waitChan q)"] by (auto simp: waitChan_def split: option.splits)
qed

lemma sqs_step_wakes:
  assumes "sqs_step E s s'" and "\<nexists>t n k v. s' = snd (receive E t n k v s)" and "\<nexists>n. s' = snd (DeleteQueue n s)"
  shows "wakes now name s s'"
  using assms
  by (cases rule: sqs_step.cases)
    (auto intro: administration_wakes SendMessage_wakes DeleteMessage_wakes DeleteMessageByID_wakes
      RedriveMessages_wakes moveToDLQ_wakes Reap_wakes)



end
