(* ===== verification/SQS_Guarantees.thy ===== *)
theory SQS_Guarantees
  imports SQS_Theorems
begin

text \<open>
  The properties of single SQS operations: the store invariant, receipt handles, deduplication,
  dead-letter transfers, redrive, the reaper, queue attributes, persistence, the disruptor, and the
  end of a long poll.
\<close>

section \<open>The store invariant\<close>

text \<open>C15: In every store that operations reach from the empty one, each queue carries its own name,
  URL and ARN, per-group throughput implies per-group deduplication, message ids and the receipt
  handles in use are pairwise distinct and were all drawn before, receive counts are not negative,
  and at most one wake channel is open. UUIDs are assumed to be non-empty and distinct.\<close>

theorem reachable_store_inv:
  assumes "good_uuids E" and "(sqs_step E)\<^sup>*\<^sup>* NewStore s"
  shows "distinct (map fst (queues s)) \<and>
    (\<forall>name q. map_of (queues s) name = Some q \<longrightarrow> queue_inv E (uuids s) name q)"
proof -
  have "(\<lambda>s t. good_uuids E \<and> sqs_step E s t)\<^sup>*\<^sup>* NewStore s" using assms by simp
  from sqsSystem.steps_invariant [OF this NewStore_inv] show ?thesis
    by (auto simp: store_inv_def queueTable.every_def)
qed

theorem reachable_store_inv_witness:
  "\<exists>q. map_of (queues (snd (CreateQueue demoEnv 7 ''jobs'' [] None NewStore))) ''jobs'' = Some q \<and>
     queue_inv demoEnv 0 ''jobs'' q"
proof -
  let ?s = "snd (CreateQueue demoEnv 7 ''jobs'' [] None NewStore)"
  have "(sqs_step demoEnv)\<^sup>*\<^sup>* NewStore ?s" by (rule r_into_rtranclp) (rule create)
  from reachable_store_inv [OF demoEnv_uuids this]
  have "\<forall>name q. map_of (queues ?s) name = Some q \<longrightarrow> queue_inv demoEnv (uuids ?s) name q" ..
  moreover have "\<exists>q. map_of (queues ?s) ''jobs'' = Some q" "uuids ?s = 0"
    by (simp_all add: CreateQueue_def NewStore_def applyQueueAttributes_def applyDeduplicationScope_def
        applyFifoThroughputLimit_def newQueueConfig_def putQueue_def)
  ultimately show ?thesis by fastforce
qed

section \<open>Receipt handles\<close>

lemma byReceipt_unique:
  assumes "distinct (handles (us @ m # vs))" and "ReceiptHandle m \<noteq> ''''" and "x \<in> set us \<union> set vs"
  shows "\<not> byReceipt (ReceiptHandle m) x"
proof -
  have "ReceiptHandle m \<notin> ReceiptHandle ` (set us \<union> set vs)" using assms(1,2) by (auto simp: handles_def)
  with imageI [OF assms(3), of ReceiptHandle] show ?thesis by (auto simp only: byReceipt_def)
qed

text \<open>C19: The receipt handle a receive returned deletes exactly the message it came with: \<open>DeleteMessage\<close>
  succeeds, marks that message as deleted and changes no other message of the queue.\<close>

theorem receipt_deletes_its_message:
  assumes "good_uuids E" and "store_inv E s"
    and "receive E now name maxCount visTimeout s = (Inr (msgs, c, nextAt), s1)"
    and "m \<in> set msgs" and "map_of (queues s1) name = Some q1"
  shows "\<exists>us vs q2. messages q1 = us @ m # vs \<and>
     fst (DeleteMessage name (ReceiptHandle m) s1) = Inr () \<and>
     map_of (queues (snd (DeleteMessage name (ReceiptHandle m) s1))) name = Some q2 \<and>
     messages q2 = us @ m\<lparr>Deleted := True\<rparr> # vs"
proof -
  from assms(3) obtain q vis idx ms where
    idx: "idx = take (nat (clampMaxCount maxCount)) (receivable (FifoQueue (config q)) now [] (messages q))"
    and msgs: "msgs = map (\<lambda>k. deliver E now vis (uuids s + k) (messages q ! (idx ! k))) [0..<length idx]"
    and ms: "length ms = length (messages q)" "\<forall>k < length idx. ms ! (idx ! k) = msgs ! k"
    and s1: "msgs \<noteq> [] \<longrightarrow> c = None \<and>
       s1 = (putQueue name (q\<lparr>messages := ms\<rparr>) s)\<lparr>uuids := uuids s + length idx, dirty := True\<rparr>"
    by (rule receive_Inr)
  have q1: "messages q1 = ms" using s1 assms(4,5) by auto
  from assms(4) obtain k where k: "k < length idx" "m = msgs ! k" by (auto simp: msgs)
  have av: "available now (messages q ! (idx ! k))" "idx ! k < length (messages q)"
    using nth_mem [OF k(1)] by (auto simp: idx receivable_def receivableAt_def dest!: in_set_takeD)
  have m: "ReceiptHandle m \<noteq> ''''" "\<not> Deleted m"
    using k av assms(1) by (auto simp: msgs good_uuids_def available_def live_def)
  have "m \<in> set ms" using k ms av(2) nth_mem by metis
  then obtain us vs where split: "ms = us @ m # vs" by (meson split_list)
  have "store_inv E s1"
    using receive_store_inv [OF assms(1,2), of now name maxCount visTimeout] assms(3) by simp
  from queue_messages_inv [OF this assms(5)] have "distinct (handles (us @ m # vs))"
    by (simp add: messages_inv_def q1 split)
  with m have "updateFirst (byReceipt (ReceiptHandle m)) (\<lambda>m. m\<lparr>Deleted := True\<rparr>) ms =
      Some (us @ m\<lparr>Deleted := True\<rparr> # vs)"
    using byReceipt_unique by (intro updateFirst_split [OF split]) (auto simp: byReceipt_def)
  with assms(5) q1 split show ?thesis
    by (auto simp: DeleteMessage_def Let_def)
qed

theorem receipt_deletes_its_message_witness:
  "fst (DeleteMessage ''q'' (uuid demoEnv 4) (snd (receive demoEnv 5 ''q'' 1 30 demoStore))) = Inr ()"
proof -
  have 1: "receive demoEnv 5 ''q'' 1 30 demoStore =
      (Inr ([deliver demoEnv 5 30 4 (demoMsg 0 ''a'' '''')], None, 0),
       snd (receive demoEnv 5 ''q'' 1 30 demoStore))"
    by (simp add: receive_def demoStore_queues clampMaxCount_def later_def Let_def) (simp add: demoStore_def)
  have "\<exists>q1. map_of (queues (snd (receive demoEnv 5 ''q'' 1 30 demoStore))) ''q'' = Some q1"
    by (simp add: receive_def demoStore_queues clampMaxCount_def later_def Let_def)
  then obtain q1 where 2: "map_of (queues (snd (receive demoEnv 5 ''q'' 1 30 demoStore))) ''q'' = Some q1" ..
  from receipt_deletes_its_message [OF demoEnv_uuids demoStore_inv 1 _ 2] show ?thesis by auto
qed

text \<open>An empty receipt handle is not rejected: on a queue that holds a message nobody has received
  yet, \<open>DeleteMessage\<close> with the handle \<open>""\<close> succeeds and deletes the first such message. (The batch
  deletion handlers pass the handle of a request entry on unchecked.)\<close>

theorem empty_receipt_deletes_unreceived:
  assumes "map_of (queues s) name = Some q" and "messages q = us @ m # vs"
    and "ReceiptHandle m = ''''" and "\<not> Deleted m"
    and "\<forall>x \<in> set us. ReceiptHandle x \<noteq> '''' \<or> Deleted x"
  shows "fst (DeleteMessage name '''' s) = Inr () \<and>
    map_option messages (map_of (queues (snd (DeleteMessage name '''' s))) name) =
      Some (us @ m\<lparr>Deleted := True\<rparr> # vs)"
proof -
  have "updateFirst (byReceipt '''') (\<lambda>m. m\<lparr>Deleted := True\<rparr>) (messages q) = Some (us @ m\<lparr>Deleted := True\<rparr> # vs)"
    using assms(3-5) by (intro updateFirst_split [OF assms(2)]) (auto simp: byReceipt_def)
  with assms(1) show ?thesis by (auto simp: DeleteMessage_def Let_def)
qed

theorem empty_receipt_deletes_unreceived_witness:
  "fst (DeleteMessage ''q'' '''' demoStore) = Inr ()"
  using empty_receipt_deletes_unreceived [OF demoStore_queues(1), of "[]" "demoMsg 0 ''a'' ''''" "[demoMsg 1 ''b'' '''']"]
  by simp

section \<open>Deduplication\<close>

lemma find_snoc: "\<forall>x \<in> set xs. \<not> P x \<Longrightarrow> P y \<Longrightarrow> find P (xs @ [y]) = Some y"
  by (induction xs) auto

text \<open>FIFO deduplication. A send with a deduplication id that is not active creates a message; sending
  the same id again within five minutes, with whatever body, while that message is not deleted,
  returns that message and leaves the store as it is.\<close>

theorem send_deduplicated:
  assumes "map_of (queues s) name = Some q" and "FifoQueue (config q)" and "d \<noteq> ''''" and "g2 \<noteq> ''''"
    and "map_of (dedup q) d = None" and "\<forall>m \<in> set (messages q). MessageDeduplicationId m \<noteq> d"
    and "SendMessage E now name body delay attrs g d s = (Inr m, s1)" and "now2 < now + 300000"
  shows "SendMessage E now2 name body2 delay2 attrs2 g2 d s1 = (Inr m, s1)"
proof -
  let ?delay = "if delay = 0 then DelaySeconds (config q) else delay"
  obtain q' u' where enq: "enqueueMessageLocked E now q (uuids s) body ?delay attrs g d True = Inr (m, q', u')"
    and s1: "s1 = (putQueue name q' s)\<lparr>uuids := u', dirty := (if length (messages q') \<noteq> length (messages q) then True else dirty s)\<rparr>"
    using assms(1,7) by (auto simp: SendMessage_def Let_def split: sum.splits)
  from enq have q': "m = newMessage E now q (uuids s) body ?delay attrs g d"
    "q' = signal (q\<lparr>dedup := AList.update d (now + 300000) (dedup q), messages := messages q @ [m]\<rparr>)"
    using assms(2,3,6) by (auto elim!: enqueue_cases)
  have "find (\<lambda>m. MessageDeduplicationId m = d \<and> \<not> Deleted m) (messages q @ [m]) = Some m"
    using assms(6) by (intro find_snoc) (auto simp: q'(1) newMessage_def)
  then have "enqueueMessageLocked E now2 q' u' body2 delay3 attrs2 g2 d True = Inr (m, q', u')" for delay3
    using assms(2-4,8) by (simp add: enqueueMessageLocked_def q'(2) Let_def)
  moreover have "map_of (queues s1) name = Some q'" "uuids s1 = u'" by (simp_all add: s1)
  moreover have "(putQueue name q' s1)\<lparr>uuids := u', dirty := dirty s1\<rparr> = s1"
    by (simp add: s1 putQueue_def)
  ultimately show ?thesis by (simp add: SendMessage_def)
qed

theorem send_deduplicated_witness:
  "let s1 = snd (SendMessage demoEnv 10 ''f.fifo'' ''x'' 0 None ''g'' ''d1'' demoStore) in
     SendMessage demoEnv 200000 ''f.fifo'' ''y'' 0 None ''h'' ''d1'' s1 =
       (fst (SendMessage demoEnv 10 ''f.fifo'' ''x'' 0 None ''g'' ''d1'' demoStore), s1)"
proof -
  let ?r = "SendMessage demoEnv 10 ''f.fifo'' ''x'' 0 None ''g'' ''d1'' demoStore"
  obtain m where m: "?r = (Inr m, snd ?r)"
    by (simp add: SendMessage_def demoStore_queues enqueueMessageLocked_def Let_def)
  then have f: "fst ?r = Inr m" by (metis fst_conv)
  have "SendMessage demoEnv 200000 ''f.fifo'' ''y'' 0 None ''h'' ''d1'' (snd ?r) = (Inr m, snd ?r)"
    by (rule send_deduplicated [OF demoStore_queues(2) _ _ _ _ _ m]) simp_all
  then show ?thesis unfolding Let_def f .
qed

section \<open>Dead-letter transfers\<close>


definition demoDlqStore :: Store where
  "demoDlqStore = \<lparr>queues =
      [(''q'', (demoQueue ''q'' False [(demoMsg 0 ''a'' '''')\<lparr>ApproximateReceiveCount := 2, ReceiptHandle := uuid demoEnv 1\<rparr>])
          \<lparr>config := (newQueueConfig demoEnv 0 ''q'' False None)\<lparr>DeadLetterTargetArn := ''arn:aws:sqs:eu:1:dlq'', MaxReceiveCount := 2\<rparr>\<rparr>),
       (''dlq'', demoQueue ''dlq'' False [])], dirty = False, uuids = 2\<rparr>"

lemma demoDlqStore_inv: "store_inv demoEnv demoDlqStore"
  by (simp add: store_inv_def queueTable.every_def demoDlqStore_def queue_inv_def messages_inv_def)
    (simp add: demoQueue_def newQueueConfig_def)


section \<open>Redrive\<close>

definition movable :: "int \<Rightarrow> SQSMessage \<Rightarrow> bool" where
  "movable now m \<longleftrightarrow> \<not> (Deleted m \<or> ExpiresAt m \<le> now)"

lemma redriveScan_spec:
  assumes "redriveScan E now c maxM ms moved u = (ms', copies, moved', u')"
    and "n = (if maxM > 0 then min (nat (maxM - moved)) (length (filter (movable now) ms))
              else length (filter (movable now) ms))"
  shows "length copies = n \<and> moved' = moved + int n \<and>
    copies = map (\<lambda>k. redriveCopy E now c (u + k) (filter (movable now) ms ! k)) [0..<n] \<and>
    filter (movable now) ms' = drop n (filter (movable now) ms)"
  using assms
proof (induction ms arbitrary: moved u ms' copies n)
  case Nil
  then show ?case by (auto split: if_splits)
next
  case (Cons m ms)
  consider (dead) "\<not> movable now m" | (full) "movable now m" "maxM > 0" "moved \<ge> maxM"
    | (move) "movable now m" "maxM > 0 \<longrightarrow> moved < maxM" by linarith
  then show ?case
  proof cases
    case dead
    then have "Deleted m \<or> ExpiresAt m \<le> now" by (simp add: movable_def)
    with Cons.prems(1) obtain rest where rest: "ms' = m # rest"
      "redriveScan E now c maxM ms moved u = (rest, copies, moved', u')"
      by (auto simp: map_prod_Cons_eq)
    from Cons.IH [OF rest(2)] dead Cons.prems(2) rest(1) show ?thesis by simp
  next
    case full
    with Cons.prems show ?thesis by (auto simp: movable_def)
  next
    case move
    then have nd: "\<not> (Deleted m \<or> ExpiresAt m \<le> now)" "\<not> (maxM > 0 \<and> moved \<ge> maxM)" by (auto simp: movable_def)
    obtain rest cs where rest: "redriveScan E now c maxM ms (moved + 1) (Suc u) = (rest, cs, moved', u')"
      and eq: "ms' = m\<lparr>Deleted := True\<rparr> # rest" "copies = redriveCopy E now c u m # cs"
      using Cons.prems(1) by (auto simp: nd split: prod.splits)
    let ?n = "if maxM > 0 then min (nat (maxM - (moved + 1))) (length (filter (movable now) ms))
              else length (filter (movable now) ms)"
    have n: "n = Suc ?n" using Cons.prems(2) move by (auto simp: min_def)
    note IH = Cons.IH [OF rest refl]
    show ?thesis unfolding n eq using move(1) IH
      by (auto simp: map_upt_Suc movable_def simp del: upt_Suc)
  qed
qed

text \<open>C21: Redrive moves and loses nothing. The number reported is the number of movable (not deleted, not
  expired) messages of the source, limited by \<open>maxMessages\<close> when that is positive; copies of exactly
  the first that many, in order and with the same body, group and deduplication id, are appended to
  the target, and the movable messages that remain in the source are the others.\<close>

theorem redrive_conserves:
  assumes "map_of (queues s) src = Some qFrom" and "map_of (queues s) dst = Some qTo" and "src \<noteq> dst"
    and "L = filter (movable now) (messages qFrom)"
    and "n = (if maxMessages > 0 then min (nat maxMessages) (length L) else length L)"
  shows "\<exists>s' qFrom' qTo' copies. RedriveMessages E now src dst maxMessages s = (Inr (int n), s') \<and>
     map_of (queues s') src = Some qFrom' \<and> map_of (queues s') dst = Some qTo' \<and>
     filter (movable now) (messages qFrom') = drop n L \<and> messages qTo' = messages qTo @ copies \<and>
     map (\<lambda>m. (Body m, MessageGroupId m, MessageDeduplicationId m)) copies =
       map (\<lambda>m. (Body m, MessageGroupId m, MessageDeduplicationId m)) (take n L)"
proof -
  obtain ms copies moved u where scan:
    "redriveScan E now (config qTo) maxMessages (messages qFrom) 0 (uuids s) = (ms, copies, moved, u)"
    by (rule prod_cases4)
  have n: "n = (if maxMessages > 0 then min (nat (maxMessages - 0)) (length (filter (movable now) (messages qFrom)))
              else length (filter (movable now) (messages qFrom)))" by (simp add: assms(4,5))
  note spec = redriveScan_spec [OF scan n, folded assms(4)]
  define qF where "qF = (if moved > 0 \<and> FifoQueue (config qFrom) then signal (qFrom\<lparr>messages := ms\<rparr>) else qFrom\<lparr>messages := ms\<rparr>)"
  define qT where "qT = (if moved > 0 then signal (qTo\<lparr>messages := messages qTo @ copies\<rparr>) else qTo\<lparr>messages := messages qTo @ copies\<rparr>)"
  have le: "n \<le> length L" by (auto simp: assms(5))
  have "map (\<lambda>m. (Body m, MessageGroupId m, MessageDeduplicationId m)) copies =
      map (\<lambda>m. (Body m, MessageGroupId m, MessageDeduplicationId m)) (take n L)"
    using spec le by (intro nth_equalityI) (auto simp: redriveCopy_def)
  moreover have "\<exists>s'. RedriveMessages E now src dst maxMessages s = (Inr moved, s') \<and>
     map_of (queues s') src = Some qF \<and> map_of (queues s') dst = Some qT"
    using assms(1-3) scan by (cases "moved > 0") (auto simp: RedriveMessages_def Let_def qF_def qT_def)
  moreover have "messages qF = ms" "messages qT = messages qTo @ copies" "moved = int n"
    using spec by (simp_all add: qF_def qT_def)
  ultimately show ?thesis using spec by metis
qed

theorem redrive_conserves_witness:
  "\<exists>s' qFrom' qTo' copies. RedriveMessages demoEnv 5 ''f.fifo'' ''q'' 1 demoStore = (Inr 1, s') \<and>
     map_of (queues s') ''f.fifo'' = Some qFrom' \<and> map_of (queues s') ''q'' = Some qTo' \<and>
     filter (movable 5) (messages qFrom') = [demoMsg 3 ''d'' ''g''] \<and>
     messages qTo' = [demoMsg 0 ''a'' '''', demoMsg 1 ''b'' ''''] @ copies \<and>
     map (\<lambda>m. (Body m, MessageGroupId m, MessageDeduplicationId m)) copies = [(''c'', ''g'', '''')]"
proof -
  have "[demoMsg 2 ''c'' ''g'', demoMsg 3 ''d'' ''g''] =
      filter (movable 5) (messages (demoQueue ''f.fifo'' True [demoMsg 2 ''c'' ''g'', demoMsg 3 ''d'' ''g'']))"
    by (simp add: movable_def)
  from redrive_conserves [OF demoStore_queues(2,1) _ this refl, where maxMessages = 1 and E = demoEnv] show ?thesis by simp
qed

section \<open>The reaper\<close>

lemma moveToDLQ_keeps:
  assumes "map_of (queues s) name = Some q" and "m \<in> set (messages q)"
    and "name = source \<longrightarrow> MessageId m \<noteq> cand_id candidate"
  shows "\<exists>q'. map_of (queues (snd (moveToDLQ E clk3 source candidate reaping beforeSend s))) name = Some q' \<and>
     m \<in> set (messages q')"
proof -
  obtain t1 t2 t3 where clk3: "clk3 = (t1, t2, t3)" by (rule prod_cases3)
  obtain r s' where res: "moveToDLQ E clk3 source candidate reaping beforeSend s = (r, s')" by fastforce
  show ?thesis
  proof (cases "\<exists>msg target. r = Inr (Some (msg, target))")
    case False
    with moveToDLQ_unchanged [OF res] res assms(1,2) show ?thesis by auto
  next
    case True
    then obtain msg target where "moveToDLQ E (t1, t2, t3) source candidate reaping beforeSend s =
        (Inr (Some (msg, target)), s')" using res clk3 by auto
    then obtain src current us vs to to' u where q2: "map_of (queues s) source = Some src"
      "map_of (queues s) target = Some to" and tgt: "source \<noteq> target"
      and ms: "messages src = us @ current # vs" and cur: "dlqMatch candidate t2 current"
      and enq: "enqueueMessageLocked E t3 to (uuids s) (Body current) (if reaping then 0 else DelaySeconds (config to))
         (retryCountAttrs current) (MessageGroupId current) (MessageDeduplicationId current) (\<not> reaping) = Inr (msg, to', u)"
      and s': "s' = (putQueue source ((if FifoQueue (config src) then signal else id)
             (src\<lparr>messages := us @ current\<lparr>Deleted := True\<rparr> # vs\<rparr>)) (putQueue target to' s))\<lparr>uuids := u, dirty := True\<rparr>"
      by (rule moveToDLQ_moved)
    have sub: "set (messages to) \<subseteq> set (messages to')" using enq by (cases rule: enqueue_cases) auto
    consider "name = source" | "name = target" "name \<noteq> source" | "name \<noteq> source" "name \<noteq> target" by blast
    then show ?thesis
    proof cases
      case 1
      with assms q2 ms cur have "m \<in> set us \<union> set vs" by (auto simp: dlqMatch_def)
      with 1 show ?thesis unfolding res s' by auto
    next
      case 2
      with assms q2 sub show ?thesis unfolding res s' by auto
    next
      case 3
      with assms show ?thesis unfolding res s' by auto
    qed
  qed
qed

lemma reapMoves_keeps:
  assumes "map_of (queues s) name = Some q" and "m \<in> set (messages q)"
    and "\<forall>(n, cand) \<in> set moves. n = name \<longrightarrow> MessageId m \<noteq> cand_id cand"
  shows "\<exists>q'. map_of (queues (reapMoves E clk i moves s)) name = Some q' \<and> m \<in> set (messages q')"
  using assms
proof (induction E clk i moves s arbitrary: q rule: reapMoves.induct)
  case (2 E clk i source candidate moves s)
  from 2 moveToDLQ_keeps [OF 2(2,3), of source candidate E "clk i" True None] show ?case by fastforce
qed simp

lemma reapQueues_moves:
  "set (fst (snd (reapQueues now qs))) \<subseteq> {(n, cand). \<exists>q. (n, q) \<in> set qs \<and> cand \<in> set (fst (snd (reapQueue now q)))}"
  by (induction now qs rule: reapQueues.induct) (fastforce split: prod.splits)+

text \<open>C22: The reaper loses no message in use: a message that is neither deleted nor expired and has not
  exhausted its receives (or is in flight) is in its queue after \<open>Reap\<close> exactly as before.\<close>

theorem reap_keeps_messages:
  assumes "store_inv E s" and "map_of (queues s) name = Some q" and "m \<in> set (messages q)"
    and "\<not> Deleted m" and "now < ExpiresAt m" and "\<not> overThreshold now (config q) m"
  shows "\<exists>q'. map_of (queues (Reap E now clk s)) name = Some q' \<and> m \<in> set (messages q')"
proof -
  obtain qs moves changed where r: "reapQueues now (queues s) = (qs, moves, changed)" by (rule prod_cases3)
  then have qs: "map_of qs n = map_option (\<lambda>q. fst (reapQueue now q)) (map_of (queues s) n)" for n
    using reapQueues_map [of now "queues s"] by (simp add: map_of_map_snd)
  have kept: "m \<in> set (messages (fst (reapQueue now q)))"
    unfolding reapQueue_fields using assms(3-6) by (force simp: reapMark_def)
  have "distinct (map MessageId (messages q))"
    using queue_messages_inv [OF assms(1,2)] by (simp add: messages_inv_def)
  then have uniq: "x = m" if "x \<in> set (messages q)" "MessageId x = MessageId m" for x
    using that assms(3) by (auto simp: distinct_map dest: inj_onD)
  have dist: "distinct (map fst (queues s))" using assms(1) by (simp add: store_inv_def)
  have "MessageId m \<noteq> cand_id cand" if "(name, cand) \<in> set moves" for cand
  proof -
    from reapQueues_moves [of now "queues s"] r that
    obtain q0 where q0: "(name, q0) \<in> set (queues s)" "cand \<in> set (fst (snd (reapQueue now q0)))" by auto
    with dist assms(2) have "q0 = q" by (metis map_of_eq_Some_iff option.inject)
    with q0(2) have "cand \<in> set (fst (snd (reapScan now (config q) (messages q))))"
      by (auto simp: reapQueue_def Let_def split: prod.splits)
    with uniq assms(6) show ?thesis unfolding reapScan_moves by auto
  qed
  then have "\<forall>(n, cand) \<in> set moves. n = name \<longrightarrow> MessageId m \<noteq> cand_id cand" by auto
  from reapMoves_keeps [OF _ kept this] qs assms(2) r show ?thesis by (simp add: Reap_def)
qed

theorem reap_keeps_messages_witness:
  "\<exists>q'. map_of (queues (Reap demoEnv 5 (\<lambda>i. (5, 5, 5)) demoStore)) ''q'' = Some q' \<and>
     demoMsg 1 ''b'' '''' \<in> set (messages q')"
  by (rule reap_keeps_messages [OF demoStore_inv demoStore_queues(1)])
    (simp_all add: overThreshold_def staleThreshold_def demoQueue_def newQueueConfig_def defaultStaleReceiveCount_def)

section \<open>Queue attributes\<close>

lemma scanInto_itoa: "in_int64 v \<Longrightarrow> scanInto [(k, itoa v)] key old = (if key = k then v else old)"
  by (simp add: scanInto_def sscanfD_itoa)

text \<open>Setting a numeric attribute of a queue to the decimal form of an int64 value succeeds, and reading
  that attribute returns it.\<close>

theorem set_get_attribute:
  assumes "store_inv E s" and "map_of (queues s) name = Some q" and "in_int64 v"
    and "k \<in> {''VisibilityTimeout'', ''MessageRetentionPeriod'', ''DelaySeconds'', ''MaximumMessageSize'',
              ''ReceiveMessageWaitTimeSeconds''}"
  shows "\<exists>s'. SetQueueAttributes E t name [(k, itoa v)] s = (Inr (), s') \<and>
     GetQueueAttributes now name (Some [k]) s' = Inr [(k, itoa v)]"
proof -
  have thr: "FifoThroughputLimit (config q) = ''perMessageGroupId'' \<longrightarrow> DeduplicationScope (config q) = ''messageGroup''"
    by (rule queue_throughput [OF assms(1,2)])
  have "applyQueueAttributes E (config q) [(k, itoa v)] = Inr (applyPlainAttributes (config q) [(k, itoa v)])"
    using assms(4) thr by (auto simp: applyQueueAttributes_def applyDeduplicationScope_def
        applyFifoThroughputLimit_def applyRedrivePolicy_def)
  then have "SetQueueAttributes E t name [(k, itoa v)] s = (Inr (), (putQueue name (q\<lparr>config :=
      (applyPlainAttributes (config q) [(k, itoa v)])\<lparr>LastModifiedTimestamp := t\<rparr>\<rparr>) s)\<lparr>dirty := True\<rparr>)"
    using assms(2) by (simp add: SetQueueAttributes_def)
  moreover have "queueAttributes now (Some [k]) (q\<lparr>config :=
      (applyPlainAttributes (config q) [(k, itoa v)])\<lparr>LastModifiedTimestamp := t\<rparr>\<rparr>) = [(k, itoa v)]"
    using assms(4) unfolding queueAttributes_def Let_def applyPlainAttributes_def scanInto_itoa [OF assms(3)]
    by (elim insertE emptyE; hypsubst; simp add: attrIf_def)
  ultimately show ?thesis by (simp add: GetQueueAttributes_def)
qed

theorem set_get_attribute_witness:
  "\<exists>s'. SetQueueAttributes demoEnv 9 ''q'' [(''DelaySeconds'', itoa 15)] demoStore = (Inr (), s') \<and>
     GetQueueAttributes 9 ''q'' (Some [''DelaySeconds'']) s' = Inr [(''DelaySeconds'', itoa 15)]"
  by (rule set_get_attribute [OF demoStore_inv demoStore_queues(1)]) (simp_all add: in_int64_def)

text \<open>\<open>CreateQueue\<close> on a name that exists returns the existing configuration and changes nothing,
  whatever attributes and tags are requested: they are neither compared nor applied.\<close>

theorem create_existing_ignores_attributes:
  assumes "CreateQueue E t name attrs tags s = (Inr c, s1)"
  shows "CreateQueue E t' name attrs' tags' s1 = (Inr c, s1)"
  using assms by (auto simp: CreateQueue_def Let_def newQueue_def split: option.splits sum.splits if_splits)

theorem create_existing_ignores_attributes_witness:
  "CreateQueue demoEnv 9 ''q'' [(''VisibilityTimeout'', ''77''), (''FifoQueue'', ''true'')] None demoStore =
     (Inr (newQueueConfig demoEnv 0 ''q'' False None), demoStore)"
proof -
  have "CreateQueue demoEnv 1 ''q'' [] None demoStore = (Inr (newQueueConfig demoEnv 0 ''q'' False None), demoStore)"
    by (simp add: CreateQueue_def demoStore_queues demoQueue_def)
  from create_existing_ignores_attributes [OF this] show ?thesis .
qed

section \<open>Persistence\<close>

lemma loadQueue_snapshotQueue:
  "map_of (loadQueue E (snapshotQueue now q) []) (QueueName (config q)) =
     Some \<lparr>config = (config q)\<lparr>QueueUrl := queueUrlOf E (QueueName (config q)), QueueArn := queueArnOf E (QueueName (config q))\<rparr>,
           messages = filter (\<lambda>msg. \<not> (Deleted msg \<and> ExpiresAt msg \<le> now)) (messages q),
           dedup = fold (\<lambda>(key, value) m. AList.update key value m) (dedup q) [], wake = None, chans = 0\<rparr>"
  by (simp add: loadQueue_def snapshotQueue_def Let_def comp_def)

text \<open>C23: Persistence round trip: loading the snapshot that was written restores every queue, and only
  those: the same configuration, the same messages in the same order except those that are both
  deleted and expired, and the same deduplication table.\<close>

theorem snapshot_roundtrip:
  assumes "store_inv E s"
  shows "case map_of (queues s) name of
      None \<Rightarrow> map_of (queues (loadSnapshot E (writeSnapshot now s) s0)) name = None
    | Some q \<Rightarrow> \<exists>q'. map_of (queues (loadSnapshot E (writeSnapshot now s) s0)) name = Some q' \<and>
        config q' = config q \<and> map_of (dedup q') = map_of (dedup q) \<and>
        messages q' = filter (\<lambda>m. \<not> (Deleted m \<and> ExpiresAt m \<le> now)) (messages q)"
proof -
  let ?item = "\<lambda>n. snapshotQueue now (the (map_of (queues s) n))"
  let ?ns = "sort (map fst (queues s))"
  have inv: "queue_inv E (uuids s) n q" if "map_of (queues s) n = Some q" for n q
    using store_inv_lookup [OF assms that] .
  have dom: "n \<in> set ?ns \<longleftrightarrow> (\<exists>q. map_of (queues s) n = Some q)" for n
    using map_of_eq_None_iff [of "queues s" n] by auto
  have "\<exists>c. snap_Config (?item n) = Some c \<and> QueueName c = n" if "n \<in> set ?ns" for n
    using that inv by (auto simp: dom snapshotQueue_def queue_inv_def simp del: set_sort)
  note load = map_of_loadQueues [of ?ns ?item, OF this, of E "[]" name]
  show ?thesis
  proof (cases "map_of (queues s) name")
    case None
    then have "name \<notin> set ?ns" using dom by simp
    with load None show ?thesis by (simp add: loadSnapshot_def writeSnapshot_def)
  next
    case (Some q)
    then have n: "name \<in> set ?ns" using dom by blast
    have q: "QueueName (config q) = name" "QueueUrl (config q) = queueUrlOf E name"
      "QueueArn (config q) = queueArnOf E name" "distinct (map fst (dedup q))"
      using inv [OF Some] by (simp_all add: queue_inv_def)
    from load n Some loadQueue_snapshotQueue [of E now q] q show ?thesis
      by (simp add: loadSnapshot_def writeSnapshot_def map_of_copy)
  qed
qed

theorem snapshot_roundtrip_witness:
  "\<exists>q'. map_of (queues (loadSnapshot demoEnv (writeSnapshot 5 demoStore) NewStore)) ''f.fifo'' = Some q' \<and>
     messages q' = [demoMsg 2 ''c'' ''g'', demoMsg 3 ''d'' ''g'']"
  using snapshot_roundtrip [OF demoStore_inv, where name = "''f.fifo''" and now = 5 and ?s0.0 = NewStore]
  by (auto simp: demoStore_queues)

section \<open>The disruptor\<close>

text \<open>A disruption rule takes effect as requested: after \<open>Set\<close>, a send to its queue fails for exactly
  the rolls below the failure rate clamped to 0..100 (so never at rate 0 and always at rate 100),
  if the rule is enabled, with one of the four known codes; sends to other queues are as before.\<close>

theorem set_rule_effect:
  assumes "0 \<le> roll" and "roll < 100" and "d' = snd (SetRule r d)"
  shows "(shouldFail roll (rule_QueueName r) d' \<noteq> None \<longleftrightarrow>
            rule_Enabled r \<and> roll < min 100 (max 0 (rule_FailureRate r))) \<and>
         (\<forall>e. shouldFail roll (rule_QueueName r) d' = Some e \<longrightarrow>
            (\<exists>code msg. e = DisruptError (rule_QueueName r) code msg (disruptStatus code) \<and> msg \<noteq> '''' \<and>
              code \<in> {''InternalError'', ''ServiceUnavailable'', ''OverLimit'', ''Throttling''})) \<and>
         (name \<noteq> rule_QueueName r \<longrightarrow> shouldFail roll name d' = shouldFail roll name d)"
proof -
  have n: "ruleNormal (rule_QueueName r) (normalized r)" by (rule normalized_ruleNormal)
  have look: "map_of (rules d') k = (if k = rule_QueueName r then Some (normalized r) else map_of (rules d) k)" for k
    by (simp add: assms(3) SetRule_def Let_def)
  have rate: "rule_FailureRate (normalized r) = min 100 (max 0 (rule_FailureRate r))"
    "rule_Enabled (normalized r) = rule_Enabled r"
    by (auto simp: normalized_def Let_def)
  have own: "shouldFail roll (rule_QueueName r) d' =
      (if rule_Enabled r \<and> roll < min 100 (max 0 (rule_FailureRate r))
       then Some (DisruptError (rule_QueueName r) (rule_Code (normalized r)) (rule_Message (normalized r))
              (disruptStatus (rule_Code (normalized r)))) else None)"
    using assms(1,2) by (auto simp: shouldFail_def activeRule_def look rate)
  have other: "name \<noteq> rule_QueueName r \<longrightarrow> shouldFail roll name d' = shouldFail roll name d"
    by (simp add: shouldFail_def activeRule_def look)
  from n other show ?thesis unfolding own by (auto simp: ruleNormal_def split: if_splits)
qed

theorem set_rule_effect_witness:
  "shouldFail 59 ''q'' (snd (SetRule \<lparr>rule_QueueName = ''q'', rule_Enabled = True, rule_FailureRate = 60,
      rule_Code = ''Throttling'', rule_Message = ''''\<rparr> newDisruptor)) \<noteq> None"
  using set_rule_effect [where roll = 59 and d = newDisruptor and r = "\<lparr>rule_QueueName = ''q'', rule_Enabled = True,
    rule_FailureRate = 60, rule_Code = ''Throttling'', rule_Message = ''''\<rparr>", OF _ _ refl] by simp

text \<open>In every state of the disruptor the rules are normalised and filed under their queue, and \<open>List\<close>
  returns each of them once, in ascending order of the queue name.\<close>

theorem list_rules_sorted:
  assumes "disruptor_step\<^sup>*\<^sup>* newDisruptor d"
  shows "sorted_wrt (<) (map rule_QueueName (ListRules d)) \<and>
    (\<forall>r. r \<in> set (ListRules d) \<longleftrightarrow> GetRule (rule_QueueName r) d = Some r) \<and>
    (\<forall>r \<in> set (ListRules d). ruleNormal (rule_QueueName r) r)"
proof -
  have inv: "distinct (map fst (rules d))" "ruleTable.every ruleNormal d"
    using disruptorSystem.steps_invariant [OF assms newDisruptor_inv] by (simp_all add: disruptor_inv_def)
  have norm: "ruleNormal n r" if "(n, r) \<in> set (rules d)" for n r
    using ruleTable.everyD [OF inv(2), of n r] inv(1) that by simp
  have m: "mset (ListRules d) = mset (map snd (rules d))" unfolding ListRules_def by (simp add: mset_sortRules)
  then have s: "set (ListRules d) = snd ` set (rules d)" by (metis list.set_map set_mset_mset)
  have names: "map rule_QueueName (map snd (rules d)) = map fst (rules d)"
    using norm by (auto simp: ruleNormal_def)
  have "mset (map rule_QueueName (ListRules d)) = mset (map fst (rules d))"
    using m names by (metis mset_map)
  with inv(1) have "distinct (map rule_QueueName (ListRules d))" by (metis mset_eq_imp_distinct_iff)
  moreover have "sorted (map rule_QueueName (ListRules d))"
    unfolding ListRules_def by (rule sorted_sortRules) simp
  ultimately have "sorted_wrt (<) (map rule_QueueName (ListRules d))" by (simp add: strict_sorted_iff)
  moreover have "r \<in> set (ListRules d) \<longleftrightarrow> GetRule (rule_QueueName r) d = Some r" for r
  proof -
    have "r \<in> set (ListRules d) \<longleftrightarrow> (\<exists>n. (n, r) \<in> set (rules d))" by (force simp: s)
    also have "\<dots> \<longleftrightarrow> (rule_QueueName r, r) \<in> set (rules d)" using norm by (auto simp: ruleNormal_def)
    finally show ?thesis using inv(1) by (simp add: GetRule_def)
  qed
  moreover have "\<forall>r \<in> set (ListRules d). ruleNormal (rule_QueueName r) r"
    using norm by (fastforce simp: s ruleNormal_def)
  ultimately show ?thesis by blast
qed

theorem list_rules_sorted_witness:
  "let d = snd (SetRule \<lparr>rule_QueueName = ''b'', rule_Enabled = True, rule_FailureRate = 500,
      rule_Code = ''X'', rule_Message = ''m''\<rparr> newDisruptor) in
    \<forall>r \<in> set (ListRules d). ruleNormal (rule_QueueName r) r"
  unfolding Let_def using list_rules_sorted [OF r_into_rtranclp, OF set_rule] by blast

section \<open>Long polling\<close>

text \<open>C24: A long poll returns: as soon as a turn of its loop reads the clock at or past the deadline
  (\<open>waitTimeSec\<close> seconds after the start), whatever the other clients do and however often it is woken,
  \<open>ReceiveMessageUntil\<close> has returned a result.\<close>

theorem long_poll_returns:
  assumes "t \<in> set turns" and "in_int64 (waitTimeSec * 1000000000)"
    and "startNs + waitTimeSec * 1000000000 \<le> clockNs t"
  shows "\<exists>r. ReceiveMessageUntil E cancelled0 now startNs name maxCount visTimeout waitTimeSec turns s = Some r"
  using assms pollLoop_returns [OF assms(1), of "startNs + waitTimeSec * 1000000000"]
  by (auto simp: ReceiveMessageUntil_def Let_def split: sum.splits)

theorem long_poll_returns_witness:
  "\<exists>r. ReceiveMessageUntil demoEnv False 5 0 ''q'' 1 0 2
     [\<lparr>cancelled = False, clockMs = 5, clockNs = 5000000, clockNs2 = 5000001, event = TimerFired, others = id\<rparr>,
      \<lparr>cancelled = False, clockMs = 2001, clockNs = 2001000000, clockNs2 = 0, event = Woken, others = id\<rparr>]
     (snd (PurgeQueue ''q'' demoStore)) = Some r"
  by (rule long_poll_returns [where t = "\<lparr>cancelled = False, clockMs = 2001, clockNs = 2001000000, clockNs2 = 0,
        event = Woken, others = id\<rparr>"]) (simp_all add: in_int64_def)

end
