(* ===== verification/Tarn_Json.thy ===== *)
theory Tarn_Json
  imports Complex_Main Tarn_Prelude
begin

text \<open>
  JSON values as Go's \<open>encoding/json\<close> decodes them into \<open>any\<close>: a number is a finite \<open>float64\<close>, here
  its exact value as a rational; an object is a map, here an association list looked up with
  \<open>map_of\<close>. Decoding and encoding themselves are parameters of the definitions that use them.
\<close>

datatype json =
    JNull
  | JBool bool
  | JNum rat
  | JStr string
  | JArr "json list"
  | JObj "(string \<times> json) list"

type_synonym json_object = "(string \<times> json) list"

text \<open>A map index \<open>v, ok := m[key]\<close>: a missing key gives nil.\<close>

definition indexMap :: "json_object \<Rightarrow> string \<Rightarrow> json \<times> bool" where
  "indexMap m key = (case map_of m key of None \<Rightarrow> (JNull, False) | Some v \<Rightarrow> (v, True))"

lemma size_list_member [termination_simp]: "map_of m k = Some v \<Longrightarrow> size v < Suc (size_list (size_prod (\<lambda>_. 0) size) m)"
proof (induction m)
  case (Cons a m)
  then show ?case by (cases a) (auto split: if_splits)
qed simp

end
