(* ===== verification/EB_Pattern.thy ===== *)
theory EB_Pattern
  imports Tarn_Json
begin

text \<open>
  Event patterns of EventBridge (\<open>internal/eventbridge/pattern.go\<close>): matching an event against a
  pattern and validating a pattern. JSON decoding is a parameter. A Go map is iterated in the order
  of the association list; matching does not depend on it, validation reports the first error in it.

  The specification: \<open>wildMatch\<close> says what a wildcard pattern matches, and \<open>leaves\<close> flattens a
  pattern into the constraints on the paths of the event.
\<close>

section \<open>Literals and operators\<close>

fun toFloat64 :: "json \<Rightarrow> rat option" where
  "toFloat64 (JNum n) = Some n"
| "toFloat64 v = None"

fun literalEqual :: "json \<Rightarrow> json \<Rightarrow> bool" where
  "literalEqual JNull JNull = True"
| "literalEqual (JNum pf) (JNum ef) = (pf = ef)"
| "literalEqual (JStr ps) (JStr es) = (ps = es)"
| "literalEqual (JBool pb) (JBool eb) = (pb = eb)"
| "literalEqual _ _ = False"

text \<open>The loop of \<open>matchWildcard\<close> over the parts after the first, and the final suffix test.\<close>

fun wildParts :: "string list \<Rightarrow> string \<Rightarrow> bool" where
  "wildParts [] rest = True"
| "wildParts [lastPart] rest = hasSuffix rest lastPart"
| "wildParts (part # parts) rest = (case indexOf rest part of
      None \<Rightarrow> False
    | Some idx \<Rightarrow> wildParts parts (drop (idx + length part) rest))"

definition matchWildcard :: "string \<Rightarrow> string \<Rightarrow> bool" where
  "matchWildcard pattern s =
     (let parts = splitOn CHR ''*'' pattern in
      if length parts = 1 then pattern = s
      else if \<not> hasPrefix s (hd parts) then False
      else wildParts (tl parts) (drop (length (hd parts)) s))"

definition numericOp :: "string \<Rightarrow> rat \<Rightarrow> rat \<Rightarrow> bool" where
  "numericOp opStr num threshold =
     (if opStr = ''='' then num = threshold
      else if opStr = ''>'' then num > threshold
      else if opStr = ''>='' then num \<ge> threshold
      else if opStr = ''<'' then num < threshold
      else if opStr = ''<='' then num \<le> threshold
      else False)"

fun numericPairs :: "rat \<Rightarrow> json list \<Rightarrow> bool" where
  "numericPairs num (JStr opStr # t # ops) = (case toFloat64 t of
      None \<Rightarrow> False
    | Some threshold \<Rightarrow> numericOp opStr num threshold \<and> numericPairs num ops)"
| "numericPairs num [] = True"
| "numericPairs num _ = False"

definition matchNumeric :: "json list \<Rightarrow> json \<Rightarrow> bool" where
  "matchNumeric ops eventVal = (case toFloat64 eventVal of
      None \<Rightarrow> False
    | Some num \<Rightarrow> if length ops mod 2 \<noteq> 0 then False else numericPairs num ops)"

text \<open>A test on two strings, with what holds when one of the values is not a string.\<close>

fun onStrings :: "(string \<Rightarrow> string \<Rightarrow> bool) \<Rightarrow> bool \<Rightarrow> json \<Rightarrow> json \<Rightarrow> bool" where
  "onStrings f d (JStr s) (JStr ev) = f s ev"
| "onStrings f d _ _ = d"

fun matchAnythingBut :: "json \<Rightarrow> json \<Rightarrow> bool" where
  "matchAnythingBut (JArr c) eventVal = (\<not> list_ex (\<lambda>item. literalEqual item eventVal) c)"
| "matchAnythingBut (JStr c) eventVal = (\<not> literalEqual (JStr c) eventVal)"
| "matchAnythingBut (JNum c) eventVal = (\<not> literalEqual (JNum c) eventVal)"
| "matchAnythingBut (JObj c) eventVal =
     (case map_of c ''prefix'' of
        Some pfx \<Rightarrow> onStrings (\<lambda>s ev. \<not> hasPrefix ev s) True pfx eventVal
      | None \<Rightarrow> (case map_of c ''suffix'' of
          Some sfx \<Rightarrow> onStrings (\<lambda>s ev. \<not> hasSuffix ev s) True sfx eventVal
        | None \<Rightarrow> (case map_of c ''wildcard'' of
            Some wc \<Rightarrow> onStrings (\<lambda>pat ev. \<not> matchWildcard pat ev) True wc eventVal
          | None \<Rightarrow> False)))"
| "matchAnythingBut _ eventVal = True"

definition matchOperator :: "json_object \<Rightarrow> json \<Rightarrow> bool \<Rightarrow> bool" where
  "matchOperator op eventVal exists =
     (case map_of op ''exists'' of
        Some v \<Rightarrow> (case v of JBool wantExists \<Rightarrow> wantExists = exists | _ \<Rightarrow> False)
      | None \<Rightarrow>
        if \<not> exists then False
        else (case map_of op ''prefix'' of
          Some v \<Rightarrow> onStrings (\<lambda>s ev. hasPrefix ev s) False v eventVal
        | None \<Rightarrow> (case map_of op ''suffix'' of
          Some v \<Rightarrow> onStrings (\<lambda>s ev. hasSuffix ev s) False v eventVal
        | None \<Rightarrow> (case map_of op ''wildcard'' of
          Some v \<Rightarrow> onStrings (\<lambda>pat ev. matchWildcard pat ev) False v eventVal
        | None \<Rightarrow> (case map_of op ''anything-but'' of
          Some v \<Rightarrow> matchAnythingBut v eventVal
        | None \<Rightarrow> (case map_of op ''numeric'' of
          Some v \<Rightarrow> (case v of JArr arr \<Rightarrow> matchNumeric arr eventVal | _ \<Rightarrow> False)
        | None \<Rightarrow> False))))))"

fun matchSingleMatcher :: "json \<Rightarrow> json \<Rightarrow> bool \<Rightarrow> bool" where
  "matchSingleMatcher (JObj m) eventVal exists = matchOperator m eventVal exists"
| "matchSingleMatcher m eventVal exists = (literalEqual m eventVal \<and> exists)"

definition matchArray :: "json list \<Rightarrow> json \<Rightarrow> bool \<Rightarrow> bool" where
  "matchArray matchers eventVal exists = list_ex (\<lambda>m. matchSingleMatcher m eventVal exists) matchers"

section \<open>Patterns\<close>

function (sequential) matchObject :: "json_object \<Rightarrow> json_object \<Rightarrow> bool"
  and matchField :: "json \<Rightarrow> json \<Rightarrow> bool \<Rightarrow> bool" where
  "matchObject [] event = True"
| "matchObject ((key, constraint) # pattern) event =
     (case indexMap event key of (eventVal, exists) \<Rightarrow>
        if \<not> matchField constraint eventVal exists then False else matchObject pattern event)"
| "matchField (JArr c) eventVal exists = matchArray c eventVal exists"
| "matchField (JObj c) (JObj eventObj) exists = matchObject c eventObj"
| "matchField constraint eventVal exists = False"
  by pat_completeness auto
termination
  by (relation "measure (\<lambda>x. case x of Inl (p, e) \<Rightarrow> size_list (size_prod (\<lambda>_. 0) size) p
                                     | Inr (c, v, b) \<Rightarrow> size c)") auto

datatype pattern_error = InvalidPattern | InvalidEvent | EmptyPattern | NotArrayOrObject string
  | EmptyArray string | UnsupportedMatcher string | EmptyMatcher string | UnsupportedOperator string string

definition MatchEventPattern ::
    "(string \<Rightarrow> json_object option) \<Rightarrow> string \<Rightarrow> string \<Rightarrow> pattern_error + bool" where
  "MatchEventPattern unmarshal patternJSON eventJSON = (case unmarshal patternJSON of
      None \<Rightarrow> Inl InvalidPattern
    | Some pattern \<Rightarrow> (case unmarshal eventJSON of
        None \<Rightarrow> Inl InvalidEvent
      | Some event \<Rightarrow> Inr (matchObject pattern event)))"

section \<open>Validation\<close>

definition validOperators :: "string list" where
  "validOperators = [''prefix'', ''suffix'', ''anything-but'', ''numeric'', ''exists'', ''wildcard'', ''cidr'']"

definition validateOperatorObject :: "string \<Rightarrow> json_object \<Rightarrow> pattern_error option" where
  "validateOperatorObject key op =
     (if op = [] then Some (EmptyMatcher key)
      else map_option (\<lambda>(opKey, _). UnsupportedOperator opKey key)
             (find (\<lambda>(opKey, _). opKey \<notin> set validOperators) op))"

fun validateElems :: "string \<Rightarrow> json list \<Rightarrow> pattern_error option" where
  "validateElems key [] = None"
| "validateElems key (JArr _ # es) = Some (UnsupportedMatcher key)"
| "validateElems key (JObj e # es) = (case validateOperatorObject key e of
      Some err \<Rightarrow> Some err
    | None \<Rightarrow> validateElems key es)"
| "validateElems key (_ # es) = validateElems key es"

definition validatePatternArray :: "string \<Rightarrow> json list \<Rightarrow> pattern_error option" where
  "validatePatternArray key arr = (if arr = [] then Some (EmptyArray key) else validateElems key arr)"

function (sequential) validatePatternObject :: "json_object \<Rightarrow> pattern_error option" where
  "validatePatternObject [] = None"
| "validatePatternObject ((key, JArr v) # obj) = (case validatePatternArray key v of
      Some err \<Rightarrow> Some err
    | None \<Rightarrow> validatePatternObject obj)"
| "validatePatternObject ((key, JObj v) # obj) = (case validatePatternObject v of
      Some err \<Rightarrow> Some err
    | None \<Rightarrow> validatePatternObject obj)"
| "validatePatternObject ((key, val) # obj) = Some (NotArrayOrObject key)"
  by pat_completeness auto
termination by (relation "measure (size_list (size_prod (\<lambda>_. 0) size))") auto

definition ValidateEventPattern :: "(string \<Rightarrow> json_object option) \<Rightarrow> string \<Rightarrow> pattern_error option" where
  "ValidateEventPattern unmarshal patternJSON =
     (let patternJSON = trimSpace patternJSON in
      if patternJSON = '''' then Some EmptyPattern
      else (case unmarshal patternJSON of
          None \<Rightarrow> Some InvalidPattern
        | Some pattern \<Rightarrow> validatePatternObject pattern))"

section \<open>What a wildcard matches\<close>

fun wildMatch :: "string \<Rightarrow> string \<Rightarrow> bool" where
  "wildMatch [] s = (s = [])"
| "wildMatch (c # p) s =
     (if c = CHR ''*'' then (\<exists>k \<in> {0..length s}. wildMatch p (drop k s))
      else (case s of [] \<Rightarrow> False | x # xs \<Rightarrow> x = c \<and> wildMatch p xs))"

text \<open>The same by the parts between the stars: \<open>inParts [p0, p1, ...] s\<close> says that \<open>s\<close> is
  \<open>p0\<close>, a gap, \<open>p1\<close>, a gap, and so on.\<close>

fun inParts :: "string list \<Rightarrow> string \<Rightarrow> bool" where
  "inParts [] s = False"
| "inParts [p] s = (s = p)"
| "inParts (p # ps) s = (\<exists>g t. s = p @ g @ t \<and> inParts ps t)"

lemma inParts_Cons_empty: "ps \<noteq> [] \<Longrightarrow> inParts ([] # ps) s \<longleftrightarrow> (\<exists>g t. s = g @ t \<and> inParts ps t)"
  by (cases ps) auto

lemma inParts_Cons_char: "inParts ((c # p) # ps) s \<longleftrightarrow> (\<exists>xs. s = c # xs \<and> inParts (p # ps) xs)"
  by (cases ps) auto

lemma wildMatch_inParts: "wildMatch pat s \<longleftrightarrow> inParts (splitOn CHR ''*'' pat) s"
proof (induction pat arbitrary: s)
  case Nil
  then show ?case by simp
next
  case (Cons c pat)
  show ?case
  proof (cases "c = CHR ''*''")
    case True
    have "(\<exists>k \<in> {0..length s}. P (drop k s)) \<longleftrightarrow> (\<exists>g t. s = g @ t \<and> P t)" for P
    proof
      assume "\<exists>g t. s = g @ t \<and> P t"
      then obtain g t where "s = g @ t" "P t" by blast
      then show "\<exists>k \<in> {0..length s}. P (drop k s)" by (intro bexI [of _ "length g"]) auto
    qed (metis append_take_drop_id)
    with True Cons.IH show ?thesis by (simp add: inParts_Cons_empty)
  next
    case False
    obtain y ys where y: "splitOn CHR ''*'' pat = y # ys" by (meson list.exhaust splitOn_not_Nil)
    with False Cons.IH show ?thesis by (auto simp: inParts_Cons_char split: list.splits)
  qed
qed

text \<open>Taking the leftmost occurrence of each part is enough.\<close>

lemma wildParts_inParts: "parts \<noteq> [] \<Longrightarrow> wildParts parts rest \<longleftrightarrow> (\<exists>g t. rest = g @ t \<and> inParts parts t)"
proof (induction parts rest rule: wildParts.induct)
  case (2 lastPart rest)
  then show ?case by (auto simp: hasSuffix_iff)
next
  case (3 part p2 parts rest)
  let ?ps = "p2 # parts"
  show ?case
  proof
    assume "wildParts (part # ?ps) rest"
    then obtain i where i: "indexOf rest part = Some i" "wildParts ?ps (drop (i + length part) rest)"
      by (auto split: option.splits)
    with 3 obtain g t where t: "drop (i + length part) rest = g @ t" "inParts ?ps t" by auto
    from i(1) obtain r where r: "i \<le> length rest" "drop i rest = part @ r"
      by (auto simp: indexOf_Some_iff hasPrefix_iff)
    then have "drop (length part) (drop i rest) = r" by simp
    then have "drop (i + length part) rest = r" by (simp add: add.commute)
    with t r have "rest = take i rest @ part @ g @ t" by (metis append_take_drop_id)
    with t(2) show "\<exists>g t. rest = g @ t \<and> inParts (part # ?ps) t" by auto
  next
    assume "\<exists>g t. rest = g @ t \<and> inParts (part # ?ps) t"
    then obtain g g' t where rest: "rest = g @ part @ g' @ t" and t: "inParts ?ps t" by auto
    have occ: "length g \<le> length rest" "hasPrefix (drop (length g) rest) part"
      by (auto simp: rest hasPrefix_iff)
    then obtain i where i: "indexOf rest part = Some i"
      using indexOf_None_iff [of rest part] by (cases "indexOf rest part") auto
    then have "i \<le> length g" using occ by (auto simp: indexOf_Some_iff not_less [symmetric])
    then have "\<exists>h. drop (i + length part) rest = h @ t"
    proof -
      have "drop (length part + length g) rest = g' @ t" by (simp add: rest)
      moreover have "drop (i + length part) rest =
          take (length g - i) (drop (i + length part) rest) @ drop (length part + length g) rest"
        using \<open>i \<le> length g\<close> append_take_drop_id [of "length g - i" "drop (i + length part) rest"]
        by (simp add: add.commute)
      ultimately show ?thesis by (metis append.assoc)
    qed
    with t 3 i have "wildParts ?ps (drop (i + length part) rest)" by auto
    with i show "wildParts (part # ?ps) rest" by simp
  qed
qed simp

text \<open>C25: The wildcard matcher, which looks for the leftmost occurrence of each part between two stars,
  accepts exactly the strings obtained from the pattern by replacing each star by some string.\<close>

theorem matchWildcard_correct: "matchWildcard pattern s = wildMatch pattern s"
proof -
  obtain p ps where split: "splitOn CHR ''*'' pattern = p # ps" by (meson list.exhaust splitOn_not_Nil)
  show ?thesis
  proof (cases ps)
    case Nil
    have "CHR ''*'' \<notin> set pattern"
    proof
      assume "CHR ''*'' \<in> set pattern"
      then obtain a b where "pattern = a @ CHR ''*'' # b" by (meson split_list)
      then show False using split Nil by (simp add: splitOn_append_sep append_eq_Cons_conv)
    qed
    then have "p = pattern" using split splitOn_none by (metis list.inject)
    with split Nil show ?thesis by (auto simp: matchWildcard_def wildMatch_inParts)
  next
    case (Cons q qs)
    then have "inParts (p # ps) s \<longleftrightarrow> (\<exists>r. s = p @ r \<and> (\<exists>g t. r = g @ t \<and> inParts ps t))" by auto
    also have "\<dots> \<longleftrightarrow> (\<exists>r. s = p @ r \<and> wildParts ps r)"
      using wildParts_inParts [of ps] Cons by (metis list.distinct(1))
    also have "\<dots> \<longleftrightarrow> hasPrefix s p \<and> wildParts ps (drop (length p) s)"
      by (auto simp: hasPrefix_iff)
    finally show ?thesis using split Cons by (auto simp: matchWildcard_def wildMatch_inParts)
  qed
qed

section \<open>What a pattern matches\<close>

text \<open>A pattern as the list of its constraints: at a path of keys the event must have an object, or
  a value that one of the matchers accepts.\<close>

datatype leaf = Matchers "json list" | MustBeObject | Malformed

function (sequential) leaves :: "json_object \<Rightarrow> (string list \<times> leaf) list" where
  "leaves [] = []"
| "leaves ((key, JArr ms) # pattern) = ([key], Matchers ms) # leaves pattern"
| "leaves ((key, JObj c) # pattern) =
     ([key], MustBeObject) # map (\<lambda>(path, l). (key # path, l)) (leaves c) @ leaves pattern"
| "leaves ((key, _) # pattern) = ([key], Malformed) # leaves pattern"
  by pat_completeness auto
termination by (relation "measure (size_list (size_prod (\<lambda>_. 0) size))") auto

fun lookupPath :: "json_object \<Rightarrow> string list \<Rightarrow> json option" where
  "lookupPath event [] = None"
| "lookupPath event [key] = map_of event key"
| "lookupPath event (key # path) = (case map_of event key of Some (JObj obj) \<Rightarrow> lookupPath obj path | _ \<Rightarrow> None)"

definition leafHolds :: "json_object \<Rightarrow> string list \<times> leaf \<Rightarrow> bool" where
  "leafHolds event pl = (case pl of
      (path, Matchers ms) \<Rightarrow> (case lookupPath event path of
          None \<Rightarrow> matchArray ms JNull False | Some v \<Rightarrow> matchArray ms v True)
    | (path, MustBeObject) \<Rightarrow> (case lookupPath event path of Some (JObj obj) \<Rightarrow> True | _ \<Rightarrow> False)
    | (path, Malformed) \<Rightarrow> False)"

lemma leaves_path: "(path, l) \<in> set (leaves p) \<Longrightarrow> path \<noteq> []"
  by (induction p arbitrary: path rule: leaves.induct) auto

lemma leafHolds_down:
  assumes "map_of event key = Some (JObj obj)" and "path \<noteq> []"
  shows "leafHolds event (key # path, l) = leafHolds obj (path, l)"
  using assms by (cases path) (simp_all add: leafHolds_def)

text \<open>C8: An event matches a pattern exactly if it satisfies every constraint of the pattern: each path to an
  array of matchers has a value one of them accepts (or, for \<open>exists: false\<close>, no value), and each
  path to a nested pattern has an object.\<close>

theorem matchObject_leaves: "matchObject pattern event = list_all (leafHolds event) (leaves pattern)"
proof (induction pattern arbitrary: event rule: leaves.induct)
  case (2 key ms pattern)
  then show ?case by (auto simp: indexMap_def leafHolds_def split: option.splits)
next
  case (3 key c pattern)
  show ?case
  proof (cases "\<exists>obj. map_of event key = Some (JObj obj)")
    case True
    then obtain obj where obj: "map_of event key = Some (JObj obj)" ..
    have "list_all (leafHolds event \<circ> (\<lambda>(path, l). (key # path, l))) (leaves c) = list_all (leafHolds obj) (leaves c)"
      using leaves_path leafHolds_down [OF obj] by (intro list.pred_cong) auto
    with obj 3 show ?thesis by (simp add: indexMap_def list.pred_map) (simp add: leafHolds_def)
  next
    case False
    then have "\<not> leafHolds event ([key], MustBeObject)"
      by (auto simp: leafHolds_def split: option.splits json.splits)
    moreover have "\<not> matchField (JObj c) (fst (indexMap event key)) (snd (indexMap event key))"
      using False by (auto simp: indexMap_def split: option.splits json.splits) (metis json.exhaust matchField.simps)
    ultimately show ?thesis by (simp add: case_prod_beta)
  qed
qed (auto simp: indexMap_def leafHolds_def split: option.splits)

section \<open>What validation accepts\<close>

fun validMatcher :: "json \<Rightarrow> bool" where
  "validMatcher (JArr _) = False"
| "validMatcher (JObj op) = (op \<noteq> [] \<and> list_all (\<lambda>(opKey, _). opKey \<in> set validOperators) op)"
| "validMatcher _ = True"

fun validLeaf :: "string list \<times> leaf \<Rightarrow> bool" where
  "validLeaf (path, Matchers ms) = (ms \<noteq> [] \<and> list_all validMatcher ms)"
| "validLeaf (path, MustBeObject) = True"
| "validLeaf (path, Malformed) = False"

lemma validateOperatorObject_None: "validateOperatorObject key op = None \<longleftrightarrow> validMatcher (JObj op)"
  by (auto simp: validateOperatorObject_def find_None_iff list_all_iff)

lemma validateElems_None: "validateElems key es = None \<longleftrightarrow> list_all validMatcher es"
proof (induction key es rule: validateElems.induct)
  case (3 key e es)
  then show ?case using validateOperatorObject_None [of key e]
    by (cases "validateOperatorObject key e") (simp_all del: validMatcher.simps(2))
qed simp_all

text \<open>C26: A pattern passes validation exactly if every array of matchers in it, at any depth, is non-empty and
  holds literals or non-empty objects of known operators only, and every other value is a pattern.\<close>

theorem validatePatternObject_complete: "(validatePatternObject pattern = None) = list_all validLeaf (leaves pattern)"
proof (induction pattern rule: leaves.induct)
  case (2 key ms pattern)
  then show ?case using validateElems_None [of key ms]
    by (cases "validateElems key ms") (auto simp: validatePatternArray_def)
next
  case (3 key c pattern)
  have "list_all (validLeaf \<circ> (\<lambda>(path, l). (key # path, l))) (leaves c) = list_all validLeaf (leaves c)"
    by (intro list.pred_cong) (auto elim!: validLeaf.elims)
  with 3 show ?case by (auto simp: list.pred_map split: option.splits)
qed auto

text \<open>\<open>anything-but\<close> with a boolean excludes nothing: although such a pattern passes validation, it matches
  every event that has the key, the excluded value included.\<close>

theorem anything_but_bool_matches_all:
  "validatePatternObject [(key, JArr [JObj [(''anything-but'', JBool b)]])] = None \<and>
   matchObject [(key, JArr [JObj [(''anything-but'', JBool b)]])] [(key, v)]"
  by (simp add: validatePatternArray_def validateOperatorObject_def validOperators_def indexMap_def
      matchArray_def matchOperator_def)

end
