(* ===== verification/Tarn_Calendar.thy ===== *)
theory Tarn_Calendar
  imports Main
begin

text \<open>
  The calendar of Go's \<open>time\<close> package as the schedules use it: days counted from 1 January 1970, the
  proleptic Gregorian calendar, \<open>time.Date\<close> with months and days out of range, weekdays from Sunday, 0.
  An instant is its number of nanoseconds since 1970 in UTC.
\<close>

section \<open>Years\<close>

definition isLeap :: "int \<Rightarrow> bool" where
  "isLeap y \<longleftrightarrow> y mod 4 = 0 \<and> (y mod 100 \<noteq> 0 \<or> y mod 400 = 0)"

text \<open>The day number of 1 January.\<close>

definition yearStart :: "int \<Rightarrow> int" where
  "yearStart y = 365 * (y - 1970) + ((y - 1) div 4 - (y - 1) div 100 + (y - 1) div 400) - 477"

definition yearLength :: "int \<Rightarrow> int" where
  "yearLength y = (if isLeap y then 366 else 365)"

lemma div_step:
  fixes n y :: int
  assumes "0 < n"
  shows "y div n = (y - 1) div n + (if y mod n = 0 then 1 else 0)"
proof (cases "y mod n = 0")
  case True
  then have "y - 1 = n * (y div n - 1) + (n - 1)" using mult_div_mod_eq [of n y] by (simp add: right_diff_distrib)
  then have "(y - 1) div n = y div n - 1" using assms by (intro int_div_pos_eq [of "y - 1" n "y div n - 1" "n - 1"]) auto
  with True show ?thesis by simp
next
  case False
  then have "0 < y mod n" using pos_mod_sign [OF assms, of y] by linarith
  moreover have "y - 1 = n * (y div n) + (y mod n - 1)" using mult_div_mod_eq [of n y] by simp
  ultimately have "(y - 1) div n = y div n" using pos_mod_bound [OF assms, of y]
    by (intro int_div_pos_eq [of "y - 1" n "y div n" "y mod n - 1"]) auto
  with False show ?thesis by simp
qed

lemma leap_cases: "y mod 400 = 0 \<Longrightarrow> y mod 100 = 0" "y mod 100 = 0 \<Longrightarrow> y mod 4 = 0" for y :: int
  using dvd_trans [of 100 400 y] dvd_trans [of 4 100 y] by (simp_all add: mod_eq_0_iff_dvd)

lemma leap_sum: "c \<longrightarrow> b \<Longrightarrow> b \<longrightarrow> a \<Longrightarrow>
    (365 :: int) + (if a then 1 else 0) - (if b then 1 else 0) + (if c then 1 else 0) = (if a \<and> (\<not> b \<or> c) then 366 else 365)"
  by (cases a; cases b; cases c) simp_all

lemma yearStart_Suc: "yearStart (y + 1) = yearStart y + yearLength y"
proof -
  have "yearStart (y + 1) = 365 * (y - 1970) + 365 + (y div 4 - y div 100 + y div 400) - 477" by (simp add: yearStart_def)
  moreover note div_step [of 4 y, simplified] div_step [of 100 y, simplified] div_step [of 400 y, simplified]
  ultimately have "yearStart (y + 1) = yearStart y + (365 + (if y mod 4 = 0 then 1 else 0) - (if y mod 100 = 0 then 1 else 0) +
      (if y mod 400 = 0 then 1 else 0))"
    unfolding yearStart_def by linarith
  also have "365 + (if y mod 4 = 0 then 1 else 0) - (if y mod 100 = 0 then 1 else 0) + (if y mod 400 = 0 then 1 else 0) = yearLength y"
    unfolding yearLength_def isLeap_def by (rule leap_sum) (use leap_cases [of y] in blast)+
  finally show ?thesis .
qed

lemma yearLength_pos: "365 \<le> yearLength y" "yearLength y \<le> 366"
  by (auto simp: yearLength_def)

lemma yearStart_add: "yearStart y + 365 * int n \<le> yearStart (y + int n)"
proof (induction n)
  case (Suc n)
  have "yearStart (y + int (Suc n)) = yearStart (y + int n) + yearLength (y + int n)"
    using yearStart_Suc [of "y + int n"] by (simp add: ac_simps)
  with Suc yearLength_pos(1) [of "y + int n"] show ?case by simp
qed simp

lemma yearStart_mono: "y \<le> z \<Longrightarrow> yearStart y + 365 * (z - y) \<le> yearStart z"
  using yearStart_add [of y "nat (z - y)"] by simp

lemma yearStart_less_iff: "yearStart y < yearStart z \<longleftrightarrow> y < z"
  using yearStart_mono [of y z] yearStart_mono [of z y] by (cases "y < z") auto

text \<open>The year of a day: from an estimate to the year whose days contain it.\<close>

function yearSearch :: "int \<Rightarrow> int \<Rightarrow> int" where
  "yearSearch y day =
     (if day < yearStart y then yearSearch (y - 1) day
      else if yearStart (y + 1) \<le> day then yearSearch (y + 1) day
      else y)"
  by pat_completeness auto
termination
proof (relation "measure (\<lambda>(y, day). nat (yearStart y - day) + nat (day - yearStart (y + 1) + 1))", goal_cases)
  case (2 y day)
  have "yearStart (y - 1) + 365 \<le> yearStart y" using yearStart_mono [of "y - 1" y] by simp
  with 2 show ?case by simp
next
  case (3 y day)
  have "yearStart (y + 1) + 365 \<le> yearStart (y + 1 + 1)" using yearStart_mono [of "y + 1" "y + 1 + 1"] by simp
  with 3 show ?case by simp
qed simp

declare yearSearch.simps [simp del]

lemma yearSearch_correct: "yearStart (yearSearch y day) \<le> day \<and> day < yearStart (yearSearch y day + 1)"
proof (induction y day rule: yearSearch.induct)
  case (1 y day)
  then show ?case by (subst (1 2) yearSearch.simps) auto
qed

definition yearOf :: "int \<Rightarrow> int" where
  "yearOf day = yearSearch (1970 + day * 400 div 146097) day"

lemma yearOf_iff: "yearOf day = y \<longleftrightarrow> yearStart y \<le> day \<and> day < yearStart (y + 1)"
proof -
  have c: "yearStart (yearOf day) \<le> day \<and> day < yearStart (yearOf day + 1)" unfolding yearOf_def by (rule yearSearch_correct)
  moreover have "yearOf day = y" if "yearStart y \<le> day" "day < yearStart (y + 1)"
    using c that yearStart_less_iff [of y "yearOf day + 1"] yearStart_less_iff [of "yearOf day" "y + 1"] by linarith
  ultimately show ?thesis by blast
qed

lemma yearOf_mono: "a \<le> b \<Longrightarrow> yearOf a \<le> yearOf b"
  using yearOf_iff [of a "yearOf a"] yearOf_iff [of b "yearOf b"] yearStart_less_iff [of "yearOf a" "yearOf b + 1"] by auto

section \<open>Months and days\<close>

definition monthLengths :: "int \<Rightarrow> int list" where
  "monthLengths y = [31, if isLeap y then 29 else 28, 31, 30, 31, 30, 31, 31, 30, 31, 30, 31]"

definition monthLength :: "int \<Rightarrow> int \<Rightarrow> int" where
  "monthLength y m = monthLengths y ! nat (m - 1)"

text \<open>\<open>time.Date\<close> at midnight: the month may be out of range, and the day too.\<close>

definition dateDay :: "int \<Rightarrow> int \<Rightarrow> int \<Rightarrow> int" where
  "dateDay y m d = (let y' = y + (m - 1) div 12; k = nat ((m - 1) mod 12) in
     yearStart y' + sum_list (take k (monthLengths y')) + d - 1)"

fun findMonth :: "int \<Rightarrow> int \<Rightarrow> int list \<Rightarrow> int \<times> int" where
  "findMonth m r [] = (m, r + 1)"
| "findMonth m r (n # ns) = (if r < n then (m, r + 1) else findMonth (m + 1) (r - n) ns)"

definition civil :: "int \<Rightarrow> int \<times> int \<times> int" where
  "civil day = (let y = yearOf day; (m, d) = findMonth 1 (day - yearStart y) (monthLengths y) in (y, m, d))"

definition monthOf :: "int \<Rightarrow> int" where "monthOf day = fst (snd (civil day))"

definition dayOf :: "int \<Rightarrow> int" where "dayOf day = snd (snd (civil day))"

text \<open>\<open>Weekday\<close>: 1 January 1970 was a Thursday.\<close>

definition weekdayOf :: "int \<Rightarrow> int" where "weekdayOf day = (day + 4) mod 7"

lemma sum_monthLengths: "sum_list (monthLengths y) = yearLength y"
  by (simp add: monthLengths_def yearLength_def)

lemma findMonth_take:
  "k < length ns \<Longrightarrow> 0 \<le> r \<Longrightarrow> r < ns ! k \<Longrightarrow> list_all (\<lambda>n. 0 \<le> n) ns \<Longrightarrow>
     findMonth m (sum_list (take k ns) + r) ns = (m + int k, r + 1)"
proof (induction k arbitrary: m ns)
  case 0
  then show ?case by (cases ns) auto
next
  case (Suc k)
  then obtain n ns' where ns: "ns = n # ns'" by (cases ns) auto
  with Suc.prems have "0 \<le> sum_list (take k ns')" by (auto intro!: sum_list_nonneg simp: list_all_iff dest: in_set_takeD)
  with Suc ns show ?case by (simp add: add.commute add.left_commute)
qed

lemma month_index: "1 \<le> m \<Longrightarrow> m \<le> 12 \<Longrightarrow> m \<in> {1, 2, 3, 4, 5, 6, 7, 8, 9, 10, 11, 12}" for m :: int
  unfolding insert_iff empty_iff by presburger

text \<open>A date in range is read back.\<close>

lemma civil_dateDay:
  assumes "1 \<le> m" and "m \<le> 12" and "1 \<le> d" and "d \<le> monthLength y m"
  shows "civil (dateDay y m d) = (y, m, d)"
proof -
  let ?k = "nat (m - 1)"
  have k: "?k < 12" "int ?k = m - 1" using assms by auto
  have "(m - 1) div 12 = 0" "(m - 1) mod 12 = m - 1" using assms by auto
  then have day: "dateDay y m d = yearStart y + (sum_list (take ?k (monthLengths y)) + (d - 1))" by (simp add: dateDay_def Let_def)
  have len: "length (monthLengths y) = 12" and nonneg: "list_all (\<lambda>n. 0 \<le> n) (monthLengths y)" by (simp_all add: monthLengths_def)
  have "0 \<le> sum_list (take ?k (monthLengths y))" using nonneg by (auto intro!: sum_list_nonneg simp: list_all_iff dest: in_set_takeD)
  moreover have "sum_list (take ?k (monthLengths y)) + monthLengths y ! ?k + sum_list (drop (Suc ?k) (monthLengths y)) = yearLength y"
    using k(1) len sum_monthLengths [of y] id_take_nth_drop [of ?k "monthLengths y"] by (metis (no_types, lifting) add.assoc sum_list.Cons sum_list.append)
  moreover have "0 \<le> sum_list (drop (Suc ?k) (monthLengths y))" using nonneg by (auto intro!: sum_list_nonneg simp: list_all_iff dest: in_set_dropD)
  ultimately have r: "0 \<le> sum_list (take ?k (monthLengths y)) + (d - 1)" "sum_list (take ?k (monthLengths y)) + (d - 1) < yearLength y"
    using assms(3,4) by (auto simp: monthLength_def)
  then have y: "yearOf (dateDay y m d) = y" unfolding yearOf_iff day yearStart_Suc by simp
  have "findMonth 1 (sum_list (take ?k (monthLengths y)) + (d - 1)) (monthLengths y) = (m, d)"
    using findMonth_take [of ?k "monthLengths y" "d - 1" 1] k len nonneg assms(3,4) by (simp add: monthLength_def)
  with y day show ?thesis by (simp add: civil_def Let_def)
qed

text \<open>Day 0 of the month after is the last day of a month.\<close>

lemma dateDay_last:
  assumes "1 \<le> m" and "m \<le> 12"
  shows "dateDay y (m + 1) 0 = dateDay y m (monthLength y m)"
proof (cases "m = 12")
  case True
  then show ?thesis using yearStart_Suc [of y]
    by (simp add: dateDay_def monthLength_def Let_def monthLengths_def yearLength_def)
next
  case False
  then have "m div 12 = 0" "(m - 1) div 12 = 0" "m mod 12 = m" "(m - 1) mod 12 = m - 1" using assms by auto
  moreover have "take (nat m) (monthLengths y) = take (nat (m - 1)) (monthLengths y) @ [monthLengths y ! nat (m - 1)]"
  proof -
    have "nat m = Suc (nat (m - 1))" "nat (m - 1) < length (monthLengths y)" using assms False by (auto simp: monthLengths_def)
    then show ?thesis using take_Suc_conv_app_nth [of "nat (m - 1)" "monthLengths y"] by simp
  qed
  ultimately show ?thesis by (simp add: dateDay_def monthLength_def Let_def)
qed

lemma monthLength_range: "1 \<le> m \<Longrightarrow> m \<le> 12 \<Longrightarrow> 28 \<le> monthLength y m \<and> monthLength y m \<le> 31"
  using month_index [of m] by (auto simp: monthLength_def monthLengths_def)

section \<open>Instants\<close>

definition minuteNs :: int where "minuteNs = 60 * 1000000000"

definition dayNs :: int where "dayNs = 1440 * minuteNs"

text \<open>\<open>Truncate(time.Minute)\<close>, and the parts of an instant.\<close>

definition truncMinute :: "int \<Rightarrow> int" where "truncMinute t = t - t mod minuteNs"

definition dayIndex :: "int \<Rightarrow> int" where "dayIndex t = t div dayNs"

definition Year :: "int \<Rightarrow> int" where "Year t = yearOf (dayIndex t)"

definition Month :: "int \<Rightarrow> int" where "Month t = monthOf (dayIndex t)"

definition Day :: "int \<Rightarrow> int" where "Day t = dayOf (dayIndex t)"

definition Weekday :: "int \<Rightarrow> int" where "Weekday t = weekdayOf (dayIndex t)"

definition Hour :: "int \<Rightarrow> int" where "Hour t = t mod dayNs div (60 * minuteNs)"

definition Minute :: "int \<Rightarrow> int" where "Minute t = t mod (60 * minuteNs) div minuteNs"

lemma Year_mono: "a \<le> b \<Longrightarrow> Year a \<le> Year b"
  unfolding Year_def dayIndex_def by (intro yearOf_mono zdiv_mono1) (simp_all add: dayNs_def minuteNs_def)

lemma div_less_iff_mult: "0 < d \<Longrightarrow> t div d < n \<longleftrightarrow> t < n * d" for t d n :: int
proof -
  assume d: "0 < d"
  have "n \<le> t div d" if "n * d \<le> t" using zdiv_mono1 [OF that d] d by simp
  moreover have "n * d \<le> t" if "n \<le> t div d"
  proof -
    have "n * d \<le> t div d * d" using that d by (simp add: mult_right_mono)
    also have "\<dots> \<le> t" using div_mult_mod_eq [of t d] pos_mod_sign [OF d, of t] by linarith
    finally show ?thesis .
  qed
  ultimately show ?thesis by (meson not_less)
qed

lemma Year_bound: "t < yearStart (y + 1) * dayNs \<longleftrightarrow> Year t \<le> y"
proof -
  have "0 < dayNs" by (simp add: dayNs_def minuteNs_def)
  then have "t < yearStart (y + 1) * dayNs \<longleftrightarrow> dayIndex t < yearStart (y + 1)" unfolding dayIndex_def by (simp add: div_less_iff_mult)
  also have "\<dots> \<longleftrightarrow> yearOf (dayIndex t) \<le> y"
  proof -
    have "yearStart (yearOf (dayIndex t)) \<le> dayIndex t" "dayIndex t < yearStart (yearOf (dayIndex t) + 1)"
      using yearOf_iff [of "dayIndex t"] by blast+
    moreover have "yearStart (yearOf (dayIndex t) + 1) \<le> yearStart (y + 1)" if "yearOf (dayIndex t) \<le> y"
      using yearStart_mono [of "yearOf (dayIndex t) + 1" "y + 1"] that by simp
    moreover have "yearStart (y + 1) \<le> yearStart (yearOf (dayIndex t))" if "y < yearOf (dayIndex t)"
      using yearStart_mono [of "y + 1" "yearOf (dayIndex t)"] that by simp
    ultimately show ?thesis by (cases "yearOf (dayIndex t) \<le> y") auto
  qed
  finally show ?thesis by (simp add: Year_def)
qed

section \<open>Every day has a date\<close>

lemma findMonth_inverse:
  assumes "0 \<le> r" and "r < sum_list ns"
  shows "\<exists>k d. findMonth m r ns = (m + int k, d) \<and> k < length ns \<and> 1 \<le> d \<and> d \<le> ns ! k \<and> sum_list (take k ns) + d - 1 = r"
  using assms
proof (induction ns arbitrary: m r)
  case (Cons n ns)
  show ?case
  proof (cases "r < n")
    case True
    with Cons.prems show ?thesis by (intro exI [of _ 0] exI [of _ "r + 1"]) auto
  next
    case False
    with Cons.prems have "0 \<le> r - n" "r - n < sum_list ns" by auto
    from Cons.IH [OF this, of "m + 1"] obtain k d where "findMonth (m + 1) (r - n) ns = (m + 1 + int k, d)"
      "k < length ns" "1 \<le> d" "d \<le> ns ! k" "sum_list (take k ns) + d - 1 = r - n" by blast
    with False show ?thesis by (intro exI [of _ "Suc k"] exI [of _ d]) auto
  qed
qed simp

lemma civil_valid:
  assumes "civil day = (y, m, d)"
  shows "1 \<le> m \<and> m \<le> 12 \<and> 1 \<le> d \<and> d \<le> monthLength y m \<and> dateDay y m d = day"
proof -
  have y: "y = yearOf day" using assms by (simp add: civil_def Let_def split: prod.splits)
  then have "yearStart y \<le> day" "day < yearStart y + yearLength y" using yearOf_iff [of day y] yearStart_Suc [of y] by auto
  then obtain k d' where f: "findMonth 1 (day - yearStart y) (monthLengths y) = (1 + int k, d')" "k < length (monthLengths y)"
    "1 \<le> d'" "d' \<le> monthLengths y ! k" "sum_list (take k (monthLengths y)) + d' - 1 = day - yearStart y"
    using findMonth_inverse [of "day - yearStart y" "monthLengths y" 1] by (auto simp: sum_monthLengths)
  then have md: "m = 1 + int k" "d = d'" using assms y by (auto simp: civil_def Let_def)
  moreover have "k < 12" using f(2) by (simp add: monthLengths_def)
  ultimately show ?thesis using f by (simp add: monthLength_def dateDay_def Let_def)
qed

lemma date_valid:
  "1 \<le> Month t" "Month t \<le> 12" "1 \<le> Day t" "Day t \<le> monthLength (Year t) (Month t)"
  "dateDay (Year t) (Month t) (Day t) = dayIndex t"
proof -
  obtain y m d where c: "civil (dayIndex t) = (y, m, d)" by (cases "civil (dayIndex t)") auto
  then have "y = yearOf (dayIndex t)" by (simp add: civil_def Let_def split: prod.splits)
  with c civil_valid [OF c] show "1 \<le> Month t" "Month t \<le> 12" "1 \<le> Day t" "Day t \<le> monthLength (Year t) (Month t)"
    "dateDay (Year t) (Month t) (Day t) = dayIndex t"
    by (simp_all add: Month_def Day_def Year_def monthOf_def dayOf_def)
qed

lemma dateDay_shift: "dateDay y m (d + n) = dateDay y m d + n"
  by (simp add: dateDay_def Let_def)

end
