(* ===== verification/EB_Schedule.thy ===== *)
theory EB_Schedule
  imports Tarn_Prelude Tarn_Calendar
begin

text \<open>
  Schedule expressions of EventBridge (\<open>internal/eventbridge/schedule.go\<close>): parsing of rate and cron
  expressions, the instants a cron schedule matches and the next run after an instant. Fields are sets of
  numbers as lists; errors are texts. The two regular expressions are written as recognisers of the texts
  they match.
\<close>

section \<open>Data\<close>

record simpleField =
  sf_any :: bool
  sf_values :: "int list"

record dayOfMonthField =
  dom_noSpec :: bool
  dom_any :: bool
  dom_values :: "int list"
  lastDay :: bool
  lastWeekday :: bool
  nearestWeekd :: "int list"

record dayOfWeekField =
  dow_noSpec :: bool
  dow_any :: bool
  dow_values :: "int list"
  lastWeekdays :: "int list"
  nthWeekdays :: "(int \<times> int) list"

record cronSchedule =
  minutes :: simpleField
  hours :: simpleField
  months :: simpleField
  years :: simpleField
  dom :: dayOfMonthField
  dow :: dayOfWeekField

datatype compiledSchedule = Rate int | Cron cronSchedule

definition monthNames :: "(string \<times> int) list" where
  "monthNames = [(''JAN'', 1), (''FEB'', 2), (''MAR'', 3), (''APR'', 4), (''MAY'', 5), (''JUN'', 6), (''JUL'', 7), (''AUG'', 8),
     (''SEP'', 9), (''OCT'', 10), (''NOV'', 11), (''DEC'', 12)]"

definition dowNames :: "(string \<times> int) list" where
  "dowNames = [(''SUN'', 1), (''MON'', 2), (''TUE'', 3), (''WED'', 4), (''THU'', 5), (''FRI'', 6), (''SAT'', 7)]"

section \<open>Numbers, ranges and steps\<close>

text \<open>\<open>strings.SplitN\<close> into at most two parts.\<close>

definition splitN2 :: "char \<Rightarrow> string \<Rightarrow> string list" where
  "splitN2 c s = (case dropWhile (\<lambda>x. x \<noteq> c) s of [] \<Rightarrow> [s] | _ # b \<Rightarrow> [takeWhile (\<lambda>x. x \<noteq> c) s, b])"

definition parseNamedOrNumeric :: "string \<Rightarrow> int \<Rightarrow> int \<Rightarrow> (string \<times> int) list \<Rightarrow> bool \<Rightarrow> string + int" where
  "parseNamedOrNumeric raw lo hi names normalizeDow =
     (let raw' = toUpper (trimSpace raw) in
      case map_of names raw' of
        Some v \<Rightarrow> Inr v
      | None \<Rightarrow> (case atoi raw' of
            None \<Rightarrow> Inl (''invalid value '' @ goQuote raw')
          | Some n \<Rightarrow>
              let n' = (if normalizeDow \<and> n = 0 then 1 else n) in
              if n' < lo \<or> n' > hi then Inl (''value '' @ itoa n' @ '' out of range ['' @ itoa lo @ '','' @ itoa hi @ '']'')
              else Inr n'))"

definition parseRange :: "string \<Rightarrow> int \<Rightarrow> int \<Rightarrow> (string \<times> int) list \<Rightarrow> bool \<Rightarrow> string + int \<times> int" where
  "parseRange token lo hi names normalizeDow =
     (case splitN2 CHR ''-'' token of
        [a, b] \<Rightarrow>
          rbind (parseNamedOrNumeric a lo hi names normalizeDow) (\<lambda>start.
          rbind (parseNamedOrNumeric b lo hi names normalizeDow) (\<lambda>stop.
            if stop < start then Inl (''invalid descending range '' @ goQuote token) else Inr (start, stop)))
      | _ \<Rightarrow> Inl (''invalid range token '' @ goQuote token))"

text \<open>The loop over the values of a step; the addition wraps around for steps near the largest integer. The
  first argument bounds the rounds, see \<open>stepValues_fuel\<close>.\<close>

fun stepLoop :: "nat \<Rightarrow> int \<Rightarrow> int \<Rightarrow> int \<Rightarrow> int list" where
  "stepLoop 0 v stop step = []"
| "stepLoop (Suc n) v stop step = (if v \<le> stop then v # stepLoop n (wrap64 (v + step)) stop step else [])"

definition stepFuel :: "int \<Rightarrow> nat" where "stepFuel stop = nat (stop + 4)"

definition stepValues :: "int \<Rightarrow> int \<Rightarrow> int \<Rightarrow> int list" where
  "stepValues start stop step = stepLoop (stepFuel stop) start stop step"

definition expandSimpleToken :: "string \<Rightarrow> int \<Rightarrow> int \<Rightarrow> (string \<times> int) list \<Rightarrow> bool \<Rightarrow> string + int list" where
  "expandSimpleToken raw lo hi names normalizeDow =
     (let token = trimSpace (toUpper raw) in
      if token = '''' then Inl ''empty token''
      else if CHR ''/'' \<in> set token then
        (case splitN2 CHR ''/'' token of
           [base, stepText] \<Rightarrow>
             (case atoi stepText of
                None \<Rightarrow> Inl (''invalid increment value in '' @ goQuote token)
              | Some step \<Rightarrow>
                  if step \<le> 0 then Inl (''invalid increment value in '' @ goQuote token)
                  else rbind
                    (if base = ''*'' then Inr (lo, hi)
                     else if CHR ''-'' \<in> set base then parseRange base lo hi names normalizeDow
                     else rbind (parseNamedOrNumeric base lo hi names normalizeDow) (\<lambda>v. Inr (v, hi)))
                    (\<lambda>(start, stop). let vals = stepValues start stop step in
                      if vals = [] then Inl (''empty increment set in '' @ goQuote token) else Inr vals))
         | _ \<Rightarrow> Inl (''invalid increment token '' @ goQuote token))
      else if CHR ''-'' \<in> set token then
        rbind (parseRange token lo hi names normalizeDow) (\<lambda>(a, b). Inr [a..b])
      else rbind (parseNamedOrNumeric token lo hi names normalizeDow) (\<lambda>v. Inr [v]))"

section \<open>Fields\<close>

fun simpleSegments :: "int \<Rightarrow> int \<Rightarrow> (string \<times> int) list \<Rightarrow> string list \<Rightarrow> string + int list" where
  "simpleSegments lo hi names [] = Inr []"
| "simpleSegments lo hi names (segment # rest) =
     (let seg = trimSpace segment in
      if seg = '''' then Inl ''invalid list token''
      else rbind (expandSimpleToken seg lo hi names False) (\<lambda>vs.
           rbind (simpleSegments lo hi names rest) (\<lambda>ws. Inr (vs @ ws))))"

definition parseSimpleField :: "string \<Rightarrow> int \<Rightarrow> int \<Rightarrow> (string \<times> int) list \<Rightarrow> bool \<Rightarrow> string + simpleField" where
  "parseSimpleField raw lo hi names allowQuestion =
     (let field = toUpper (trimSpace raw) in
      if field = '''' then Inl ''empty field''
      else if allowQuestion \<and> field = ''?'' then Inr \<lparr>sf_any = True, sf_values = []\<rparr>
      else if field = ''*'' then Inr \<lparr>sf_any = True, sf_values = []\<rparr>
      else rbind (simpleSegments lo hi names (splitOn CHR '','' field)) (\<lambda>vs.
        if vs = [] then Inl ''no values'' else Inr \<lparr>sf_any = False, sf_values = vs\<rparr>))"

definition emptyDom :: dayOfMonthField where
  "emptyDom = \<lparr>dom_noSpec = False, dom_any = False, dom_values = [], lastDay = False, lastWeekday = False, nearestWeekd = []\<rparr>"

definition domSegment :: "string \<Rightarrow> dayOfMonthField \<Rightarrow> string + dayOfMonthField" where
  "domSegment seg field =
     (if seg = ''*'' then Inr (field\<lparr>dom_any := True\<rparr>)
      else if seg = ''L'' then Inr (field\<lparr>lastDay := True\<rparr>)
      else if seg = ''LW'' then Inr (field\<lparr>lastWeekday := True\<rparr>)
      else if hasSuffix seg ''W'' then
        (case atoi (trimSuffix seg ''W'') of
           None \<Rightarrow> Inl (''invalid W token '' @ goQuote seg)
         | Some day \<Rightarrow>
             if day < 1 \<or> day > 31 then Inl (''w token out of range '' @ goQuote seg)
             else Inr (field\<lparr>nearestWeekd := nearestWeekd field @ [day]\<rparr>))
      else if CHR ''L'' \<in> set seg \<or> CHR ''#'' \<in> set seg then Inl (''unsupported day-of-month token '' @ goQuote seg)
      else rbind (expandSimpleToken seg 1 31 [] False) (\<lambda>vs. Inr (field\<lparr>dom_values := dom_values field @ vs\<rparr>)))"

text \<open>The loop over the segments of a list, which must not be empty.\<close>

fun overSegments :: "(string \<Rightarrow> 'f \<Rightarrow> string + 'f) \<Rightarrow> string list \<Rightarrow> 'f \<Rightarrow> string + 'f" where
  "overSegments f [] field = Inr field"
| "overSegments f (segment # rest) field =
     (let seg = trimSpace segment in
      if seg = '''' then Inl ''invalid list token'' else rbind (f seg field) (overSegments f rest))"

definition parseDayOfMonthField :: "string \<Rightarrow> string + dayOfMonthField" where
  "parseDayOfMonthField raw =
     (let field = toUpper (trimSpace raw) in
      if field = ''?'' then Inr (emptyDom\<lparr>dom_noSpec := True\<rparr>)
      else rbind (overSegments domSegment (splitOn CHR '','' field) emptyDom) (\<lambda>f.
        if \<not> dom_any f \<and> dom_values f = [] \<and> \<not> lastDay f \<and> \<not> lastWeekday f \<and> nearestWeekd f = []
        then Inl ''day-of-month has no values'' else Inr f))"

definition emptyDow :: dayOfWeekField where
  "emptyDow = \<lparr>dow_noSpec = False, dow_any = False, dow_values = [], lastWeekdays = [], nthWeekdays = []\<rparr>"

definition dowSegment :: "string \<Rightarrow> dayOfWeekField \<Rightarrow> string + dayOfWeekField" where
  "dowSegment seg field =
     (if seg = ''*'' then Inr (field\<lparr>dow_any := True\<rparr>)
      else if seg = ''L'' then Inr (field\<lparr>lastWeekdays := lastWeekdays field @ [7]\<rparr>)
      else if CHR ''#'' \<in> set seg then
        (case splitN2 CHR ''#'' seg of
           [a, b] \<Rightarrow> (case parseNamedOrNumeric a 1 7 dowNames True of
               Inl _ \<Rightarrow> Inl (''invalid # weekday '' @ goQuote seg)
             | Inr weekday \<Rightarrow> (case atoi b of
                   None \<Rightarrow> Inl (''invalid # nth value '' @ goQuote seg)
                 | Some k \<Rightarrow>
                     if k < 1 \<or> k > 5 then Inl (''invalid # nth value '' @ goQuote seg)
                     else Inr (field\<lparr>nthWeekdays := nthWeekdays field @ [(weekday, k)]\<rparr>)))
         | _ \<Rightarrow> Inl (''invalid # token '' @ goQuote seg))
      else if hasSuffix seg ''L'' then
        (case parseNamedOrNumeric (trimSuffix seg ''L'') 1 7 dowNames True of
           Inl _ \<Rightarrow> Inl (''invalid L token '' @ goQuote seg)
         | Inr weekday \<Rightarrow> Inr (field\<lparr>lastWeekdays := lastWeekdays field @ [weekday]\<rparr>))
      else rbind (expandSimpleToken seg 1 7 dowNames True) (\<lambda>vs. Inr (field\<lparr>dow_values := dow_values field @ vs\<rparr>)))"

definition parseDayOfWeekField :: "string \<Rightarrow> string + dayOfWeekField" where
  "parseDayOfWeekField raw =
     (let field = toUpper (trimSpace raw) in
      if field = ''?'' then Inr (emptyDow\<lparr>dow_noSpec := True\<rparr>)
      else rbind (overSegments dowSegment (splitOn CHR '','' field) emptyDow) (\<lambda>f.
        if \<not> dow_any f \<and> dow_values f = [] \<and> lastWeekdays f = [] \<and> nthWeekdays f = []
        then Inl ''day-of-week has no values'' else Inr f))"

section \<open>Expressions\<close>

text \<open>\<open>strings.Fields\<close>.\<close>

function fields :: "string \<Rightarrow> string list" where
  "fields s = (let t = dropWhile isSpace s in
     if t = [] then [] else takeWhile (\<lambda>c. \<not> isSpace c) t # fields (dropWhile (\<lambda>c. \<not> isSpace c) t))"
  by pat_completeness auto
termination
proof (relation "measure length", goal_cases)
  case (2 s t)
  have "t \<noteq> []" "\<not> isSpace (hd t)" using 2 hd_dropWhile [of isSpace s] by auto
  then have "length (dropWhile (\<lambda>c. \<not> isSpace c) t) < length t"
    by (cases t) (auto intro: le_imp_less_Suc length_dropWhile_le)
  also have "\<dots> \<le> length s" using 2 by (simp add: length_dropWhile_le)
  finally show ?case by simp
qed simp

declare fields.simps [simp del]

definition inField :: "string \<Rightarrow> string + 'a \<Rightarrow> string + 'a" where
  "inField name r = (case r of Inl e \<Rightarrow> Inl (''invalid cron '' @ name @ '' field: '' @ e) | Inr v \<Rightarrow> Inr v)"

definition parseCronFields :: "string \<Rightarrow> string + cronSchedule" where
  "parseCronFields raw = (case fields (trimSpace raw) of
      [p0, p1, p2, p3, p4, p5] \<Rightarrow>
        rbind (inField ''minute'' (parseSimpleField p0 0 59 [] False)) (\<lambda>mi.
        rbind (inField ''hour'' (parseSimpleField p1 0 23 [] False)) (\<lambda>ho.
        rbind (inField ''day-of-month'' (parseDayOfMonthField p2)) (\<lambda>dm.
        rbind (inField ''month'' (parseSimpleField p3 1 12 monthNames False)) (\<lambda>mo.
        rbind (inField ''day-of-week'' (parseDayOfWeekField p4)) (\<lambda>dw.
        rbind (inField ''year'' (parseSimpleField p5 1970 2199 [] False)) (\<lambda>ye.
          if dom_noSpec dm = dow_noSpec dw
          then Inl ''day-of-month and day-of-week cannot both be specified or both be ?''
          else Inr \<lparr>minutes = mi, hours = ho, months = mo, years = ye, dom = dm, dow = dw\<rparr>))))))
    | parts \<Rightarrow> Inl (''invalid cron expression: expected 6 fields, got '' @ itoa (int (length parts))))"

text \<open>The blanks of the regular expressions.\<close>

definition reSpace :: "char \<Rightarrow> bool" where
  "reSpace c \<longleftrightarrow> c \<in> {CHR 0x09, CHR 0x0A, CHR 0x0C, CHR 0x0D, CHR '' ''}"

definition rateUnits :: "string list" where
  "rateUnits = [''minute'', ''minutes'', ''hour'', ''hours'', ''day'', ''days'']"

text \<open>\<open>rateExprRE\<close>: the digits and the unit of \<open>rate(digits unit)\<close>.\<close>

definition rateExpr :: "string \<Rightarrow> (string \<times> string) option" where
  "rateExpr expr =
     (let body = dropWhile reSpace (drop 5 expr); digits = takeWhile isDigit body; rest = dropWhile isDigit body;
          word = dropWhile reSpace rest; unit = takeWhile (\<lambda>c. \<not> reSpace c \<and> c \<noteq> CHR '')'') word;
          tail = dropWhile reSpace (drop (length unit) word) in
      if toLower (take 5 expr) = ''rate('' \<and> digits \<noteq> [] \<and> word \<noteq> rest \<and> toLower unit \<in> set rateUnits \<and> tail = '')''
      then Some (digits, unit) else None)"

text \<open>\<open>cronExprRE\<close>: what stands between the parentheses; a dot does not match a newline.\<close>

definition cronExpr :: "string \<Rightarrow> string option" where
  "cronExpr expr =
     (let body = butlast (drop 5 expr) in
      if toLower (take 5 expr) = ''cron('' \<and> hasSuffix (drop 5 expr) '')'' \<and> body \<noteq> [] \<and> CHR 0x0A \<notin> set body
      then Some body else None)"

definition parseRateExpression :: "string \<Rightarrow> string \<Rightarrow> string + int" where
  "parseRateExpression valuePart unitPart =
     (case atoi valuePart of
        None \<Rightarrow> Inl (''invalid rate value '' @ goQuote valuePart)
      | Some n \<Rightarrow>
          let unit = toLower unitPart; singular = trimSuffix unit ''s'' in
          if n < 1 then Inl (''invalid rate value '' @ goQuote valuePart)
          else if n = 1 \<and> hasSuffix unit ''s'' then Inl ''rate(1 ...) must use singular unit''
          else if n \<noteq> 1 \<and> \<not> hasSuffix unit ''s'' then Inl (''rate('' @ itoa n @ '' ...) must use plural unit'')
          else if singular = ''minute'' then Inr (wrap64 (n * minuteNs))
          else if singular = ''hour'' then Inr (wrap64 (n * (60 * minuteNs)))
          else if singular = ''day'' then Inr (wrap64 (wrap64 (n * 24) * (60 * minuteNs)))
          else Inl (''invalid rate unit '' @ goQuote unitPart))"

definition parseScheduleExpression :: "string \<Rightarrow> string + compiledSchedule" where
  "parseScheduleExpression raw =
     (let expr = trimSpace raw in
      if expr = '''' then Inl ''parameter ScheduleExpression is required''
      else (case rateExpr expr of
          Some (num, unit) \<Rightarrow> rbind (parseRateExpression num unit) (\<lambda>interval. Inr (Rate interval))
        | None \<Rightarrow> (case cronExpr expr of
              Some body \<Rightarrow> rbind (parseCronFields body) (\<lambda>cron. Inr (Cron cron))
            | None \<Rightarrow> Inl (''invalid ScheduleExpression '' @ goQuote expr @ '': expected rate(...) or cron(...)''))))"

definition validateScheduleExpression :: "string \<Rightarrow> string option" where
  "validateScheduleExpression expr = (case parseScheduleExpression expr of Inl e \<Rightarrow> Some e | Inr _ \<Rightarrow> None)"

section \<open>Matching an instant\<close>

definition simpleMatches :: "simpleField \<Rightarrow> int \<Rightarrow> bool" where
  "simpleMatches f v \<longleftrightarrow> sf_any f \<or> v \<in> set (sf_values f)"

definition daysInMonth :: "int \<Rightarrow> int \<Rightarrow> int" where
  "daysInMonth year month = dayOf (dateDay year (month + 1) 0)"

definition awsWeekday :: "int \<Rightarrow> int" where
  "awsWeekday wd = (if wd = 0 then 1 else wd + 1)"

definition weekday :: "int \<Rightarrow> int \<Rightarrow> int \<Rightarrow> int" where
  "weekday year month day = weekdayOf (dateDay year month day)"

text \<open>The loops over the days of a month, from its last day and from its first.\<close>

definition lastWeekdayOfMonth :: "int \<Rightarrow> int \<Rightarrow> int" where
  "lastWeekdayOfMonth year month =
     (case find (\<lambda>day. weekday year month day \<noteq> 6 \<and> weekday year month day \<noteq> 0) (rev [1..daysInMonth year month]) of
        Some day \<Rightarrow> day
      | None \<Rightarrow> 1)"

definition nearestWeekday :: "int \<Rightarrow> int \<Rightarrow> int \<Rightarrow> int" where
  "nearestWeekday year month day =
     (let final = daysInMonth year month; wd = weekday year month day in
      if day < 1 \<or> day > final then -1
      else if wd = 6 then (if day = 1 then 3 else day - 1)
      else if wd = 0 then (if day = final then day - 2 else day + 1)
      else day)"

fun nthLoop :: "(int \<Rightarrow> bool) \<Rightarrow> int \<Rightarrow> int \<Rightarrow> int list \<Rightarrow> int" where
  "nthLoop P k count [] = -1"
| "nthLoop P k count (day # days) =
     (if \<not> P day then nthLoop P k count days
      else if count + 1 = k then day
      else nthLoop P k (count + 1) days)"

definition nthWeekdayOccurrence :: "int \<Rightarrow> int \<Rightarrow> int \<Rightarrow> int \<Rightarrow> int" where
  "nthWeekdayOccurrence year month wd k =
     (if k < 1 \<or> k > 5 then -1
      else nthLoop (\<lambda>day. awsWeekday (weekday year month day) = wd) k 0 [1..daysInMonth year month])"

definition lastWeekdayOccurrence :: "int \<Rightarrow> int \<Rightarrow> int \<Rightarrow> int" where
  "lastWeekdayOccurrence year month wd =
     (case find (\<lambda>day. awsWeekday (weekday year month day) = wd) (rev [1..daysInMonth year month]) of
        Some day \<Rightarrow> day
      | None \<Rightarrow> -1)"

definition domMatches :: "dayOfMonthField \<Rightarrow> int \<Rightarrow> bool" where
  "domMatches f ts \<longleftrightarrow> dom_noSpec f \<or> dom_any f \<or>
     (let year = Year ts; month = Month ts; day = Day ts in
      day \<in> set (dom_values f) \<or> (lastDay f \<and> day = daysInMonth year month) \<or>
      (lastWeekday f \<and> day = lastWeekdayOfMonth year month) \<or>
      list_ex (\<lambda>base. day = nearestWeekday year month base) (nearestWeekd f))"

definition dowMatches :: "dayOfWeekField \<Rightarrow> int \<Rightarrow> bool" where
  "dowMatches f ts \<longleftrightarrow> dow_noSpec f \<or> dow_any f \<or>
     (let wd = awsWeekday (Weekday ts); day = Day ts; year = Year ts; month = Month ts in
      wd \<in> set (dow_values f) \<or>
      list_ex (\<lambda>want. wd = want \<and> day = lastWeekdayOccurrence year month want) (lastWeekdays f) \<or>
      list_ex (\<lambda>(want, k). wd = want \<and> day = nthWeekdayOccurrence year month want k) (nthWeekdays f))"

definition cronMatches :: "cronSchedule \<Rightarrow> int \<Rightarrow> bool" where
  "cronMatches c ts \<longleftrightarrow>
     simpleMatches (minutes c) (Minute ts) \<and> simpleMatches (hours c) (Hour ts) \<and> simpleMatches (months c) (Month ts) \<and>
     simpleMatches (years c) (Year ts) \<and> (if dom_noSpec (dom c) then dowMatches (dow c) ts else domMatches (dom c) ts)"

section \<open>The next run\<close>

text \<open>\<open>Sub\<close> of instants saturates at the range of a duration.\<close>

definition timeSub :: "int \<Rightarrow> int \<Rightarrow> int" where
  "timeSub a b = max (- (2 ^ 63)) (min (2 ^ 63 - 1) (a - b))"

definition nextRateRun :: "int \<Rightarrow> int \<Rightarrow> int \<Rightarrow> int" where
  "nextRateRun anchor interval after =
     (if interval \<le> 0 then truncMinute after + minuteNs
      else let anchorUTC = truncMinute anchor; afterUTC = truncMinute after in
        if anchorUTC > afterUTC then anchorUTC
        else let steps = wrap64 (timeSub afterUTC anchorUTC div interval + 1) in anchorUTC + wrap64 (steps * interval))"

text \<open>The loop of \<open>nextAfter\<close>, minute by minute until the year is past the last one.\<close>

function cronSearch :: "cronSchedule \<Rightarrow> int \<Rightarrow> string + int" where
  "cronSearch c candidate =
     (if Year candidate > 2199 then Inl ''no next execution time found''
      else if cronMatches c candidate then Inr candidate
      else cronSearch c (candidate + minuteNs))"
  by pat_completeness auto
termination
proof (relation "measure (\<lambda>(c, t). nat (yearStart 2200 * dayNs - t))", goal_cases)
  case (2 c t)
  then have "t < yearStart 2200 * dayNs" using Year_bound [of t 2199] by simp
  then show ?case by (simp add: minuteNs_def)
qed simp

declare cronSearch.simps [simp del]

definition nextAfter :: "cronSchedule \<Rightarrow> int \<Rightarrow> string + int" where
  "nextAfter c after = cronSearch c (truncMinute after + minuteNs)"

definition computeNextRun :: "string \<Rightarrow> int \<Rightarrow> int \<Rightarrow> string + int" where
  "computeNextRun expr anchor after =
     rbind (parseScheduleExpression expr) (\<lambda>compiled. case compiled of
        Rate interval \<Rightarrow> Inr (nextRateRun anchor interval after)
      | Cron c \<Rightarrow> nextAfter c after)"

end
