(* ===== verification/EB_NextRun.thy ===== *)
theory EB_NextRun
  imports EB_Schedule
begin

text \<open>
  What schedules promise: a cron schedule runs at the first matching minute, a rate at the first multiple of
  its interval, the day fields mean what their names say, and a printed field is parsed back.
\<close>

section \<open>Cron\<close>

definition wholeMinute :: "int \<Rightarrow> bool" where "wholeMinute t \<longleftrightarrow> t mod minuteNs = 0"

text \<open>The instants a cron schedule runs at.\<close>

definition runs :: "cronSchedule \<Rightarrow> int \<Rightarrow> bool" where
  "runs c t \<longleftrightarrow> wholeMinute t \<and> Year t \<le> 2199 \<and> cronMatches c t"

lemma minuteNs_pos: "0 < minuteNs"
  by (simp add: minuteNs_def)

lemma wholeMinute_add: "wholeMinute (t + minuteNs) = wholeMinute t"
  by (simp add: wholeMinute_def)

lemma wholeMinute_next:
  assumes "wholeMinute t" and "wholeMinute v" and "t < v"
  shows "t + minuteNs \<le> v"
proof -
  obtain a b where ab: "t = minuteNs * a" "v = minuteNs * b" using assms(1,2) unfolding wholeMinute_def by (meson dvdE mod_eq_0_iff_dvd)
  with assms(3) minuteNs_pos have "a + 1 \<le> b" by simp
  with minuteNs_pos have "minuteNs * (a + 1) \<le> minuteNs * b" by (intro mult_left_mono) simp_all
  with ab show ?thesis by (simp add: distrib_left)
qed

lemma wholeMinute_trunc: "wholeMinute (truncMinute t)"
  by (simp add: wholeMinute_def truncMinute_def mod_diff_left_eq [symmetric])

lemma after_iff: "wholeMinute v \<Longrightarrow> t < v \<longleftrightarrow> truncMinute t + minuteNs \<le> v"
proof -
  assume v: "wholeMinute v"
  have t: "truncMinute t \<le> t" "t < truncMinute t + minuteNs"
    using pos_mod_sign [OF minuteNs_pos, of t] pos_mod_bound [OF minuteNs_pos, of t] by (auto simp: truncMinute_def)
  have "truncMinute t + minuteNs \<le> v" if "t < v" using wholeMinute_next [OF wholeMinute_trunc v, of t] t(1) that by linarith
  with t(2) show ?thesis by linarith
qed

lemma cronSearch_Inr: "cronSearch c t = Inr u \<Longrightarrow> wholeMinute t \<Longrightarrow> runs c u \<and> t \<le> u \<and> (\<forall>v. runs c v \<and> t \<le> v \<longrightarrow> u \<le> v)"
proof (induction c t rule: cronSearch.induct)
  case (1 c t)
  show ?case
  proof (cases "Year t \<le> 2199 \<and> \<not> cronMatches c t")
    case True
    with "1.prems" have "cronSearch c (t + minuteNs) = Inr u" by (simp add: cronSearch.simps [of c t])
    with "1.IH" True "1.prems"(2) have ih: "runs c u" "t + minuteNs \<le> u" "\<And>v. runs c v \<Longrightarrow> t + minuteNs \<le> v \<Longrightarrow> u \<le> v"
      by (auto simp: wholeMinute_add not_less)
    have "t + minuteNs \<le> v" if "runs c v" "t \<le> v" for v
      using that True wholeMinute_next [OF "1.prems"(2), of v] by (cases "t = v") (auto simp: runs_def)
    with ih minuteNs_pos show ?thesis by auto
  next
    case False
    with "1.prems" show ?thesis by (auto simp: cronSearch.simps [of c t] runs_def split: if_splits)
  qed
qed

lemma cronSearch_Inl: "cronSearch c t = Inl e \<Longrightarrow> wholeMinute t \<Longrightarrow> t \<le> v \<Longrightarrow> \<not> runs c v"
proof (induction c t rule: cronSearch.induct)
  case (1 c t)
  show ?case
  proof (cases "Year t \<le> 2199")
    case True
    with "1.prems" have n: "cronSearch c (t + minuteNs) = Inl e" "\<not> cronMatches c t" by (auto simp: cronSearch.simps [of c t] split: if_splits)
    show ?thesis
    proof (cases "t = v")
      case False
      with "1.prems"(3) have "runs c v \<Longrightarrow> t + minuteNs \<le> v" using wholeMinute_next [OF "1.prems"(2), of v] by (auto simp: runs_def)
      with "1.IH" True n "1.prems"(2) show ?thesis by (auto simp: wholeMinute_add)
    qed (use n in \<open>simp add: runs_def\<close>)
  next
    case False
    with Year_mono [OF "1.prems"(3)] show ?thesis by (simp add: runs_def)
  qed
qed

text \<open>C9: The next run of a cron schedule is the first whole minute after the given instant that the schedule
  matches, and the search fails exactly when there is none up to the year 2199. The search always returns.\<close>

theorem cron_next_is_first:
  "(nextAfter c after = Inr t \<longleftrightarrow> runs c t \<and> after < t \<and> (\<forall>v. runs c v \<and> after < v \<longrightarrow> t \<le> v)) \<and>
   ((\<exists>e. nextAfter c after = Inl e) \<longleftrightarrow> (\<forall>v. runs c v \<longrightarrow> v \<le> after))"
proof -
  let ?t = "truncMinute after + minuteNs"
  have whole: "wholeMinute ?t" using wholeMinute_trunc by (simp add: wholeMinute_add)
  have after: "after < v \<longleftrightarrow> ?t \<le> v" if "runs c v" for v using that after_iff by (simp add: runs_def)
  show ?thesis
  proof (cases "nextAfter c after")
    case (Inl e)
    then have none: "\<not> runs c v" if "?t \<le> v" for v using cronSearch_Inl [OF _ whole that] by (simp add: nextAfter_def)
    with after have "v \<le> after" if "runs c v" for v using that by (meson not_le)
    with Inl none after show ?thesis by auto
  next
    case (Inr u)
    then have u: "runs c u" "?t \<le> u" "\<And>v. runs c v \<Longrightarrow> ?t \<le> v \<Longrightarrow> u \<le> v"
      using cronSearch_Inr [OF _ whole] by (auto simp: nextAfter_def)
    then have "after < u" using after by blast
    have "t = u \<longleftrightarrow> runs c t \<and> after < t \<and> (\<forall>v. runs c v \<and> after < v \<longrightarrow> t \<le> v)"
      using u \<open>after < u\<close> after by (metis order_antisym)
    moreover have "\<not> (\<forall>v. runs c v \<longrightarrow> v \<le> after)" using u(1) \<open>after < u\<close> by (meson not_le)
    ultimately show ?thesis using Inr by auto
  qed
qed

text \<open>The schedule that runs every day at noon.\<close>

definition noonCron :: cronSchedule where
  "noonCron = \<lparr>minutes = \<lparr>sf_any = False, sf_values = [0]\<rparr>, hours = \<lparr>sf_any = False, sf_values = [12]\<rparr>,
     months = \<lparr>sf_any = True, sf_values = []\<rparr>, years = \<lparr>sf_any = True, sf_values = []\<rparr>, dom = emptyDom\<lparr>dom_any := True\<rparr>,
     dow = emptyDow\<lparr>dow_noSpec := True\<rparr>\<rparr>"

theorem cron_next_is_first_witness:
  "parseScheduleExpression ''cron(0 12 * * ? *)'' = Inr (Cron noonCron) \<and> runs noonCron (720 * minuteNs) \<and>
    nextAfter noonCron (720 * minuteNs - 1) = Inr (720 * minuteNs)"
proof -
  have run: "runs noonCron (720 * minuteNs)" by code_simp
  moreover have "720 * minuteNs \<le> v" if "runs noonCron v" "720 * minuteNs - 1 < v" for v using that by simp
  ultimately have "nextAfter noonCron (720 * minuteNs - 1) = Inr (720 * minuteNs)"
    using cron_next_is_first [of noonCron "720 * minuteNs - 1" "720 * minuteNs"] by simp
  moreover have "parseScheduleExpression ''cron(0 12 * * ? *)'' = Inr (Cron noonCron)" by code_simp
  ultimately show ?thesis using run by blast
qed

section \<open>Rate\<close>

text \<open>C37: A rate schedule runs at the minute of its anchor plus a whole number of intervals, the first such instant
  after the minute of the given one.\<close>

theorem rate_next_is_first:
  assumes "parseScheduleExpression expr = Inr (Rate interval)" and "0 < interval" and "truncMinute anchor \<le> truncMinute after"
    and "in_int64 (truncMinute after - truncMinute anchor + interval)"
  shows "\<exists>k > 0. computeNextRun expr anchor after = Inr (truncMinute anchor + k * interval) \<and>
    truncMinute after < truncMinute anchor + k * interval \<and> truncMinute anchor + (k - 1) * interval \<le> truncMinute after"
proof -
  define e where "e = truncMinute after - truncMinute anchor"
  let ?k = "e div interval + 1"
  have e: "0 \<le> e" "in_int64 (e + interval)" using assms(3,4) by (simp_all add: e_def)
  have div: "e div interval * interval + e mod interval = e" "0 \<le> e mod interval" "e mod interval < interval"
    using assms(2) by (simp_all add: div_mult_mod_eq)
  have q: "0 \<le> e div interval" using e(1) assms(2) by (simp add: pos_imp_zdiv_nonneg_iff)
  moreover have "e div interval \<le> e" using e(1) assms(2) by (metis div_by_1 int_one_le_iff_zero_less zdiv_mono2 zero_less_one)
  ultimately have "in_int64 ?k" using e assms(2) by (simp add: in_int64_def)
  moreover have prod: "?k * interval = e div interval * interval + interval" by (simp add: distrib_right)
  moreover have "in_int64 (?k * interval)"
  proof -
    have "0 \<le> e div interval * interval" using q assms(2) by simp
    moreover have "e div interval * interval \<le> e" using div by linarith
    ultimately show ?thesis using e assms(2) unfolding prod in_int64_def by linarith
  qed
  moreover have "timeSub (truncMinute after) (truncMinute anchor) = e"
    using e assms(2) by (simp add: timeSub_def e_def in_int64_def)
  ultimately have "nextRateRun anchor interval after = truncMinute anchor + ?k * interval"
    using assms(2,3) by (simp add: nextRateRun_def Let_def)
  then have "computeNextRun expr anchor after = Inr (truncMinute anchor + ?k * interval)"
    using assms(1) by (simp add: computeNextRun_def)
  moreover have "truncMinute after < truncMinute anchor + ?k * interval" "truncMinute anchor + (?k - 1) * interval \<le> truncMinute after"
  proof -
    have "(?k - 1) * interval = e div interval * interval" by simp
    moreover have te: "truncMinute after = truncMinute anchor + e" by (simp add: e_def)
    ultimately have "truncMinute after < truncMinute anchor + (e div interval * interval + interval)"
      "truncMinute anchor + (?k - 1) * interval \<le> truncMinute after" using div by linarith+
    then show "truncMinute after < truncMinute anchor + ?k * interval" "truncMinute anchor + (?k - 1) * interval \<le> truncMinute after"
      by (simp_all only: prod)
  qed
  ultimately show ?thesis using q by (intro exI [of _ ?k]) simp
qed

theorem rate_next_is_first_witness:
  "\<exists>k > 0. computeNextRun ''rate(5 minutes)'' 0 (7 * minuteNs) = Inr (k * (5 * minuteNs)) \<and>
    7 * minuteNs < k * (5 * minuteNs) \<and> (k - 1) * (5 * minuteNs) \<le> 7 * minuteNs"
proof -
  have "parseScheduleExpression ''rate(5 minutes)'' = Inr (Rate (5 * minuteNs))" by code_simp
  moreover have "truncMinute 0 = 0" "truncMinute (7 * minuteNs) = 7 * minuteNs" "0 < 5 * minuteNs"
    "in_int64 (7 * minuteNs - 0 + 5 * minuteNs)" by code_simp+
  ultimately show ?thesis using rate_next_is_first [of "''rate(5 minutes)''" "5 * minuteNs" 0 "7 * minuteNs"] by simp
qed

text \<open>The number of a rate is not checked against the range of a duration: a rate of 106752 days overflows, and the
  rule runs every minute.\<close>

theorem long_rate_overflows:
  "computeNextRun ''rate(106752 days)'' anchor after = Inr (truncMinute after + minuteNs)"
proof -
  have "parseScheduleExpression ''rate(106752 days)'' = Inr (Rate (- 9223371273709551616))" by code_simp
  then show ?thesis by (simp add: computeNextRun_def nextRateRun_def)
qed

section \<open>Days of a month\<close>

lemma daysInMonth_eq:
  assumes "1 \<le> m" and "m \<le> 12"
  shows "daysInMonth y m = monthLength y m"
  using civil_dateDay [OF assms, of "monthLength y m" y] monthLength_range [OF assms, of y]
  by (simp add: daysInMonth_def dateDay_last [OF assms] dayOf_def)

lemma weekday_shift: "weekday y m (d + n) = (weekday y m d + n) mod 7"
  unfolding weekday_def weekdayOf_def dateDay_shift by presburger

lemma weekday_range: "0 \<le> weekday y m d" "weekday y m d < 7"
  by (simp_all add: weekday_def weekdayOf_def)

lemma Weekday_eq: "Weekday t = weekday (Year t) (Month t) (Day t)"
  by (simp add: Weekday_def weekday_def date_valid)

definition workday :: "int \<Rightarrow> int \<Rightarrow> int \<Rightarrow> bool" where
  "workday y m d \<longleftrightarrow> 1 \<le> d \<and> d \<le> monthLength y m \<and> weekday y m d \<notin> {0, 6}"

lemma nearestWeekday_nearest_aux:
  assumes "1 \<le> m" and "m \<le> 12" and "1 \<le> d" and "d \<le> monthLength y m"
  shows "workday y m (nearestWeekday y m d) \<and> (\<forall>e. workday y m e \<longrightarrow> \<bar>nearestWeekday y m d - d\<bar> \<le> \<bar>e - d\<bar>)"
proof -
  define w where "w = weekday y m d"
  define L where "L = monthLength y m"
  have w: "0 \<le> w" "w < 7" using weekday_range by (simp_all add: w_def)
  have L: "28 \<le> L" using monthLength_range [OF assms(1,2)] by (simp add: L_def)
  have wd: "weekday y m e = (w + (e - d)) mod 7" for e using weekday_shift [of y m d "e - d"] by (simp add: w_def)
  have day: "workday y m e \<longleftrightarrow> 1 \<le> e \<and> e \<le> L \<and> (w + (e - d)) mod 7 \<noteq> 0 \<and> (w + (e - d)) mod 7 \<noteq> 6" for e
    by (auto simp: workday_def wd L_def)
  have n: "nearestWeekday y m d = (if w = 6 then (if d = 1 then 3 else d - 1) else if w = 0 then (if d = L then d - 2 else d + 1) else d)"
    using assms by (simp add: nearestWeekday_def daysInMonth_eq Let_def w_def L_def)
  consider "w = 6" "d = 1" | "w = 6" "d \<noteq> 1" | "w = 0" "d = L" | "w = 0" "d \<noteq> L" | "w \<noteq> 0" "w \<noteq> 6" by blast
  then show ?thesis
  proof cases
    case 1
    then show ?thesis unfolding n day using L assms by (auto simp: abs_if) presburger
  next
    case 2
    have "1 \<le> \<bar>e - d\<bar>" if "(w + (e - d)) mod 7 \<noteq> 6" for e using that 2(1) by (cases "e = d") auto
    with 2 show ?thesis unfolding n day using L assms by (auto simp: L_def)
  next
    case 3
    then show ?thesis unfolding n day using L assms by (auto simp: abs_if) presburger
  next
    case 4
    have "1 \<le> \<bar>e - d\<bar>" if "(w + (e - d)) mod 7 \<noteq> 0" for e using that 4(1) by (cases "e = d") auto
    with 4 show ?thesis unfolding n day using L assms by (auto simp: L_def)
  next
    case 5
    then show ?thesis unfolding n day using w assms by (auto simp: L_def)
  qed
qed

text \<open>\<open>nearestWeekday\<close> is a workday of the month, and no workday of the month is nearer to the day.\<close>

theorem nearestWeekday_nearest:
  assumes "1 \<le> m" and "m \<le> 12" and "1 \<le> d" and "d \<le> monthLength y m"
  shows "workday y m (nearestWeekday y m d) \<and> (\<forall>e. workday y m e \<longrightarrow> \<bar>nearestWeekday y m d - d\<bar> \<le> \<bar>e - d\<bar>)"
  using assms by (rule nearestWeekday_nearest_aux)

theorem nearestWeekday_nearest_witness:
  "nearestWeekday 2024 6 1 = 3 \<and> workday 2024 6 3 \<and> (\<forall>e. workday 2024 6 e \<longrightarrow> \<bar>3 - 1\<bar> \<le> \<bar>e - 1\<bar>)"
proof -
  have "nearestWeekday 2024 6 1 = 3" "(1 :: int) \<le> monthLength 2024 6" by code_simp+
  with nearestWeekday_nearest [of 6 1 2024] show ?thesis by simp
qed

section \<open>Days of the week in a month\<close>

lemma find_last:
  "case find P (rev [1..int n]) of
     None \<Rightarrow> \<forall>e. 1 \<le> e \<and> e \<le> int n \<longrightarrow> \<not> P e
   | Some d \<Rightarrow> 1 \<le> d \<and> d \<le> int n \<and> P d \<and> (\<forall>e. d < e \<and> e \<le> int n \<longrightarrow> \<not> P e)"
proof (induction n)
  case (Suc n)
  have split: "[1..int (Suc n)] = [1..int n] @ [int n + 1]" using upto_rec2 [of 1 "int n + 1"] by (simp add: add.commute)
  have le: "e \<le> int (Suc n) \<longleftrightarrow> e \<le> int n \<or> e = int n + 1" for e by auto
  show ?case
  proof (cases "P (int n + 1)")
    case True
    then show ?thesis unfolding split by auto
  next
    case False
    with Suc show ?thesis unfolding split le by (auto split: option.splits)
  qed
qed auto

lemma find_last_iff:
  assumes "1 \<le> d" and "d \<le> L" and "P d"
  shows "find P (rev [1..L]) = Some d \<longleftrightarrow> (\<forall>e. d < e \<and> e \<le> L \<longrightarrow> \<not> P e)"
proof -
  have L: "int (nat L) = L" using assms(1,2) by simp
  have "case find P (rev [1..L]) of None \<Rightarrow> \<forall>e. 1 \<le> e \<and> e \<le> L \<longrightarrow> \<not> P e
    | Some d \<Rightarrow> 1 \<le> d \<and> d \<le> L \<and> P d \<and> (\<forall>e. d < e \<and> e \<le> L \<longrightarrow> \<not> P e)" using find_last [where P = P and n = "nat L"] unfolding L .
  with assms show ?thesis by (cases "find P (rev [1..L])") (auto, meson not_less_iff_gr_or_eq)
qed

text \<open>The days with one weekday, as the loop over a month counts them.\<close>

lemma nthLoop_filter:
  "nthLoop P k count days = (let i = k - count - 1 in if 0 \<le> i \<and> i < int (length (filter P days)) then filter P days ! nat i else -1)"
proof (induction P k count days rule: nthLoop.induct)
  case (2 P k count day days)
  show ?case
  proof (cases "P day")
    case True
    then consider "count + 1 = k" | "count + 1 < k" | "k < count + 1" by linarith
    then show ?thesis
    proof cases
      case 2
      then have "nat (k - count - 1) = Suc (nat (k - (count + 1) - 1))" by simp
      with True 2 "2.IH"(2) [OF _ _] show ?thesis by (auto simp: Let_def)
    qed (use True "2.IH" in \<open>auto simp: Let_def\<close>)
  next
    case False
    with "2.IH"(1) show ?thesis by (simp add: Let_def)
  qed
qed simp

definition weekly :: "(int \<Rightarrow> bool) \<Rightarrow> bool" where
  "weekly P \<longleftrightarrow> (\<forall>d e. P d \<longrightarrow> (P e \<longleftrightarrow> (e - d) mod 7 = 0))"

lemma upto_split: "a \<le> b + 1 \<Longrightarrow> b \<le> c \<Longrightarrow> [a..c] = [a..b] @ [b + 1..c]" for a b c :: int
  using upto_split1 [of a "b + 1" c] by (cases "b = c") auto

lemma count_before:
  assumes "weekly P"
  shows "1 \<le> d \<Longrightarrow> P d \<Longrightarrow> int (length (filter P [1..d - 1])) = (d - 1) div 7"
proof (induction "nat d" arbitrary: d rule: less_induct)
  case less
  have mod7: "P e \<longleftrightarrow> (e - d) mod 7 = 0" for e using assms less.prems(2) by (simp add: weekly_def)
  show ?case
  proof (cases "d \<le> 7")
    case True
    have "\<not> P e" if "e \<in> set [1..d - 1]" for e using that True by (simp add: mod7) presburger
    then have "filter P [1..d - 1] = []" by (simp add: filter_empty_conv)
    with True less.prems(1) show ?thesis by simp
  next
    case False
    then have "P (d - 7)" by (simp add: mod7)
    with less.hyps [of "d - 7"] False have ih: "int (length (filter P [1..d - 7 - 1])) = (d - 7 - 1) div 7" by simp
    have "\<not> P e" if "e \<in> set [d - 6..d - 1]" for e using that by (simp add: mod7) presburger
    then have rest: "filter P [d - 6..d - 1] = []" by (simp add: filter_empty_conv)
    have "[1..d - 1] = [1..d - 8] @ (d - 7) # [d - 6..d - 1]"
      using upto_split [of 1 "d - 8" "d - 1"] upto_rec1 [of "d - 7" "d - 1"] False by simp
    then have "int (length (filter P [1..d - 1])) = (d - 7 - 1) div 7 + 1" using ih rest \<open>P (d - 7)\<close> by simp
    then show ?thesis by presburger
  qed
qed

lemma nth_occurrence:
  assumes "weekly P" and "1 \<le> d" and "d \<le> L" and "P d"
  shows "nthLoop P k 0 [1..L] = d \<longleftrightarrow> k = (d - 1) div 7 + 1"
proof -
  let ?i = "length (filter P [1..d - 1])"
  have i: "int ?i = (d - 1) div 7" using count_before [OF assms(1,2,4)] .
  have split: "filter P [1..L] = filter P [1..d - 1] @ d # filter P [d + 1..L]"
    using upto_split [of 1 "d - 1" L] upto_rec1 [of d L] assms(2-4) by simp
  have at: "filter P [1..L] ! ?i = d" and len: "?i < length (filter P [1..L])" by (simp_all add: split nth_append)
  have dist: "distinct (filter P [1..L])" by simp
  have loop: "nthLoop P k 0 [1..L] = (if 0 \<le> k - 1 \<and> k - 1 < int (length (filter P [1..L])) then filter P [1..L] ! nat (k - 1) else -1)"
    by (simp add: nthLoop_filter Let_def)
  show ?thesis
  proof
    assume "nthLoop P k 0 [1..L] = d"
    with loop assms(2) have k: "0 \<le> k - 1" "nat (k - 1) < length (filter P [1..L])" "filter P [1..L] ! nat (k - 1) = d"
      by (auto split: if_splits)
    with at len dist have "nat (k - 1) = ?i" using nth_eq_iff_index_eq [OF dist k(2) len] by simp
    with k(1) i show "k = (d - 1) div 7 + 1" by linarith
  next
    assume "k = (d - 1) div 7 + 1"
    with i have "nat (k - 1) = ?i" "0 \<le> k - 1" "k - 1 < int (length (filter P [1..L]))" using len by linarith+
    with loop at show "nthLoop P k 0 [1..L] = d" by simp
  qed
qed

lemma weekly_weekday: "weekly (\<lambda>d. awsWeekday (weekday y m d) = wd)"
proof -
  have aws: "awsWeekday (weekday y m d) = weekday y m d + 1" for d by (simp add: awsWeekday_def)
  have "weekday y m e = (weekday y m d + (e - d)) mod 7" for d e using weekday_shift [of y m d "e - d"] by simp
  moreover have "(w + x) mod 7 = w \<longleftrightarrow> x mod 7 = 0" if "0 \<le> w" "w < 7" for w x :: int using that by presburger
  ultimately show ?thesis unfolding weekly_def aws using weekday_range by (metis add_right_cancel)
qed

lemma day_facts:
  "1 \<le> Day t" "Day t \<le> monthLength (Year t) (Month t)" "daysInMonth (Year t) (Month t) = monthLength (Year t) (Month t)"
  "monthLength (Year t) (Month t) \<le> 31" "awsWeekday (weekday (Year t) (Month t) (Day t)) = Weekday t + 1"
  using date_valid [of t] daysInMonth_eq [of "Month t" "Year t"] monthLength_range [of "Month t" "Year t"]
  by (auto simp: Weekday_eq [symmetric] awsWeekday_def)

lemma last_occurrence_iff:
  "Day t = lastWeekdayOccurrence (Year t) (Month t) (Weekday t + 1) \<longleftrightarrow> monthLength (Year t) (Month t) < Day t + 7"
proof -
  let ?d = "Day t" and ?L = "monthLength (Year t) (Month t)"
  let ?P = "\<lambda>d. awsWeekday (weekday (Year t) (Month t) d) = Weekday t + 1"
  note d = day_facts(1,2) [of t] and L = day_facts(3,4) [of t] and here = day_facts(5) [of t]
  have "find ?P (rev [1..?L]) = Some ?d \<longleftrightarrow> (\<forall>e. ?d < e \<and> e \<le> ?L \<longrightarrow> \<not> ?P e)"
    by (rule find_last_iff [of ?d ?L ?P, OF d here])
  also have "\<dots> \<longleftrightarrow> (\<forall>e. ?d < e \<and> e \<le> ?L \<longrightarrow> (e - ?d) mod 7 \<noteq> 0)"
    by (simp add: weekly_weekday [unfolded weekly_def, rule_format, OF here])
  also have "\<dots> \<longleftrightarrow> ?L < ?d + 7"
  proof
    assume "\<forall>e. ?d < e \<and> e \<le> ?L \<longrightarrow> (e - ?d) mod 7 \<noteq> 0"
    from spec [OF this, of "?d + 7"] show "?L < ?d + 7" by simp
  next
    assume "?L < ?d + 7"
    then show "\<forall>e. ?d < e \<and> e \<le> ?L \<longrightarrow> (e - ?d) mod 7 \<noteq> 0" by (auto simp: mod_pos_pos_trivial)
  qed
  finally show ?thesis using d(1) by (auto simp: lastWeekdayOccurrence_def L split: option.splits)
qed

lemma nth_occurrence_iff:
  "Day t = nthWeekdayOccurrence (Year t) (Month t) (Weekday t + 1) k \<longleftrightarrow> k = (Day t - 1) div 7 + 1"
proof (cases "1 \<le> k \<and> k \<le> 5")
  case True
  then show ?thesis using nth_occurrence [OF weekly_weekday day_facts(1,2,5) [of t], of k] by (auto simp: nthWeekdayOccurrence_def day_facts(3))
next
  case False
  then show ?thesis using day_facts [of t] by (auto simp: nthWeekdayOccurrence_def)
qed

text \<open>C38: The day-of-week field means what its tokens say: a weekday matches on each of its days, its last form in the
  last seven days of the month, and its form with a number in that week of seven days of the month.\<close>

theorem dow_field_meaning:
  "dowMatches f t \<longleftrightarrow> dow_noSpec f \<or> dow_any f \<or>
     Weekday t + 1 \<in> set (dow_values f) \<or>
     Weekday t + 1 \<in> set (lastWeekdays f) \<and> monthLength (Year t) (Month t) < Day t + 7 \<or>
     (Weekday t + 1, (Day t - 1) div 7 + 1) \<in> set (nthWeekdays f)"
proof -
  have aws: "awsWeekday (Weekday t) = Weekday t + 1" by (simp add: awsWeekday_def)
  have "(\<exists>want \<in> set (lastWeekdays f). Weekday t + 1 = want \<and> Day t = lastWeekdayOccurrence (Year t) (Month t) want) \<longleftrightarrow>
      Weekday t + 1 \<in> set (lastWeekdays f) \<and> monthLength (Year t) (Month t) < Day t + 7" using last_occurrence_iff by blast
  moreover have pair: "(case p of (want, k) \<Rightarrow> Weekday t + 1 = want \<and> Day t = nthWeekdayOccurrence (Year t) (Month t) want k) \<longleftrightarrow>
      p = (Weekday t + 1, (Day t - 1) div 7 + 1)" for p
    by (cases p) (simp only: prod.case prod.inject, use nth_occurrence_iff in blast)
  have "(\<exists>p \<in> set (nthWeekdays f). case p of (want, k) \<Rightarrow> Weekday t + 1 = want \<and> Day t = nthWeekdayOccurrence (Year t) (Month t) want k) \<longleftrightarrow>
      (Weekday t + 1, (Day t - 1) div 7 + 1) \<in> set (nthWeekdays f)" unfolding pair by blast
  ultimately show ?thesis unfolding dowMatches_def Let_def aws list_ex_iff by presburger
qed

text \<open>The last workday of a month, which the token LW stands for, is a workday after which the month has none.\<close>

theorem lastWeekdayOfMonth_last:
  assumes "1 \<le> m" and "m \<le> 12"
  shows "workday y m (lastWeekdayOfMonth y m) \<and> (\<forall>e. workday y m e \<longrightarrow> e \<le> lastWeekdayOfMonth y m)"
proof -
  let ?L = "monthLength y m"
  let ?P = "\<lambda>d. weekday y m d \<noteq> 6 \<and> weekday y m d \<noteq> 0"
  have L: "daysInMonth y m = ?L" "28 \<le> ?L" "int (nat ?L) = ?L"
    using daysInMonth_eq [OF assms, of y] monthLength_range [OF assms, of y] by auto
  have f: "case find ?P (rev [1..?L]) of None \<Rightarrow> \<forall>e. 1 \<le> e \<and> e \<le> ?L \<longrightarrow> \<not> ?P e
    | Some d \<Rightarrow> 1 \<le> d \<and> d \<le> ?L \<and> ?P d \<and> (\<forall>e. d < e \<and> e \<le> ?L \<longrightarrow> \<not> ?P e)" using find_last [where P = ?P and n = "nat ?L"] unfolding L(3) .
  have "workday y m (nearestWeekday y m 1)" using nearestWeekday_nearest_aux assms L(2) by auto
  then obtain e where "1 \<le> e" "e \<le> ?L" "?P e" by (auto simp: workday_def)
  with f obtain d where d: "find ?P (rev [1..?L]) = Some d" "1 \<le> d" "d \<le> ?L" "?P d" "\<And>e. d < e \<Longrightarrow> e \<le> ?L \<Longrightarrow> \<not> ?P e"
    by (auto split: option.splits)
  then have "lastWeekdayOfMonth y m = d" by (simp add: lastWeekdayOfMonth_def L)
  with d show ?thesis by (force simp: workday_def not_less)
qed

end
