(* ===== verification/EB_FieldText.thy ===== *)
theory EB_FieldText
  imports EB_Schedule
begin

text \<open>
  The text of schedule fields: the loop over a step has enough rounds, also when the step is so large that the
  addition wraps around, and a printed list of numbers, ranges and steps is parsed back to its values.
\<close>

section \<open>Steps\<close>

text \<open>With \<open>n\<close> rounds the loop has run to its end.\<close>

definition settled :: "nat \<Rightarrow> int \<Rightarrow> int \<Rightarrow> int \<Rightarrow> bool" where
  "settled n v stop step \<longleftrightarrow> (\<forall>m \<ge> n. stepLoop m v stop step = stepLoop n v stop step)"

lemma settled_done: "stop < v \<Longrightarrow> settled n v stop step"
proof -
  assume "stop < v"
  then have "stepLoop m v stop step = []" for m by (cases m) auto
  then show ?thesis by (simp add: settled_def)
qed

lemma settled_Suc: "settled n (wrap64 (v + step)) stop step \<Longrightarrow> settled (Suc n) v stop step"
  unfolding settled_def by (metis Suc_le_D Suc_le_mono stepLoop.simps(2))

lemma settled_mono: "settled n v stop step \<Longrightarrow> n \<le> m \<Longrightarrow> settled m v stop step"
  unfolding settled_def by (metis order_trans)

lemma settled_small:
  assumes "0 < step" and "step \<le> 2 ^ 62" and "stop < 2 ^ 61"
  shows "0 \<le> v \<Longrightarrow> settled (nat (stop + 1 - v)) v stop step"
proof (induction "nat (stop + 1 - v)" arbitrary: v rule: less_induct)
  case less
  show ?case
  proof (cases "v \<le> stop")
    case True
    have "in_int64 (v + step)" using assms less.prems True by (simp add: in_int64_def)
    moreover have "settled (nat (stop + 1 - (v + step))) (v + step) stop step"
      using less.hyps [of "v + step"] True less.prems assms(1) by simp
    ultimately have "settled (Suc (nat (stop + 1 - (v + step)))) v stop step" by (intro settled_Suc) simp
    then show ?thesis by (rule settled_mono) (use True assms(1) in simp)
  qed (simp add: settled_done)
qed

lemma wrap64_over: "2 ^ 63 \<le> x \<Longrightarrow> x < 2 ^ 64 \<Longrightarrow> wrap64 x = x - 2 ^ 64"
  using int_mod_pos_eq [of "x + 2 ^ 63" "2 ^ 64" 1 "x - 2 ^ 63"] by (simp add: wrap64_def)

lemma settled_large:
  assumes "2 ^ 62 < step" and "step < 2 ^ 63" and "stop < 2 ^ 61"
  shows "0 \<le> v \<Longrightarrow> v \<le> stop \<Longrightarrow> settled (nat v + 3) v stop step"
proof (induction "nat v" arbitrary: v rule: less_induct)
  case less
  show ?case
  proof (cases "v + step < 2 ^ 63")
    case True
    then have "wrap64 (v + step) = v + step" using assms less.prems by (intro wrap64_id) (simp add: in_int64_def)
    then have "settled 0 (wrap64 (v + step)) stop step" using assms less.prems by (intro settled_done) simp
    then have "settled (Suc 0) v stop step" by (rule settled_Suc)
    then show ?thesis by (rule settled_mono) simp
  next
    case False
    have v1: "wrap64 (v + step) = v + step - 2 ^ 64" using False assms less.prems by (intro wrap64_over) auto
    let ?v2 = "v + step - 2 ^ 64 + step"
    have v2: "wrap64 (v + step - 2 ^ 64 + step) = ?v2" using False assms less.prems by (intro wrap64_id) (simp add: in_int64_def)
    have "settled (nat v + 1) ?v2 stop step"
    proof (cases "0 \<le> ?v2")
      case True
      then have "settled (nat ?v2 + 3) ?v2 stop step" using less.hyps [of ?v2] less.prems assms by simp
      then show ?thesis by (rule settled_mono) (use True assms(2) in simp)
    next
      case neg: False
      have "in_int64 (?v2 + step)" using False assms less.prems neg by (simp add: in_int64_def)
      then have "wrap64 (?v2 + step) = ?v2 + step" by simp
      then have "settled 0 (wrap64 (?v2 + step)) stop step" using False assms less.prems by (intro settled_done) simp
      then have "settled (Suc 0) ?v2 stop step" by (rule settled_Suc)
      then show ?thesis by (rule settled_mono) simp
    qed
    then have "settled (Suc (nat v + 1)) (v + step - 2 ^ 64) stop step" using settled_Suc v2 by metis
    then have "settled (Suc (Suc (nat v + 1))) v stop step" using settled_Suc v1 by metis
    then show ?thesis by (simp add: numeral_3_eq_3)
  qed
qed

text \<open>The rounds \<open>stepValues\<close> allows are enough for every step and the bounds of all fields.\<close>

lemma stepValues_fuel:
  assumes "0 \<le> start" and "stop < 2 ^ 61" and "0 < step" and "in_int64 step" and "stepFuel stop \<le> n"
  shows "stepLoop n start stop step = stepValues start stop step"
proof -
  have "settled (stepFuel stop) start stop step"
  proof (cases "start \<le> stop")
    case True
    then show ?thesis
    proof (cases "step \<le> 2 ^ 62")
      case small: True
      show ?thesis by (rule settled_mono [OF settled_small [OF assms(3) small assms(2,1)]]) (use assms(1) in \<open>unfold stepFuel_def, arith\<close>)
    next
      case False
      then have large: "2 ^ 62 < step" "step < 2 ^ 63" using assms(4) by (auto simp: in_int64_def)
      show ?thesis by (rule settled_mono [OF settled_large [OF large assms(2,1) True]]) (use True assms(1) in \<open>unfold stepFuel_def, arith\<close>)
    qed
  qed (simp add: settled_done)
  with assms(5) show ?thesis unfolding settled_def stepValues_def by blast
qed

lemma stepLoop_filter:
  assumes "0 < step" and "step \<le> 2 ^ 62" and "stop < 2 ^ 61"
  shows "0 \<le> v \<Longrightarrow> nat (stop + 1 - v) \<le> n \<Longrightarrow> stepLoop n v stop step = filter (\<lambda>u. (u - v) mod step = 0) [v..stop]"
proof (induction n arbitrary: v)
  case 0
  then show ?case by simp
next
  case (Suc n)
  show ?case
  proof (cases "v \<le> stop")
    case True
    have w: "wrap64 (v + step) = v + step" using assms Suc.prems True by (intro wrap64_id) (simp add: in_int64_def)
    have "nat (stop + 1 - (v + step)) \<le> n" using Suc.prems assms(1) True by simp
    then have ih: "stepLoop n (v + step) stop step = filter (\<lambda>u. (u - (v + step)) mod step = 0) [v + step..stop]"
      using Suc.IH [of "v + step"] Suc.prems assms(1) by simp
    have shift: "(u - (v + step)) mod step = (u - v) mod step" for u
    proof -
      have "u - (v + step) = (u - v) - step" by simp
      then show ?thesis by (simp only: minus_mod_self2)
    qed
    have "filter (\<lambda>u. (u - v) mod step = 0) [v + 1..stop] = filter (\<lambda>u. (u - v) mod step = 0) [v + step..stop]"
    proof (cases "v + step - 1 \<le> stop")
      case True
      have "filter (\<lambda>u. (u - v) mod step = 0) [v + 1..v + step - 1] = []"
        by (auto simp: filter_empty_conv mod_pos_pos_trivial)
      moreover have "[v + 1..stop] = [v + 1..v + step - 1] @ [v + step..stop]"
      proof (cases "v + step \<le> stop")
        case False
        with True have "stop = v + step - 1" by linarith
        then show ?thesis by simp
      qed (use upto_split1 [of "v + 1" "v + step" stop] assms(1) in simp)
      ultimately show ?thesis by simp
    next
      case False
      then show ?thesis by (auto simp: filter_empty_conv mod_pos_pos_trivial)
    qed
    then show ?thesis using True w ih by (simp add: shift upto_rec1 [of v stop])
  qed simp
qed

section \<open>Printed fields\<close>

datatype cronToken = One int | Span int int | Every int int int

fun printToken :: "cronToken \<Rightarrow> string" where
  "printToken (One a) = itoa a"
| "printToken (Span a b) = itoa a @ ''-'' @ itoa b"
| "printToken (Every a b s) = itoa a @ ''-'' @ itoa b @ ''/'' @ itoa s"

fun tokenValues :: "cronToken \<Rightarrow> int list" where
  "tokenValues (One a) = [a]"
| "tokenValues (Span a b) = [a..b]"
| "tokenValues (Every a b s) = filter (\<lambda>v. (v - a) mod s = 0) [a..b]"

fun tokenOK :: "int \<Rightarrow> int \<Rightarrow> cronToken \<Rightarrow> bool" where
  "tokenOK lo hi (One a) \<longleftrightarrow> lo \<le> a \<and> a \<le> hi"
| "tokenOK lo hi (Span a b) \<longleftrightarrow> lo \<le> a \<and> a \<le> b \<and> b \<le> hi"
| "tokenOK lo hi (Every a b s) \<longleftrightarrow> lo \<le> a \<and> a \<le> b \<and> b \<le> hi \<and> 0 < s \<and> s \<le> 2 ^ 62"

fun printTokens :: "cronToken list \<Rightarrow> string" where
  "printTokens [] = ''''"
| "printTokens [t] = printToken t"
| "printTokens (t # ts) = printToken t @ '','' @ printTokens ts"

definition fieldChar :: "char \<Rightarrow> bool" where
  "fieldChar c \<longleftrightarrow> isDigit c \<or> c = CHR ''-'' \<or> c = CHR ''/''"

lemma itoa_digits: "0 \<le> n \<Longrightarrow> list_all isDigit (itoa n) \<and> itoa n \<noteq> []"
  using natToDec_digits natToDec_not_Nil by (simp add: itoa_def)

lemma fieldChar_facts: "fieldChar c \<Longrightarrow> upperChar c = c \<and> \<not> isSpace c \<and> c \<noteq> CHR '',''"
  by (auto simp: fieldChar_def isDigit_def upperChar_def isSpace_def Let_def)

lemma text_fixed: "list_all (\<lambda>c. upperChar c = c) s \<Longrightarrow> toUpper s = s"
  by (simp add: toUpper_def list_all_iff map_idI)

lemma dropWhile_hd: "s = [] \<or> \<not> P (hd s) \<Longrightarrow> dropWhile P s = s"
  by (cases s) auto

lemma trimSpace_fixed: "s = [] \<or> \<not> isSpace (hd s) \<and> \<not> isSpace (last s) \<Longrightarrow> trimSpace s = s"
  using dropWhile_hd [of s isSpace] dropWhile_hd [of "rev s" isSpace] by (auto simp: trimSpace_def hd_rev)

lemma fieldText:
  assumes "list_all fieldChar s"
  shows "toUpper s = s" and "trimSpace s = s" and "CHR '','' \<notin> set s"
proof -
  have f: "\<forall>c \<in> set s. upperChar c = c \<and> \<not> isSpace c \<and> c \<noteq> CHR '',''"
    using assms fieldChar_facts unfolding list_all_iff by blast
  then show "toUpper s = s" by (intro text_fixed) (simp add: list_all_iff)
  show "trimSpace s = s" using f hd_in_set [of s] last_in_set [of s] by (intro trimSpace_fixed) blast
  show "CHR '','' \<notin> set s" using f by blast
qed

lemma digits_fieldChar: "list_all isDigit s \<Longrightarrow> list_all fieldChar s"
  by (auto simp: list_all_iff fieldChar_def)

lemma digits_no_mark: "list_all isDigit s \<Longrightarrow> CHR ''-'' \<notin> set s \<and> CHR ''/'' \<notin> set s"
  by (auto simp: list_all_iff isDigit_def)

lemma takeWhile_no_mark: "c \<notin> set s \<Longrightarrow> takeWhile (\<lambda>x. x \<noteq> c) (s @ c # r) = s \<and> dropWhile (\<lambda>x. x \<noteq> c) (s @ c # r) = c # r"
  by (induction s) auto

lemma splitN2_at: "c \<notin> set s \<Longrightarrow> splitN2 c (s @ c # r) = [s, r]"
  using takeWhile_no_mark [of c s r] by (simp add: splitN2_def)

lemma names_digits: "names = [] \<or> names = monthNames \<Longrightarrow> list_all isDigit s \<Longrightarrow> s \<noteq> [] \<Longrightarrow> map_of names s = None"
  by (auto simp: map_of_eq_None_iff monthNames_def isDigit_def)

text \<open>The names and the range of a field.\<close>

definition fieldRange :: "int \<Rightarrow> int \<Rightarrow> (string \<times> int) list \<Rightarrow> bool" where
  "fieldRange lo hi names \<longleftrightarrow> 0 \<le> lo \<and> hi < 2 ^ 61 \<and> (names = [] \<or> names = monthNames)"

lemma parse_number:
  assumes "fieldRange lo hi names" and "lo \<le> a" and "a \<le> hi"
  shows "parseNamedOrNumeric (itoa a) lo hi names False = Inr a"
proof -
  have a: "0 \<le> a" "in_int64 a" using assms by (auto simp: fieldRange_def in_int64_def)
  note d = itoa_digits [OF a(1)]
  have "toUpper (trimSpace (itoa a)) = itoa a" using fieldText(1,2) [OF digits_fieldChar] d by simp
  moreover have "map_of names (itoa a) = None" using names_digits d assms(1) by (auto simp: fieldRange_def)
  ultimately show ?thesis using assms atoi_itoa [OF a(2)] by (simp add: parseNamedOrNumeric_def Let_def)
qed

lemma parse_range:
  assumes "fieldRange lo hi names" and "lo \<le> a" and "a \<le> b" and "b \<le> hi"
  shows "parseRange (itoa a @ ''-'' @ itoa b) lo hi names False = Inr (a, b)"
proof -
  have "0 \<le> a" using assms by (simp add: fieldRange_def)
  then have "splitN2 CHR ''-'' (itoa a @ ''-'' @ itoa b) = [itoa a, itoa b]"
    using splitN2_at digits_no_mark itoa_digits by simp
  then show ?thesis using assms parse_number [OF assms(1)] by (simp add: parseRange_def)
qed

lemma printToken_chars: "tokenOK lo hi t \<Longrightarrow> 0 \<le> lo \<Longrightarrow> list_all fieldChar (printToken t) \<and> printToken t \<noteq> []"
  using itoa_digits digits_fieldChar by (cases t) (auto simp: fieldChar_def)

lemma expand_token:
  assumes "fieldRange lo hi names" and "tokenOK lo hi t"
  shows "expandSimpleToken (printToken t) lo hi names False = Inr (tokenValues t) \<and> tokenValues t \<noteq> []"
proof -
  have lo: "0 \<le> lo" using assms(1) by (simp add: fieldRange_def)
  note chars = printToken_chars [OF assms(2) lo]
  have fix_: "trimSpace (toUpper (printToken t)) = printToken t" using fieldText chars by simp
  show ?thesis
  proof (cases t)
    case (One a)
    then have "CHR ''/'' \<notin> set (itoa a)" "CHR ''-'' \<notin> set (itoa a)" using assms(2) lo itoa_digits digits_no_mark by auto
    then show ?thesis using fix_ chars One assms parse_number [OF assms(1), of a] by (simp add: expandSimpleToken_def)
  next
    case (Span a b)
    then have "CHR ''/'' \<notin> set (printToken t)" "CHR ''-'' \<in> set (printToken t)" using assms(2) lo itoa_digits digits_no_mark by auto
    then show ?thesis using fix_ chars Span assms parse_range [OF assms(1), of a b] by (simp add: expandSimpleToken_def)
  next
    case (Every a b s)
    let ?base = "itoa a @ ''-'' @ itoa b"
    have ok: "lo \<le> a" "a \<le> b" "b \<le> hi" "0 < s" "s \<le> 2 ^ 62" using assms(2) Every by auto
    then have nodash: "CHR ''/'' \<notin> set ?base" using lo itoa_digits [of a] itoa_digits [of b] digits_no_mark by auto
    have split: "splitN2 CHR ''/'' (printToken t) = [?base, itoa s]" using splitN2_at [OF nodash, of "itoa s"] Every by simp
    have step: "atoi (itoa s) = Some s" using ok by (intro atoi_itoa) (simp add: in_int64_def)
    have "stepValues a b s = filter (\<lambda>v. (v - a) mod s = 0) [a..b]" unfolding stepValues_def
      using ok lo assms(1) by (intro stepLoop_filter) (auto simp: stepFuel_def fieldRange_def)
    moreover have "a \<in> set (filter (\<lambda>v. (v - a) mod s = 0) [a..b])" using ok by simp
    then have "filter (\<lambda>v. (v - a) mod s = 0) [a..b] \<noteq> []" by (metis empty_iff list.set(1))
    moreover have "?base \<noteq> ''*''" using itoa_digits [of a] ok lo by (cases "itoa a") (auto simp: isDigit_def)
    moreover have "CHR ''/'' \<in> set (printToken t)" using Every by simp
    ultimately show ?thesis using fix_ chars split step ok parse_range [OF assms(1) ok(1-3)] Every
      by (auto simp: expandSimpleToken_def Let_def)
  qed
qed

section \<open>Printed schedules\<close>

lemma printTokens_split:
  "list_all (\<lambda>t. CHR '','' \<notin> set (printToken t)) ts \<Longrightarrow> ts \<noteq> [] \<Longrightarrow> splitOn CHR '','' (printTokens ts) = map printToken ts"
proof (induction ts rule: printTokens.induct)
  case (3 t u ts)
  then show ?case using splitOn_append_sep [of "CHR '',''" "printToken t" "printTokens (u # ts)"] splitOn_none [of "CHR '',''" "printToken t"]
    by simp
qed (simp_all add: splitOn_none)

lemma simpleSegments_tokens:
  assumes "fieldRange lo hi names"
  shows "list_all (tokenOK lo hi) ts \<Longrightarrow> simpleSegments lo hi names (map printToken ts) = Inr (concat (map tokenValues ts))"
proof (induction ts)
  case (Cons t ts)
  have "0 \<le> lo" using assms by (simp add: fieldRange_def)
  with Cons.prems printToken_chars [of lo hi t] fieldText(2) have "trimSpace (printToken t) = printToken t" "printToken t \<noteq> ''''" by auto
  with Cons expand_token [OF assms, of t] show ?case by (simp add: Let_def)
qed simp

definition listChar :: "char \<Rightarrow> bool" where "listChar c \<longleftrightarrow> fieldChar c \<or> c = CHR '',''"

lemma listChar_facts: "listChar c \<Longrightarrow> upperChar c = c \<and> \<not> isSpace c \<and> c \<noteq> CHR 0x0A"
proof -
  assume "listChar c"
  then consider "fieldChar c" | "c = CHR '',''" by (auto simp: listChar_def)
  moreover have "isSpace CHR 0x0A" "upperChar CHR '','' = CHR '',''" "\<not> isSpace CHR '',''" by code_simp+
  ultimately show ?thesis by cases (use fieldChar_facts [of c] in auto)
qed

lemma printTokens_chars:
  "list_all (tokenOK lo hi) ts \<Longrightarrow> 0 \<le> lo \<Longrightarrow> ts \<noteq> [] \<Longrightarrow> list_all listChar (printTokens ts) \<and> printTokens ts \<noteq> []"
  using printToken_chars by (induction ts rule: printTokens.induct) (auto simp: list_all_iff listChar_def)

lemma listText:
  assumes "list_all listChar s"
  shows "toUpper s = s" and "trimSpace s = s" and "list_all (\<lambda>c. \<not> isSpace c) s" and "CHR 0x0A \<notin> set s"
proof -
  have f: "\<forall>c \<in> set s. upperChar c = c \<and> \<not> isSpace c \<and> c \<noteq> CHR 0x0A" using assms listChar_facts unfolding list_all_iff by blast
  then show "toUpper s = s" by (intro text_fixed) (simp add: list_all_iff)
  show "trimSpace s = s" using f hd_in_set [of s] last_in_set [of s] by (intro trimSpace_fixed) blast
  show "list_all (\<lambda>c. \<not> isSpace c) s" "CHR 0x0A \<notin> set s" using f by (auto simp: list_all_iff)
qed

lemma field_roundtrip:
  assumes "fieldRange lo hi names" and "ts \<noteq> []" and "list_all (tokenOK lo hi) ts"
  shows "parseSimpleField (printTokens ts) lo hi names q = Inr \<lparr>sf_any = False, sf_values = concat (map tokenValues ts)\<rparr>"
proof -
  have lo: "0 \<le> lo" using assms(1) by (simp add: fieldRange_def)
  note chars = printTokens_chars [OF assms(3) lo assms(2)]
  then have raw: "toUpper (trimSpace (printTokens ts)) = printTokens ts" using listText by simp
  have "hd (printTokens ts) \<in> set (printTokens ts)" using chars by simp
  with chars have "printTokens ts \<noteq> ''?''" "printTokens ts \<noteq> ''*''" by (auto simp: list_all_iff listChar_def fieldChar_def isDigit_def)
  moreover have "splitOn CHR '','' (printTokens ts) = map printToken ts"
    using assms(2,3) printToken_chars [OF _ lo] fieldText(3) by (intro printTokens_split) (auto simp: list_all_iff)
  moreover have "concat (map tokenValues ts) \<noteq> []"
    using assms(2,3) expand_token [OF assms(1)] by (cases ts) auto
  ultimately show ?thesis using raw chars simpleSegments_tokens [OF assms(1,3)] by (simp add: parseSimpleField_def Let_def)
qed

lemma fields_word:
  "list_all (\<lambda>c. \<not> isSpace c) p \<Longrightarrow> p \<noteq> [] \<Longrightarrow> fields (p @ CHR '' '' # rest) = p # fields rest"
proof -
  assume p: "list_all (\<lambda>c. \<not> isSpace c) p" "p \<noteq> []"
  have sp: "isSpace CHR '' ''" by (simp add: isSpace_def)
  have d: "dropWhile isSpace (p @ CHR '' '' # rest) = p @ CHR '' '' # rest" using p by (cases p) auto
  have t: "takeWhile (\<lambda>c. \<not> isSpace c) (p @ CHR '' '' # rest) = p" "dropWhile (\<lambda>c. \<not> isSpace c) (p @ CHR '' '' # rest) = CHR '' '' # rest"
    using p(1) sp by (induction p) auto
  have "fields (CHR '' '' # rest) = fields rest" by (subst (1 2) fields.simps) (simp add: sp)
  then show ?thesis using d t p(2) by (subst fields.simps) (simp add: Let_def)
qed

lemma fields_last:
  assumes "list_all (\<lambda>c. \<not> isSpace c) p" and "p \<noteq> []"
  shows "fields p = [p]"
proof -
  have "dropWhile isSpace p = p" using assms by (cases p) auto
  moreover have "takeWhile (\<lambda>c. \<not> isSpace c) p = p" "dropWhile (\<lambda>c. \<not> isSpace c) p = []"
    using assms(1) by (simp_all add: takeWhile_eq_all_conv dropWhile_eq_Nil_conv list_all_iff)
  moreover have "fields [] = []" by (subst fields.simps) simp
  ultimately show ?thesis using assms(2) by (subst fields.simps) (simp add: Let_def del: dropWhile_eq_Nil_conv takeWhile_eq_all_conv)
qed

text \<open>The text of a schedule on any day, with its minutes, hours, months and years listed.\<close>

definition cronText :: "cronToken list \<Rightarrow> cronToken list \<Rightarrow> cronToken list \<Rightarrow> cronToken list \<Rightarrow> string" where
  "cronText mi ho mo ye = ''cron('' @ printTokens mi @ '' '' @ printTokens ho @ '' * '' @ printTokens mo @ '' ? '' @ printTokens ye @ '')''"

definition listed :: "cronToken list \<Rightarrow> simpleField" where
  "listed ts = \<lparr>sf_any = False, sf_values = concat (map tokenValues ts)\<rparr>"

text \<open>C36: A printed cron expression with lists of numbers, ranges and steps in range is accepted, and the schedule has
  exactly the listed minutes, hours, months and years.\<close>

theorem cron_roundtrip:
  assumes "mi \<noteq> []" and "list_all (tokenOK 0 59) mi" and "ho \<noteq> []" and "list_all (tokenOK 0 23) ho"
    and "mo \<noteq> []" and "list_all (tokenOK 1 12) mo" and "ye \<noteq> []" and "list_all (tokenOK 1970 2199) ye"
  shows "parseScheduleExpression (cronText mi ho mo ye) = Inr (Cron \<lparr>minutes = listed mi, hours = listed ho, months = listed mo,
    years = listed ye, dom = emptyDom\<lparr>dom_any := True\<rparr>, dow = emptyDow\<lparr>dow_noSpec := True\<rparr>\<rparr>)"
proof -
  let ?body = "printTokens mi @ '' '' @ printTokens ho @ '' * '' @ printTokens mo @ '' ? '' @ printTokens ye"
  have lo: "(0 :: int) \<le> 0" "(0 :: int) \<le> 1" "(0 :: int) \<le> 1970" by simp_all
  note chars = printTokens_chars [OF assms(2) lo(1) assms(1)] printTokens_chars [OF assms(4) lo(1) assms(3)]
    printTokens_chars [OF assms(6) lo(2) assms(5)] printTokens_chars [OF assms(8) lo(3) assms(7)]
  have text_: "list_all (\<lambda>c. \<not> isSpace c) (printTokens ts) \<and> CHR 0x0A \<notin> set (printTokens ts)" if "ts \<in> {mi, ho, mo, ye}" for ts
    using that chars listText(3,4) by blast
  have sp: "list_all (\<lambda>c. \<not> isSpace c) ''*''" "list_all (\<lambda>c. \<not> isSpace c) ''?''" by code_simp+
  have word: "fields (printTokens ts @ CHR '' '' # rest) = printTokens ts # fields rest" if "ts \<in> {mi, ho, mo, ye}" for ts rest
    using that chars text_ by (intro fields_word) auto
  have split: "fields ?body = [printTokens mi, printTokens ho, ''*'', printTokens mo, ''?'', printTokens ye]"
    using word [of mi] word [of ho] word [of mo] fields_word [OF sp(1)] fields_word [OF sp(2)] fields_last [of "printTokens ye"] text_ [of ye] chars
    by simp
  have nl: "CHR 0x0A \<notin> set ?body" using text_ by auto
  have edges: "trimSpace ?body = ?body"
    using chars text_ [of mi] text_ [of ye] hd_in_set [of "printTokens mi"] last_in_set [of "printTokens ye"]
    by (intro trimSpace_fixed) (auto simp: list_all_iff)
  have fr: "fieldRange 0 59 []" "fieldRange 0 23 []" "fieldRange 1 12 monthNames" "fieldRange 1970 2199 []" by (simp_all add: fieldRange_def)
  have days: "parseDayOfMonthField ''*'' = Inr (emptyDom\<lparr>dom_any := True\<rparr>)" "parseDayOfWeekField ''?'' = Inr (emptyDow\<lparr>dow_noSpec := True\<rparr>)"
    by code_simp+
  have "parseCronFields ?body = Inr \<lparr>minutes = listed mi, hours = listed ho, months = listed mo, years = listed ye,
      dom = emptyDom\<lparr>dom_any := True\<rparr>, dow = emptyDow\<lparr>dow_noSpec := True\<rparr>\<rparr>"
    unfolding parseCronFields_def edges split
    using field_roundtrip [OF fr(1) assms(1,2)] field_roundtrip [OF fr(2) assms(3,4)] field_roundtrip [OF fr(3) assms(5,6)]
      field_roundtrip [OF fr(4) assms(7,8)] days
    by (simp add: inField_def listed_def emptyDom_def emptyDow_def)
  moreover have cron: "cronExpr (cronText mi ho mo ye) = Some ?body"
  proof -
    have "toLower ''cron('' = ''cron(''" by code_simp
    moreover have "drop 5 (cronText mi ho mo ye) = ?body @ '')''" "take 5 (cronText mi ho mo ye) = ''cron(''" by (simp_all add: cronText_def)
    moreover have "hasSuffix (?body @ '')'') '')''" by (auto simp: hasSuffix_iff)
    ultimately show ?thesis using nl chars(1) by (simp add: cronExpr_def Let_def butlast_append del: append_assoc append.append_Cons)
  qed
  moreover have "rateExpr (cronText mi ho mo ye) = None"
  proof -
    have "toLower ''cron('' \<noteq> ''rate(''" by code_simp
    then show ?thesis by (simp add: rateExpr_def cronText_def Let_def)
  qed
  moreover have "trimSpace (cronText mi ho mo ye) = cronText mi ho mo ye"
    by (intro trimSpace_fixed) (simp add: cronText_def isSpace_def)
  ultimately show ?thesis by (simp add: parseScheduleExpression_def Let_def cronText_def)
qed

theorem cron_roundtrip_witness:
  "parseScheduleExpression ''cron(0-30/15 8,12 * 1-3 ? 2030)'' = Inr (Cron \<lparr>minutes = \<lparr>sf_any = False, sf_values = [0, 15, 30]\<rparr>,
     hours = \<lparr>sf_any = False, sf_values = [8, 12]\<rparr>, months = \<lparr>sf_any = False, sf_values = [1, 2, 3]\<rparr>,
     years = \<lparr>sf_any = False, sf_values = [2030]\<rparr>, dom = emptyDom\<lparr>dom_any := True\<rparr>, dow = emptyDow\<lparr>dow_noSpec := True\<rparr>\<rparr>)"
proof -
  have "cronText [Every 0 30 15] [One 8, One 12] [Span 1 3] [One 2030] = ''cron(0-30/15 8,12 * 1-3 ? 2030)''" by code_simp
  moreover have "listed [Every 0 30 15] = \<lparr>sf_any = False, sf_values = [0, 15, 30]\<rparr>" "listed [One 8, One 12] = \<lparr>sf_any = False, sf_values = [8, 12]\<rparr>"
    "listed [Span 1 3] = \<lparr>sf_any = False, sf_values = [1, 2, 3]\<rparr>" "listed [One 2030] = \<lparr>sf_any = False, sf_values = [2030]\<rparr>" by code_simp+
  ultimately show ?thesis using cron_roundtrip [of "[Every 0 30 15]" "[One 8, One 12]" "[Span 1 3]" "[One 2030]"] by simp
qed

end
