(* ===== verification/ASL_Model.thy ===== *)
theory ASL_Model
  imports Tarn_Json
begin

text \<open>
  The Amazon States Language model and its validation
  (\<open>internal/stepfunctions/asl/model.go\<close>, \<open>parse.go\<close>). A raw JSON field (\<open>json.RawMessage\<close>) is its
  text, empty when absent. The concrete state types are records; the interface \<open>State\<close> is the
  datatype of them. The machines nested in Parallel and Map states are arguments of their
  constructors, and so are the sub-rules of a Choice rule. JSON decoding is a parameter of \<open>Parse\<close>.
\<close>

section \<open>Paths, retriers, catchers\<close>

record Path =
  path_Set :: bool
  path_Null :: bool
  path_Value :: string

definition pathOr :: "Path \<Rightarrow> string \<Rightarrow> string" where
  "pathOr p def = (if \<not> path_Set p then def else if path_Null p then '''' else path_Value p)"

record Retrier =
  retry_ErrorEquals :: "string list"
  retry_IntervalSeconds :: int
  retry_MaxAttempts :: "int option"
  retry_BackoffRate :: rat

record Catcher =
  catch_ErrorEquals :: "string list"
  catch_ResultPath :: Path
  catch_Next :: string

section \<open>Choice rules\<close>

text \<open>The fields of a Choice rule but its sub-rules.\<close>

record ChoiceTest =
  Variable :: string
  rule_Next :: string
  StringEquals :: "string option"
  StringLessThan :: "string option"
  StringGreaterThan :: "string option"
  StringLessThanEquals :: "string option"
  StringGreaterThanEquals :: "string option"
  StringEqualsPath :: "string option"
  StringLessThanPath :: "string option"
  StringGreaterThanPath :: "string option"
  StringLessThanEqualsPath :: "string option"
  StringGreaterThanEqualsPath :: "string option"
  NumericEquals :: "rat option"
  NumericLessThan :: "rat option"
  NumericGreaterThan :: "rat option"
  NumericLessThanEquals :: "rat option"
  NumericGreaterThanEquals :: "rat option"
  NumericEqualsPath :: "string option"
  NumericLessThanPath :: "string option"
  NumericGreaterThanPath :: "string option"
  NumericLessThanEqualsPath :: "string option"
  NumericGreaterThanEqualsPath :: "string option"
  BooleanEquals :: "bool option"
  BooleanEqualsPath :: "string option"
  TimestampEquals :: "string option"
  TimestampLessThan :: "string option"
  TimestampGreaterThan :: "string option"
  TimestampLessThanEquals :: "string option"
  TimestampGreaterThanEquals :: "string option"
  IsPresent :: "bool option"
  IsNull :: "bool option"
  IsNumeric :: "bool option"
  IsString :: "bool option"
  IsBoolean :: "bool option"
  IsTimestamp :: "bool option"

datatype ChoiceRule = ChoiceRule
  (rule_test: ChoiceTest) (rule_And: "ChoiceRule list") (rule_Or: "ChoiceRule list") (rule_Not: "ChoiceRule option")

section \<open>States\<close>

record PassState =
  pass_Next :: string
  pass_End :: bool
  pass_InputPath :: Path
  pass_OutputPath :: Path
  pass_Parameters :: string
  pass_Result :: string
  pass_ResultPath :: Path
  pass_Comment :: string

record TaskState =
  task_Resource :: string
  task_Next :: string
  task_End :: bool
  task_InputPath :: Path
  task_OutputPath :: Path
  task_Parameters :: string
  task_ResultSelector :: string
  task_ResultPath :: Path
  task_Retry :: "Retrier list"
  task_Catch :: "Catcher list"
  task_TimeoutSeconds :: int
  task_Comment :: string

record ChoiceState =
  choice_InputPath :: Path
  choice_OutputPath :: Path
  choice_Choices :: "ChoiceRule list"
  choice_Default :: string
  choice_Comment :: string

record WaitState =
  wait_Next :: string
  wait_End :: bool
  wait_InputPath :: Path
  wait_OutputPath :: Path
  wait_Seconds :: "int option"
  wait_Timestamp :: string
  wait_SecondsPath :: string
  wait_TimestampPath :: string
  wait_Comment :: string

record SucceedState =
  succeed_InputPath :: Path
  succeed_OutputPath :: Path
  succeed_Comment :: string

record FailState =
  fail_Error :: string
  fail_Cause :: string
  fail_Comment :: string

text \<open>Parallel and Map without the machines they run.\<close>

record ParallelState =
  par_Next :: string
  par_End :: bool
  par_InputPath :: Path
  par_OutputPath :: Path
  par_Parameters :: string
  par_ResultSelector :: string
  par_ResultPath :: Path
  par_Retry :: "Retrier list"
  par_Catch :: "Catcher list"
  par_Comment :: string

record MapState =
  map_ItemsPath :: string
  map_MaxConcurrency :: int
  map_Next :: string
  map_End :: bool
  map_InputPath :: Path
  map_OutputPath :: Path
  map_Parameters :: string
  map_ItemSelector :: string
  map_ResultSelector :: string
  map_ResultPath :: Path
  map_Retry :: "Retrier list"
  map_Catch :: "Catcher list"
  map_Comment :: string

datatype State =
    Pass PassState
  | Task TaskState
  | Choice ChoiceState
  | Wait WaitState
  | Succeed SucceedState
  | Fail FailState
  | Parallel ParallelState "Machine list"
  | MapS MapState "Machine option" "Machine option"
and Machine = Machine (StartAt: string) (States: "(string \<times> State) list") (TimeoutSeconds: int) (Comment: string)

fun StateType :: "State \<Rightarrow> string" where
  "StateType (Pass _) = ''Pass''"
| "StateType (Task _) = ''Task''"
| "StateType (Choice _) = ''Choice''"
| "StateType (Wait _) = ''Wait''"
| "StateType (Succeed _) = ''Succeed''"
| "StateType (Fail _) = ''Fail''"
| "StateType (Parallel _ _) = ''Parallel''"
| "StateType (MapS _ _ _) = ''Map''"

text \<open>\<open>Processor\<close>: the modern ItemProcessor, else the legacy Iterator.\<close>

definition Processor :: "Machine option \<Rightarrow> Machine option \<Rightarrow> Machine option" where
  "Processor itemProcessor legacyIterator = (if itemProcessor \<noteq> None then itemProcessor else legacyIterator)"

section \<open>Validation\<close>

text \<open>A \<open>ParseError\<close> is the path and the message; \<open>None\<close> says that there is no error.\<close>

type_synonym parse_check = "(string \<times> string) option"

definition joinPath :: "string \<Rightarrow> string \<Rightarrow> string" where
  "joinPath pfx field = (if pfx = '''' then field else pfx @ ''.'' @ field)"

definition validateTransition :: "string list \<Rightarrow> string \<Rightarrow> string \<Rightarrow> bool \<Rightarrow> parse_check" where
  "validateTransition names path nxt isEnd =
     (if isEnd then (if nxt \<noteq> '''' then Some (path, ''state must not set both Next and End'') else None)
      else if nxt = '''' then Some (path, ''non-terminal state must set Next or End'')
      else if nxt \<notin> set names then Some (path, ''Next '' @ goQuote nxt @ '' is not a defined state'')
      else None)"

definition ruleHasCondition :: "ChoiceRule \<Rightarrow> bool" where
  "ruleHasCondition r =
     (if length (rule_And r) > 0 \<or> length (rule_Or r) > 0 \<or> rule_Not r \<noteq> None then True
      else trimSpace (Variable (rule_test r)) \<noteq> '''')"

fun validateRules :: "string list \<Rightarrow> string \<Rightarrow> int \<Rightarrow> ChoiceRule list \<Rightarrow> parse_check" where
  "validateRules names path i [] = None"
| "validateRules names path i (r # rs) =
     (let rp = path @ ''.Choices['' @ itoa i @ '']''; nxt = rule_Next (rule_test r) in
      if nxt = '''' then Some (rp, ''Choice rule requires Next'')
      else if nxt \<notin> set names then Some (rp, ''Next '' @ goQuote nxt @ '' is not a defined state'')
      else if \<not> ruleHasCondition r then Some (rp, ''Choice rule has no condition'')
      else validateRules names path (i + 1) rs)"

definition validateChoice :: "string list \<Rightarrow> ChoiceState \<Rightarrow> string \<Rightarrow> parse_check" where
  "validateChoice names s path =
     (if choice_Choices s = [] then Some (path, ''Choice state requires at least one rule'')
      else (case validateRules names path 0 (choice_Choices s) of
          Some e \<Rightarrow> Some e
        | None \<Rightarrow>
            if choice_Default s \<noteq> '''' \<and> choice_Default s \<notin> set names
            then Some (path, ''Default '' @ goQuote (choice_Default s) @ '' is not a defined state'')
            else None))"

fun validateCatchersFrom :: "string list \<Rightarrow> string \<Rightarrow> int \<Rightarrow> Catcher list \<Rightarrow> parse_check" where
  "validateCatchersFrom names path i [] = None"
| "validateCatchersFrom names path i (c # cs) =
     (let cp = path @ ''.Catch['' @ itoa i @ '']'' in
      if catch_Next c = '''' then Some (cp, ''Catch requires Next'')
      else if catch_Next c \<notin> set names
      then Some (cp, ''Next '' @ goQuote (catch_Next c) @ '' is not a defined state'')
      else validateCatchersFrom names path (i + 1) cs)"

definition validateCatchers :: "string list \<Rightarrow> string \<Rightarrow> Catcher list \<Rightarrow> parse_check" where
  "validateCatchers names path catchers = validateCatchersFrom names path 0 catchers"

definition validateWait :: "WaitState \<Rightarrow> string \<Rightarrow> parse_check" where
  "validateWait s path =
     (let set0 = (if wait_Seconds s \<noteq> None then 1 else 0);
          set1 = (if wait_Timestamp s \<noteq> '''' then set0 + 1 else set0);
          set2 = (if wait_SecondsPath s \<noteq> '''' then set1 + 1 else set1);
          set3 = (if wait_TimestampPath s \<noteq> '''' then set2 + 1 else set2) in
      if set3 \<noteq> (1 :: int)
      then Some (path, ''Wait state requires exactly one of Seconds, Timestamp, SecondsPath, TimestampPath'')
      else None)"

text \<open>Checks in sequence: the first error wins.\<close>

definition andThen :: "parse_check \<Rightarrow> parse_check \<Rightarrow> parse_check" where
  "andThen a b = (case a of Some e \<Rightarrow> Some e | None \<Rightarrow> b)"

text \<open>\<open>validateState\<close> looks only at the names of the states of its machine.\<close>

fun validateMachine :: "Machine \<Rightarrow> string \<Rightarrow> parse_check"
  and validateStates :: "string list \<Rightarrow> string \<Rightarrow> (string \<times> State) list \<Rightarrow> parse_check"
  and validateState :: "string list \<Rightarrow> State \<Rightarrow> string \<Rightarrow> parse_check"
  and validateBranches :: "string \<Rightarrow> int \<Rightarrow> Machine list \<Rightarrow> parse_check" where
  "validateMachine (Machine startAt states timeoutSeconds comment) pfx =
     (if startAt = '''' then Some (joinPath pfx ''StartAt'', ''StartAt is required'')
      else if states = [] then Some (joinPath pfx ''States'', ''States must not be empty'')
      else if startAt \<notin> set (map fst states)
      then Some (joinPath pfx ''StartAt'', ''StartAt '' @ goQuote startAt @ '' is not a defined state'')
      else validateStates (map fst states) pfx states)"
| "validateStates names pfx [] = None"
| "validateStates names pfx ((name, st) # states) =
     andThen (validateState names st (joinPath pfx (''States.'' @ name))) (validateStates names pfx states)"
| "validateState names (Pass s) path = validateTransition names path (pass_Next s) (pass_End s)"
| "validateState names (Task s) path =
     (if trimSpace (task_Resource s) = '''' then Some (path, ''Task state requires a Resource'')
      else andThen (validateTransition names path (task_Next s) (task_End s))
             (validateCatchers names path (task_Catch s)))"
| "validateState names (Wait s) path =
     andThen (validateWait s path) (validateTransition names path (wait_Next s) (wait_End s))"
| "validateState names (Choice s) path = validateChoice names s path"
| "validateState names (Succeed s) path = None"
| "validateState names (Fail s) path = None"
| "validateState names (Parallel s branches) path =
     (if branches = [] then Some (path, ''Parallel state requires at least one branch'')
      else andThen (validateBranches path 0 branches)
             (andThen (validateTransition names path (par_Next s) (par_End s))
                (validateCatchers names path (par_Catch s))))"
| "validateState names (MapS s (Some proc) it) path =
     andThen (validateMachine proc (path @ ''.ItemProcessor''))
       (andThen (validateTransition names path (map_Next s) (map_End s))
          (validateCatchers names path (map_Catch s)))"
| "validateState names (MapS s None (Some proc)) path =
     andThen (validateMachine proc (path @ ''.ItemProcessor''))
       (andThen (validateTransition names path (map_Next s) (map_End s))
          (validateCatchers names path (map_Catch s)))"
| "validateState names (MapS s None None) path = Some (path, ''Map state requires an ItemProcessor'')"
| "validateBranches path i [] = None"
| "validateBranches path i (b # bs) =
     andThen (validateMachine b (path @ ''.Branches['' @ itoa i @ '']'')) (validateBranches path (i + 1) bs)"

definition Parse :: "(string \<Rightarrow> string + Machine) \<Rightarrow> string \<Rightarrow> (string \<times> string) + Machine" where
  "Parse unmarshalMachine text0 =
     (if trimSpace text0 = '''' then Inl ('''', ''definition is empty'')
      else (case unmarshalMachine text0 of
          Inl err \<Rightarrow> Inl ('''', ''invalid JSON: '' @ err)
        | Inr m \<Rightarrow> (case validateMachine m '''' of Some e \<Rightarrow> Inl e | None \<Rightarrow> Inr m)))"

end
