(* ===== verification/SFN_Path.thy ===== *)
theory SFN_Path
  imports Tarn_Json
begin

text \<open>
  Errors and reference paths of the Step Functions interpreter
  (\<open>internal/stepfunctions/interpreter/errors.go\<close>, \<open>jsonpath.go\<close>): parsing a path such as
  \<open>$.a['b'][2]\<close>, selecting a value and inserting one.
\<close>

section \<open>Errors\<close>

text \<open>A Go \<open>error\<close> of the interpreter: a \<open>StateError\<close> with its name and cause, the sentinel
  \<open>ErrAborted\<close>, or another error of the task executor with its text.\<close>

datatype sfn_error = StateError string string | Aborted | OtherError string

type_synonym 'a sfn_result = "sfn_error + 'a"

definition ErrAll :: string where "ErrAll = ''States.ALL''"
definition ErrTaskFailed :: string where "ErrTaskFailed = ''States.TaskFailed''"
definition ErrTimeout :: string where "ErrTimeout = ''States.Timeout''"
definition ErrRuntime :: string where "ErrRuntime = ''States.Runtime''"
definition ErrBranchFailed :: string where "ErrBranchFailed = ''States.BranchFailed''"
definition ErrNoChoiceMatched :: string where "ErrNoChoiceMatched = ''States.NoChoiceMatched''"
definition ErrParameterPathFailure :: string where "ErrParameterPathFailure = ''States.ParameterPathFailure''"
definition ErrResultPathMatchFailure :: string where
  "ErrResultPathMatchFailure = ''States.ResultPathMatchFailure''"
definition ErrIntrinsicFailure :: string where "ErrIntrinsicFailure = ''States.IntrinsicFailure''"

text \<open>The text of an error, Go's method \<open>Error\<close>.\<close>

fun errorText :: "sfn_error \<Rightarrow> string" where
  "errorText (StateError name cause) = (if cause = '''' then name else name @ '': '' @ cause)"
| "errorText Aborted = ''execution aborted''"
| "errorText (OtherError t) = t"

section \<open>Parsing\<close>

datatype seg = Key string | Index int

definition bracketSegment :: "string \<Rightarrow> string \<Rightarrow> seg sfn_result" where
  "bracketSegment inner path =
     (if length inner \<ge> 2 \<and> (hd inner = CHR 0x27 \<or> hd inner = CHR 0x22) then
        (if last inner \<noteq> hd inner
         then Inl (StateError ErrRuntime (''unterminated key in path '' @ goQuote path))
         else Inr (Key (butlast (tl inner))))
      else (case atoi inner of
          None \<Rightarrow> Inl (StateError ErrRuntime
                    (''invalid array index '' @ goQuote inner @ '' in path '' @ goQuote path))
        | Some idx \<Rightarrow> Inr (Index idx)))"

definition keyChar :: "char \<Rightarrow> bool" where
  "keyChar c \<longleftrightarrow> c \<noteq> CHR ''.'' \<and> c \<noteq> CHR ''[''"

text \<open>The loop of \<open>parsePath\<close> over the text after the dollar.\<close>

function parseSegs :: "string \<Rightarrow> string \<Rightarrow> seg list sfn_result" where
  "parseSegs path rest = (case rest of
      [] \<Rightarrow> Inr []
    | c # cs \<Rightarrow>
        if c = CHR ''.'' then
          (let key = takeWhile keyChar cs in
           if key = [] then Inl (StateError ErrRuntime (''invalid reference path '' @ goQuote path))
           else map_sum id (Cons (Key key)) (parseSegs path (dropWhile keyChar cs)))
        else if c = CHR ''['' then
          (case indexByte rest (CHR '']'') of
             None \<Rightarrow> Inl (StateError ErrRuntime (''unbalanced brackets in path '' @ goQuote path))
           | Some close \<Rightarrow>
               (case bracketSegment (trimSpace (take (close - 1) cs)) path of
                  Inl e \<Rightarrow> Inl e
                | Inr seg \<Rightarrow> map_sum id (Cons seg) (parseSegs path (drop (close + 1) rest))))
        else Inl (StateError ErrRuntime (''unexpected character in path '' @ goQuote path)))"
  by pat_completeness auto
termination
  by (relation "measure (\<lambda>(path, rest). length rest)") (auto simp: le_imp_less_Suc length_dropWhile_le)

declare parseSegs.simps [simp del]

definition parsePath :: "string \<Rightarrow> seg list sfn_result" where
  "parsePath path =
     (if path = [] \<or> hd path \<noteq> CHR ''$''
      then Inl (StateError ErrRuntime (''invalid reference path '' @ goQuote path))
      else parseSegs path (tl path))"

section \<open>Selecting and inserting\<close>

fun getSegs :: "string \<Rightarrow> json \<Rightarrow> seg list \<Rightarrow> json sfn_result" where
  "getSegs path cur [] = Inr cur"
| "getSegs path cur (Key s # segs) = (case cur of
      JObj m \<Rightarrow> (case map_of m s of
          None \<Rightarrow> Inl (StateError ErrRuntime (''path '' @ goQuote path @ '': key '' @ goQuote s @ '' not found''))
        | Some v \<Rightarrow> getSegs path v segs)
    | _ \<Rightarrow> Inl (StateError ErrRuntime (''path '' @ goQuote path @ '': '' @ goQuote s @ '' is not an object'')))"
| "getSegs path cur (Index s # segs) = (case cur of
      JArr arr \<Rightarrow>
        if s < 0 \<or> s \<ge> int (length arr)
        then Inl (StateError ErrRuntime (''path '' @ goQuote path @ '': index '' @ itoa s @ '' out of range''))
        else getSegs path (arr ! nat s) segs
    | _ \<Rightarrow> Inl (StateError ErrRuntime (''path '' @ goQuote path @ '': not an array'')))"

definition getPath :: "json \<Rightarrow> string \<Rightarrow> json sfn_result" where
  "getPath data path = (case parsePath path of Inl e \<Rightarrow> Inl e | Inr segs \<Rightarrow> getSegs path data segs)"

fun setSegs :: "json \<Rightarrow> seg list \<Rightarrow> json \<Rightarrow> json sfn_result" where
  "setSegs data [] v = Inr v"
| "setSegs data (Index i # segs) v =
     Inl (StateError ErrResultPathMatchFailure ''ResultPath does not support array indices'')"
| "setSegs data (Key key # segs) v =
     (let m = (case data of JObj m \<Rightarrow> m | _ \<Rightarrow> []) in
      case setSegs (case map_of m key of None \<Rightarrow> JNull | Some c \<Rightarrow> c) segs v of
        Inl e \<Rightarrow> Inl e
      | Inr child \<Rightarrow> Inr (JObj (AList.update key child m)))"

definition setPath :: "json \<Rightarrow> string \<Rightarrow> json \<Rightarrow> json sfn_result" where
  "setPath data path v =
     (if path = ''$'' then Inr v
      else (case parsePath path of Inl e \<Rightarrow> Inl e | Inr segs \<Rightarrow> setSegs data segs v))"

section \<open>Lemmas\<close>

lemma getSegs_append:
  "getSegs path data (xs @ ys) = (case getSegs path data xs of Inl e \<Rightarrow> Inl e | Inr v \<Rightarrow> getSegs path v ys)"
  by (induction path data xs rule: getSegs.induct) (auto split: json.splits option.splits)

lemma get_set_segs: "setSegs data segs v = Inr data' \<Longrightarrow> getSegs path data' segs = Inr v"
  by (induction data segs v arbitrary: data' rule: setSegs.induct) (auto simp: Let_def split: sum.splits)

text \<open>Two paths diverge when after some common keys they continue with different keys.\<close>

fun diverge :: "seg list \<Rightarrow> seg list \<Rightarrow> bool" where
  "diverge (Key x # xs) (Key y # ys) = (x \<noteq> y \<or> diverge xs ys)"
| "diverge _ _ = False"

lemma get_set_segs_frame:
  "setSegs data segs v = Inr data' \<Longrightarrow> diverge segs qs \<Longrightarrow> getSegs path data qs = Inr w \<Longrightarrow>
     getSegs path data' qs = Inr w"
proof (induction data segs v arbitrary: data' qs rule: setSegs.induct)
  case (3 data key segs v)
  from "3.prems"(2) obtain k qs' where qs: "qs = Key k # qs'" by (auto elim: diverge.elims)
  with "3.prems"(3) obtain m x where m: "data = JObj m" "map_of m k = Some x" "getSegs path x qs' = Inr w"
    by (auto split: json.splits option.splits)
  show ?case
  proof (cases "k = key")
    case True
    with "3.prems"(1) m obtain child where c: "setSegs x segs v = Inr child" "data' = JObj (AList.update key child m)"
      by (auto simp: Let_def split: sum.splits)
    from True qs "3.prems"(2) have "diverge segs qs'" by simp
    with "3.IH" [of m child qs'] c m True show ?thesis by (auto simp: qs)
  next
    case False
    with "3.prems"(1) m show ?thesis by (auto simp: qs Let_def split: sum.splits)
  qed
qed auto

section \<open>Printing a path\<close>

fun printSeg :: "seg \<Rightarrow> string" where
  "printSeg (Key k) = CHR ''.'' # k"
| "printSeg (Index i) = ''['' @ itoa i @ '']''"

definition printPath :: "seg list \<Rightarrow> string" where
  "printPath segs = CHR ''$'' # concat (map printSeg segs)"

fun plainSeg :: "seg \<Rightarrow> bool" where
  "plainSeg (Key k) = (k \<noteq> [] \<and> list_all keyChar k)"
| "plainSeg (Index i) = in_int64 i"

lemma takeWhile_key:
  assumes "list_all keyChar k" and "rest = [] \<or> \<not> keyChar (hd rest)"
  shows "takeWhile keyChar (k @ rest) = k" and "dropWhile keyChar (k @ rest) = rest"
  using assms by (induction k) (cases rest; auto)+

lemma printSegs_hd: "segs = [] \<or> \<not> keyChar (hd (concat (map printSeg segs)))"
  by (cases segs rule: list.exhaust; cases "hd segs") (auto simp: keyChar_def)

lemma itoa_chars: "c \<in> set (itoa i) \<Longrightarrow> isDigit c \<or> c = CHR ''-''"
  using natToDec_digits [of "nat (- i)"] natToDec_digits [of "nat i"]
  by (auto simp: itoa_def list_all_iff split: if_splits)

lemma indexByte_append: "c \<notin> set xs \<Longrightarrow> indexByte (xs @ c # ys) c = Some (length xs)"
  by (induction xs) auto

lemma trimSpace_id: "list_all (\<lambda>c. \<not> isSpace c) s \<Longrightarrow> trimSpace s = s"
proof -
  assume s: "list_all (\<lambda>c. \<not> isSpace c) s"
  have d: "dropWhile isSpace t = t" if "\<forall>c \<in> set t. \<not> isSpace c" for t using that by (cases t) auto
  have "dropWhile isSpace s = s" "dropWhile isSpace (rev s) = rev s"
    using s by (auto intro!: d simp: list_all_iff)
  then show ?thesis by (simp add: trimSpace_def)
qed

lemma itoa_not_bracket: "CHR '']'' \<notin> set (itoa i)" "list_all (\<lambda>c. \<not> isSpace c) (itoa i)"
  "itoa i \<noteq> []" "hd (itoa i) \<noteq> CHR 0x27 \<and> hd (itoa i) \<noteq> CHR 0x22"
proof -
  show "CHR '']'' \<notin> set (itoa i)" using itoa_chars [of "CHR '']''" i] by (auto simp: isDigit_def)
  show "list_all (\<lambda>c. \<not> isSpace c) (itoa i)"
    using itoa_chars [of _ i] isDigit_not_sign by (force simp: list_all_iff isSpace_def Let_def)
  show ne: "itoa i \<noteq> []" using natToDec_not_Nil by (simp add: itoa_def)
  from itoa_chars [OF hd_in_set [OF ne]] show "hd (itoa i) \<noteq> CHR 0x27 \<and> hd (itoa i) \<noteq> CHR 0x22"
    by (auto simp: isDigit_def)
qed

lemma parseSegs_print:
  "list_all plainSeg segs \<Longrightarrow> parseSegs path (concat (map printSeg segs)) = Inr segs"
proof (induction segs)
  case Nil
  then show ?case by (simp add: parseSegs.simps)
next
  case (Cons s segs)
  let ?rest = "concat (map printSeg segs)"
  have IH: "parseSegs path ?rest = Inr segs" using Cons by simp
  have hd: "?rest = [] \<or> \<not> keyChar (hd ?rest)" using printSegs_hd [of segs] by auto
  show ?case
  proof (cases s)
    case (Key k)
    with Cons.prems have k: "k \<noteq> []" "list_all keyChar k" by auto
    have "parseSegs path (CHR ''.'' # k @ ?rest) = Inr (Key k # segs)"
      by (subst parseSegs.simps) (simp add: takeWhile_key [OF k(2) hd] k(1) IH)
    then show ?thesis by (simp add: Key)
  next
    case (Index i)
    have i: "in_int64 i" using Cons.prems Index by simp
    have ib: "indexByte (itoa i @ CHR '']'' # ?rest) (CHR '']'') = Some (length (itoa i))"
      by (rule indexByte_append [OF itoa_not_bracket(1)])
    have br: "bracketSegment (itoa i) path = Inr (Index i)"
      using itoa_not_bracket(4) [of i] atoi_itoa [OF i] by (auto simp: bracketSegment_def)
    have "parseSegs path (CHR ''['' # itoa i @ CHR '']'' # ?rest) = Inr (Index i # segs)"
      by (subst parseSegs.simps) (simp add: ib trimSpace_id [OF itoa_not_bracket(2)] br IH)
    then show ?thesis by (simp add: Index)
  qed
qed

text \<open>Printing and parsing reference paths: a path written from keys without dots and brackets and from
  int64 indices parses back to the same segments.\<close>

theorem parsePath_printPath:
  assumes "list_all plainSeg segs"
  shows "parsePath (printPath segs) = Inr segs"
  using parseSegs_print [OF assms] by (simp add: parsePath_def printPath_def)

theorem parsePath_printPath_witness:
  "parsePath (printPath [Key ''a'', Index 2, Key ''b'']) = Inr [Key ''a'', Index 2, Key ''b'']"
  by (rule parsePath_printPath) (simp add: keyChar_def in_int64_def)

text \<open>Inserting at a path and selecting at it: when \<open>setPath\<close> succeeds, \<open>getPath\<close> at the same path returns
  the inserted value, and every value that was selected by a path diverging from it is still there.\<close>

theorem setPath_getPath:
  assumes "setPath data path v = Inr data'"
  shows "getPath data' path = Inr v \<and>
    (\<forall>other segs qs w. parsePath path = Inr segs \<and> parsePath other = Inr qs \<and> diverge segs qs \<and>
       getPath data other = Inr w \<longrightarrow> getPath data' other = Inr w)"
proof (cases "path = ''$''")
  case True
  then have "data' = v" "parsePath path = Inr []"
    using assms by (simp_all add: setPath_def parsePath_def parseSegs.simps)
  then show ?thesis by (auto simp: getPath_def)
next
  case False
  with assms obtain segs where "parsePath path = Inr segs" "setSegs data segs v = Inr data'"
    by (auto simp: setPath_def split: sum.splits)
  then show ?thesis using get_set_segs get_set_segs_frame by (auto simp: getPath_def)
qed

theorem setPath_getPath_witness:
  "getPath (JObj [(''a'', JNum 1), (''r'', JObj [(''out'', JBool True)])]) ''$.r.out'' = Inr (JBool True) \<and>
   getPath (JObj [(''a'', JNum 1), (''r'', JObj [(''out'', JBool True)])]) ''$.a'' = Inr (JNum 1)"
proof -
  have p: "parsePath ''$.r.out'' = Inr [Key ''r'', Key ''out'']" "parsePath ''$.a'' = Inr [Key ''a'']"
    by (simp_all add: parsePath_def parseSegs.simps keyChar_def)
  have "setPath (JObj [(''a'', JNum 1)]) ''$.r.out'' (JBool True) =
      Inr (JObj [(''a'', JNum 1), (''r'', JObj [(''out'', JBool True)])])"
    by (simp add: setPath_def p)
  from setPath_getPath [OF this] show ?thesis using p by (auto simp: getPath_def)
qed

end
