(* ===== verification/SFN_IO.thy ===== *)
theory SFN_IO
  imports SFN_Path
begin

text \<open>
  Input and output processing of Step Functions states
  (\<open>internal/stepfunctions/interpreter/io.go\<close>, \<open>intrinsics.go\<close>): selecting input and output,
  evaluating templates and intrinsic functions, merging a result.

  \<open>sfn_env\<close> holds what the code takes from the standard library without its own logic: JSON decoding
  and encoding (\<open>Inl\<close> is the error text), number formatting and parsing, and RFC 3339 times (as
  nanoseconds). A template object is read in the order of its association list.
\<close>

record sfn_env =
  unmarshal :: "string \<Rightarrow> string + json"
  marshal :: "json \<Rightarrow> string + string"
  formatFloat :: "rat \<Rightarrow> string"
  parseFloat :: "string \<Rightarrow> rat option"
  parseTime :: "string \<Rightarrow> string + int"

section \<open>Intrinsic functions\<close>

definition intrinsicError :: "string \<Rightarrow> 'a sfn_result" where
  "intrinsicError cause = Inl (StateError ErrIntrinsicFailure cause)"

text \<open>The loop of \<open>splitArgs\<close>; \<open>b\<close> is the argument collected so far, reversed.\<close>

fun splitLoop :: "string \<Rightarrow> string \<Rightarrow> int \<Rightarrow> bool \<Rightarrow> string list sfn_result" where
  "splitLoop [] b depth inStr =
     (if inStr then intrinsicError ''unterminated string literal in intrinsic'' else Inr [rev b])"
| "splitLoop (c # cs) b depth inStr =
     (if inStr then
        (if c = CHR 0x5C then
           (case cs of [] \<Rightarrow> splitLoop [] (c # b) depth True | d # ds \<Rightarrow> splitLoop ds (d # c # b) depth True)
         else splitLoop cs (c # b) depth (c \<noteq> CHR 0x27))
      else if c = CHR 0x27 then splitLoop cs (c # b) depth True
      else if c = CHR ''('' then splitLoop cs (c # b) (depth + 1) False
      else if c = CHR '')'' then splitLoop cs (c # b) (depth - 1) False
      else if c = CHR '','' \<and> depth = 0 then map_sum id (Cons (rev b)) (splitLoop cs [] depth False)
      else splitLoop cs (c # b) depth False)"

definition splitArgs :: "string \<Rightarrow> string list sfn_result" where
  "splitArgs s = (if trimSpace s = '''' then Inr [] else splitLoop s [] 0 False)"

fun unescape :: "string \<Rightarrow> string" where
  "unescape [] = []"
| "unescape (c # cs) =
     (if c = CHR 0x5C then (case cs of [] \<Rightarrow> [c] | d # ds \<Rightarrow> d # unescape ds) else c # unescape cs)"

definition parseStringLiteral :: "string \<Rightarrow> string sfn_result" where
  "parseStringLiteral s =
     (if length s < 2 \<or> last s \<noteq> CHR 0x27 then intrinsicError (''malformed string literal '' @ goQuote s)
      else Inr (unescape (butlast (tl s))))"

fun stringify :: "sfn_env \<Rightarrow> json \<Rightarrow> string" where
  "stringify E (JStr x) = x"
| "stringify E JNull = ''null''"
| "stringify E (JBool x) = (if x then ''true'' else ''false'')"
| "stringify E (JNum x) = formatFloat E x"
| "stringify E v = (case marshal E v of Inl _ \<Rightarrow> '''' | Inr encoded \<Rightarrow> encoded)"

text \<open>The loop of \<open>intrinsicFormat\<close> over the template.\<close>

fun formatLoop :: "sfn_env \<Rightarrow> string \<Rightarrow> json list \<Rightarrow> string sfn_result" where
  "formatLoop E [] rest = Inr []"
| "formatLoop E (c # cs) rest =
     (if c = CHR ''{'' \<and> cs \<noteq> [] \<and> hd cs = CHR ''}'' then
        (case rest of
           [] \<Rightarrow> intrinsicError ''States.Format: not enough arguments for template''
         | a # as \<Rightarrow> map_sum id (append (stringify E a)) (formatLoop E (tl cs) as))
      else map_sum id (Cons c) (formatLoop E cs rest))"

definition intrinsicFormat :: "sfn_env \<Rightarrow> json list \<Rightarrow> json sfn_result" where
  "intrinsicFormat E args = (case args of
      [] \<Rightarrow> intrinsicError ''States.Format requires a template''
    | JStr tmpl # rest \<Rightarrow> map_sum id JStr (formatLoop E tmpl rest)
    | _ \<Rightarrow> intrinsicError ''States.Format template must be a string'')"

definition intrinsicJSONToString :: "sfn_env \<Rightarrow> json list \<Rightarrow> json sfn_result" where
  "intrinsicJSONToString E args = (case args of
      [a] \<Rightarrow> (case marshal E a of Inl err \<Rightarrow> intrinsicError err | Inr encoded \<Rightarrow> Inr (JStr encoded))
    | _ \<Rightarrow> intrinsicError ''States.JsonToString requires exactly one argument'')"

definition intrinsicStringToJSON :: "sfn_env \<Rightarrow> json list \<Rightarrow> json sfn_result" where
  "intrinsicStringToJSON E args = (case args of
      [JStr s] \<Rightarrow> (case unmarshal E s of Inl err \<Rightarrow> intrinsicError err | Inr v \<Rightarrow> Inr v)
    | [_] \<Rightarrow> intrinsicError ''States.StringToJson requires a string argument''
    | _ \<Rightarrow> intrinsicError ''States.StringToJson requires exactly one argument'')"

definition applyIntrinsic :: "sfn_env \<Rightarrow> string \<Rightarrow> json list \<Rightarrow> json sfn_result" where
  "applyIntrinsic E name args =
     (if name = ''States.Format'' then intrinsicFormat E args
      else if name = ''States.JsonToString'' then intrinsicJSONToString E args
      else if name = ''States.StringToJson'' then intrinsicStringToJSON E args
      else if name = ''States.Array'' then Inr (JArr args)
      else intrinsicError (''unsupported intrinsic '' @ goQuote name))"

text \<open>The name and the raw arguments of an intrinsic, the first half of \<open>parseIntrinsic\<close>.\<close>

definition splitIntrinsic :: "string \<Rightarrow> (string \<times> string list) sfn_result" where
  "splitIntrinsic expr = (case indexByte expr (CHR ''('') of
      None \<Rightarrow> intrinsicError (''malformed intrinsic '' @ goQuote expr)
    | Some openAt \<Rightarrow>
        if \<not> hasSuffix expr '')'' then intrinsicError (''malformed intrinsic '' @ goQuote expr)
        else map_sum id (Pair (take openAt expr)) (splitArgs (butlast (drop (openAt + 1) expr))))"

lemma map_sum_eq_Inr: "map_sum id f r = Inr y \<longleftrightarrow> (\<exists>x. r = Inr x \<and> y = f x)"
  by (cases r) auto

lemma splitLoop_length:
  "splitLoop s b depth inStr = Inr raws \<Longrightarrow> sum_list (map length raws) \<le> length s + length b"
proof (induction s b depth inStr arbitrary: raws rule: splitLoop.induct)
  case (2 c cs b depth inStr)
  show ?case
  proof (cases "\<not> inStr \<and> c = CHR '','' \<and> depth = 0")
    case True
    with "2.prems" obtain rs where "splitLoop cs [] depth False = Inr rs" "raws = rev b # rs"
      by (cases "splitLoop cs [] depth False") auto
    with 2 True show ?thesis by fastforce
  next
    case False
    with "2.prems" "2.IH" show ?thesis
      by (cases cs) (fastforce simp: intrinsicError_def split: if_splits)+
  qed
qed (auto simp: intrinsicError_def split: if_splits)

lemma indexByte_less: "indexByte s c = Some i \<Longrightarrow> i < length s"
  by (induction s arbitrary: i) (auto split: if_splits)

lemma splitIntrinsic_shorter:
  assumes "splitIntrinsic expr = Inr (name, raws)"
  shows "sum_list (map length raws) < length expr"
proof -
  obtain i where i: "indexByte expr (CHR ''('') = Some i" "splitArgs (butlast (drop (i + 1) expr)) = Inr raws"
    using assms
    by (auto simp: splitIntrinsic_def intrinsicError_def map_sum_eq_Inr split: option.splits if_splits)
  have "sum_list (map length raws) \<le> length (butlast (drop (i + 1) expr))"
    using i(2) splitLoop_length [of "butlast (drop (i + 1) expr)" "[]" 0 False raws]
    by (auto simp: splitArgs_def split: if_splits)
  with indexByte_less [OF i(1)] show ?thesis by simp
qed

lemma trimSpace_length: "length (trimSpace s) \<le> length s"
  unfolding trimSpace_def by (metis length_dropWhile_le length_rev le_trans)

function evalIntrinsic :: "sfn_env \<Rightarrow> json \<Rightarrow> json_object \<Rightarrow> string \<Rightarrow> json sfn_result"
  and evalArgs :: "sfn_env \<Rightarrow> json \<Rightarrow> json_object \<Rightarrow> string list \<Rightarrow> json list sfn_result"
  and evalArg :: "sfn_env \<Rightarrow> json \<Rightarrow> json_object \<Rightarrow> string \<Rightarrow> json sfn_result" where
  "evalIntrinsic E rootVal ctx expr = (case splitIntrinsic expr of
      Inl e \<Rightarrow> Inl e
    | Inr (name, rawArgs) \<Rightarrow> (case evalArgs E rootVal ctx rawArgs of
        Inl e \<Rightarrow> Inl e
      | Inr args \<Rightarrow> applyIntrinsic E name args))"
| "evalArgs E rootVal ctx [] = Inr []"
| "evalArgs E rootVal ctx (raw # raws) = (case evalArg E rootVal ctx (trimSpace raw) of
      Inl e \<Rightarrow> Inl e
    | Inr v \<Rightarrow> map_sum id (Cons v) (evalArgs E rootVal ctx raws))"
| "evalArg E rootVal ctx s =
     (if s = '''' then intrinsicError ''empty intrinsic argument''
      else if s = ''null'' then Inr JNull
      else if s = ''true'' then Inr (JBool True)
      else if s = ''false'' then Inr (JBool False)
      else if hd s = CHR 0x27 then map_sum id JStr (parseStringLiteral s)
      else if hasPrefix s ''States.'' then evalIntrinsic E rootVal ctx s
      else if hasPrefix s ''$$'' then getPath (JObj ctx) (tl s)
      else if hd s = CHR ''$'' then getPath rootVal s
      else (case parseFloat E s of
          Some f \<Rightarrow> Inr (JNum f)
        | None \<Rightarrow> intrinsicError (''invalid intrinsic argument '' @ goQuote s)))"
  by pat_completeness auto
termination
  by (relation "measures [\<lambda>x. case x of Inl (_, _, _, e) \<Rightarrow> length e
        | Inr (Inl (_, _, _, raws)) \<Rightarrow> sum_list (map length raws) | Inr (Inr (_, _, _, s)) \<Rightarrow> length s,
      \<lambda>x. case x of Inl _ \<Rightarrow> 0 | Inr (Inl (_, _, _, raws)) \<Rightarrow> length raws + 2 | Inr (Inr _) \<Rightarrow> 1]")
    (auto dest: splitIntrinsic_shorter simp: le_eq_less_or_eq [symmetric] trans_le_add1 trimSpace_length
      intro: le_neq_trans)

declare evalIntrinsic.simps [simp del] evalArg.simps [simp del]

section \<open>Templates\<close>

definition evalExpr :: "sfn_env \<Rightarrow> json \<Rightarrow> json_object \<Rightarrow> string \<Rightarrow> json sfn_result" where
  "evalExpr E rootVal ctx expr =
     (if hasPrefix expr ''States.'' then evalIntrinsic E rootVal ctx expr
      else if hasPrefix expr ''$$'' then getPath (JObj ctx) (tl expr)
      else if hasPrefix expr ''$'' then getPath rootVal expr
      else Inl (StateError ErrParameterPathFailure (''invalid path expression '' @ goQuote expr)))"

function (sequential) resolvePayload :: "sfn_env \<Rightarrow> json \<Rightarrow> json_object \<Rightarrow> json \<Rightarrow> json sfn_result"
  and resolveFields :: "sfn_env \<Rightarrow> json \<Rightarrow> json_object \<Rightarrow> json_object \<Rightarrow> json_object \<Rightarrow> json_object sfn_result"
  and resolveItems :: "sfn_env \<Rightarrow> json \<Rightarrow> json_object \<Rightarrow> json list \<Rightarrow> json list sfn_result" where
  "resolvePayload E rootVal ctx (JObj t) = map_sum id JObj (resolveFields E rootVal ctx t [])"
| "resolvePayload E rootVal ctx (JArr t) = map_sum id JArr (resolveItems E rootVal ctx t)"
| "resolvePayload E rootVal ctx template = Inr template"
| "resolveFields E rootVal ctx [] out = Inr out"
| "resolveFields E rootVal ctx ((k, v) # t) out =
     (if hasSuffix k ''.$'' then
        (case v of
           JStr expr \<Rightarrow> (case evalExpr E rootVal ctx expr of
               Inl e \<Rightarrow> Inl e
             | Inr val \<Rightarrow> resolveFields E rootVal ctx t (AList.update (trimSuffix k ''.$'') val out))
         | _ \<Rightarrow> Inl (StateError ErrParameterPathFailure (goQuote k @ '' must be a string'')))
      else (case resolvePayload E rootVal ctx v of
          Inl e \<Rightarrow> Inl e
        | Inr rv \<Rightarrow> resolveFields E rootVal ctx t (AList.update k rv out)))"
| "resolveItems E rootVal ctx [] = Inr []"
| "resolveItems E rootVal ctx (v # t) = (case resolvePayload E rootVal ctx v of
      Inl e \<Rightarrow> Inl e
    | Inr rv \<Rightarrow> map_sum id (Cons rv) (resolveItems E rootVal ctx t))"
  by pat_completeness auto
termination
  by (relation "measure (\<lambda>x. case x of Inl (_, _, _, j) \<Rightarrow> size j
      | Inr (Inl (_, _, _, t, _)) \<Rightarrow> size_list (size_prod (\<lambda>_. 0) size) t
      | Inr (Inr (_, _, _, t)) \<Rightarrow> size_list size t)") auto

section \<open>The five steps around a state\<close>

definition applyInputPath :: "json \<Rightarrow> string \<Rightarrow> json sfn_result" where
  "applyInputPath input path =
     (if path = '''' then Inr (JObj []) else if path = ''$'' then Inr input else getPath input path)"

definition applyOutputPath :: "json \<Rightarrow> string \<Rightarrow> json sfn_result" where
  "applyOutputPath output path =
     (if path = '''' then Inr (JObj []) else if path = ''$'' then Inr output else getPath output path)"

definition applyParameters :: "sfn_env \<Rightarrow> json \<Rightarrow> json_object \<Rightarrow> json \<Rightarrow> json sfn_result" where
  "applyParameters E input ctx params =
     (if params = JNull then Inr input else resolvePayload E input ctx params)"

definition applyResultSelector :: "sfn_env \<Rightarrow> json \<Rightarrow> json_object \<Rightarrow> json \<Rightarrow> json sfn_result" where
  "applyResultSelector E res ctx sel = (if sel = JNull then Inr res else resolvePayload E res ctx sel)"

definition applyResultPath :: "json \<Rightarrow> json \<Rightarrow> string \<Rightarrow> json sfn_result" where
  "applyResultPath input res path =
     (if path = ''$'' then Inr res else if path = '''' then Inr input else setPath input path res)"

section \<open>String literals\<close>

definition escapeChar :: "char \<Rightarrow> string" where
  "escapeChar c = (if c = CHR 0x27 \<or> c = CHR 0x5C then [CHR 0x5C, c] else [c])"

definition quoteLit :: "string \<Rightarrow> string" where
  "quoteLit s = CHR 0x27 # concat (map escapeChar s) @ [CHR 0x27]"

fun joinComma :: "string list \<Rightarrow> string" where
  "joinComma [] = []"
| "joinComma [x] = x"
| "joinComma (x # xs) = x @ CHR '','' # joinComma xs"

lemma unescape_escape: "unescape (concat (map escapeChar s)) = s"
  by (induction s) (auto simp: escapeChar_def)

lemma parseStringLiteral_quoteLit: "parseStringLiteral (quoteLit s) = Inr s"
  by (simp add: parseStringLiteral_def quoteLit_def butlast_append unescape_escape)

lemma trimSpace_quoteLit: "trimSpace (quoteLit s) = quoteLit s"
  by (simp add: trimSpace_def quoteLit_def isSpace_def)

lemma splitLoop_literal:
  "splitLoop (concat (map escapeChar s) @ CHR 0x27 # rest) b 0 True =
     splitLoop rest (CHR 0x27 # rev (concat (map escapeChar s)) @ b) 0 False"
  by (induction s arbitrary: b) (auto simp: escapeChar_def)

lemma splitLoop_quoteLit: "splitLoop (quoteLit s @ rest) [] 0 False = splitLoop rest (rev (quoteLit s)) 0 False"
  by (simp add: quoteLit_def splitLoop_literal)

lemma splitLoop_joinComma: "ss \<noteq> [] \<Longrightarrow> splitLoop (joinComma (map quoteLit ss)) [] 0 False = Inr (map quoteLit ss)"
proof (induction ss rule: joinComma.induct)
  case (2 x)
  then show ?case using splitLoop_quoteLit [of x "[]"] by simp
next
  case (3 x y ys)
  then show ?case using splitLoop_quoteLit [of x "CHR '','' # joinComma (map quoteLit (y # ys))"] by simp
qed simp

lemma splitArgs_joinComma: "splitArgs (joinComma (map quoteLit ss)) = Inr (map quoteLit ss)"
proof (cases ss)
  case Nil
  then show ?thesis by (simp add: splitArgs_def trimSpace_def)
next
  case (Cons x xs)
  then have "\<exists>t. joinComma (map quoteLit ss) = CHR 0x27 # t" by (cases xs) (simp_all add: quoteLit_def)
  then obtain t where t: "joinComma (map quoteLit ss) = CHR 0x27 # t" ..
  have "set (trimSpace (CHR 0x27 # t)) \<noteq> {}"
    by (simp add: trimSpace_def isSpace_def dropWhile_eq_Nil_conv)
  then have "trimSpace (joinComma (map quoteLit ss)) \<noteq> []" unfolding t by (metis set_empty)
  with splitLoop_joinComma [of ss] Cons show ?thesis by (simp add: splitArgs_def)
qed

lemma evalArg_quoteLit: "evalArg E rootVal ctx (quoteLit s) = Inr (JStr s)"
  using parseStringLiteral_quoteLit [of s] by (subst evalArg.simps) (simp add: quoteLit_def)

lemma evalArgs_quoteLit: "evalArgs E rootVal ctx (map quoteLit ss) = Inr (map JStr ss)"
  by (induction ss) (simp_all add: trimSpace_quoteLit evalArg_quoteLit)

text \<open>Intrinsic arguments: string literals that quote arbitrary text, with the quote and the backslash
  escaped, and are joined by commas are split and unquoted to exactly those texts, so \<open>States.Array\<close>
  of them returns them; commas, quotes and parentheses inside a literal do no harm.\<close>

theorem array_of_literals:
  "evalIntrinsic E rootVal ctx (''States.Array('' @ joinComma (map quoteLit ss) @ '')'') = Inr (JArr (map JStr ss))"
proof -
  have "splitIntrinsic (''States.Array('' @ joinComma (map quoteLit ss) @ '')'') =
      Inr (''States.Array'', map quoteLit ss)"
    using splitArgs_joinComma [of ss]
    by (simp add: splitIntrinsic_def hasSuffix_iff butlast_append)
  then show ?thesis by (subst evalIntrinsic.simps) (simp add: evalArgs_quoteLit applyIntrinsic_def)
qed

section \<open>Templates\<close>

text \<open>The key of the output a template field sets, and what it has to hold there.\<close>

definition outKey :: "string \<Rightarrow> string" where
  "outKey k = (if hasSuffix k ''.$'' then trimSuffix k ''.$'' else k)"

definition fieldValue :: "sfn_env \<Rightarrow> json \<Rightarrow> json_object \<Rightarrow> string \<Rightarrow> json \<Rightarrow> json sfn_result" where
  "fieldValue E rootVal ctx k v =
     (if hasSuffix k ''.$'' then
        (case v of JStr expr \<Rightarrow> evalExpr E rootVal ctx expr
         | _ \<Rightarrow> Inl (StateError ErrParameterPathFailure (goQuote k @ '' must be a string'')))
      else resolvePayload E rootVal ctx v)"

lemma resolveFields_Cons:
  "resolveFields E rootVal ctx ((k, v) # t) out = (case fieldValue E rootVal ctx k v of
      Inl e \<Rightarrow> Inl e | Inr x \<Rightarrow> resolveFields E rootVal ctx t (AList.update (outKey k) x out))"
  by (simp add: fieldValue_def outKey_def split: json.splits sum.splits)

lemma resolveFields_spec:
  assumes "resolveFields E rootVal ctx t out = Inr out'" and "distinct (map (outKey \<circ> fst) t)"
  shows "(\<forall>(k, v) \<in> set t. \<exists>x. fieldValue E rootVal ctx k v = Inr x \<and> map_of out' (outKey k) = Some x) \<and>
    (\<forall>k. k \<notin> (outKey \<circ> fst) ` set t \<longrightarrow> map_of out' k = map_of out k)"
  using assms
proof (induction t arbitrary: out)
  case (Cons kv t)
  obtain k v where kv: "kv = (k, v)" by (cases kv)
  from Cons.prems(1) obtain x where x: "fieldValue E rootVal ctx k v = Inr x"
    and rest: "resolveFields E rootVal ctx t (AList.update (outKey k) x out) = Inr out'"
    by (auto simp: kv resolveFields_Cons simp del: resolveFields.simps split: sum.splits)
  from Cons.IH [OF rest] Cons.prems(2) x show ?case by (auto simp: kv)
qed simp

text \<open>Templates: when a Parameters, ResultSelector or ItemSelector object is resolved and its keys without
  the suffix are distinct, the output has exactly those keys; a field \<open>k.$\<close> holds the value of its
  path or intrinsic under the key \<open>k\<close>, any other field its value with the nested templates resolved.\<close>

theorem resolvePayload_object:
  assumes "resolvePayload E rootVal ctx (JObj t) = Inr res" and "distinct (map (outKey \<circ> fst) t)"
  shows "\<exists>out. res = JObj out \<and> dom (map_of out) = (outKey \<circ> fst) ` set t \<and>
    (\<forall>k v. (k, v) \<in> set t \<longrightarrow> (\<exists>x. fieldValue E rootVal ctx k v = Inr x \<and> map_of out (outKey k) = Some x))"
proof -
  obtain out where out: "res = JObj out" "resolveFields E rootVal ctx t [] = Inr out"
    using assms(1) by (auto simp: map_sum_eq_Inr)
  note spec = resolveFields_spec [OF out(2) assms(2)]
  have "k \<in> dom (map_of out) \<longleftrightarrow> k \<in> (outKey \<circ> fst) ` set t" for k
  proof (cases "k \<in> (outKey \<circ> fst) ` set t")
    case True
    then obtain k' v where "(k', v) \<in> set t" "k = outKey k'" by auto
    with conjunct1 [OF spec] True show ?thesis by fastforce
  next
    case False
    with conjunct2 [OF spec] show ?thesis by (simp add: dom_def)
  qed
  then have d: "dom (map_of out) = (outKey \<circ> fst) ` set t" by (rule set_eqI)
  have f: "\<forall>k v. (k, v) \<in> set t \<longrightarrow> (\<exists>x. fieldValue E rootVal ctx k v = Inr x \<and> map_of out (outKey k) = Some x)"
    using conjunct1 [OF spec] by (auto simp only: case_prod_conv split_paired_all)
  from out(1) d f show ?thesis by (intro exI [of _ out] conjI)
qed

definition demoSfn :: sfn_env where
  "demoSfn = \<lparr>unmarshal = (\<lambda>s. Inr (JStr s)), marshal = (\<lambda>j. Inr ''j''), formatFloat = (\<lambda>r. ''1''),
     parseFloat = (\<lambda>s. Some 1), parseTime = (\<lambda>s. Inr 0)\<rparr>"

theorem resolvePayload_object_witness:
  "\<exists>out. map_of out ''a'' = Some (JNum 7) \<and> map_of out ''b'' = Some (JStr ''x'') \<and>
     resolvePayload demoSfn (JObj [(''n'', JNum 7)]) [] (JObj [(''a.$'', JStr ''$.n''), (''b'', JStr ''x'')]) = Inr (JObj out)"
proof -
  let ?t = "[(''a.$'', JStr ''$.n''), (''b'', JStr ''x'')]"
  have k: "outKey ''a.$'' = ''a''" "outKey ''b'' = ''b''" by (simp_all add: outKey_def hasSuffix_def trimSuffix_def)
  have g: "getPath (JObj [(''n'', JNum 7)]) ''$.n'' = Inr (JNum 7)"
    by (simp add: getPath_def parsePath_def parseSegs.simps keyChar_def)
  have r: "resolvePayload demoSfn (JObj [(''n'', JNum 7)]) [] (JObj ?t) = Inr (JObj [(''a'', JNum 7), (''b'', JStr ''x'')])"
    by (simp add: hasSuffix_def trimSuffix_def evalExpr_def hasPrefix_def g)
  from resolvePayload_object [OF r] k obtain out where "JObj [(''a'', JNum 7), (''b'', JStr ''x'')] = JObj out"
    and out: "\<forall>k v. (k, v) \<in> set ?t \<longrightarrow>
      (\<exists>x. fieldValue demoSfn (JObj [(''n'', JNum 7)]) [] k v = Inr x \<and> map_of out (outKey k) = Some x)"
    by auto
  moreover have "fieldValue demoSfn (JObj [(''n'', JNum 7)]) [] ''a.$'' (JStr ''$.n'') = Inr (JNum 7)"
    "fieldValue demoSfn (JObj [(''n'', JNum 7)]) [] ''b'' (JStr ''x'') = Inr (JStr ''x'')"
    by (simp_all add: fieldValue_def hasSuffix_def evalExpr_def hasPrefix_def g)
  ultimately have "map_of out ''a'' = Some (JNum 7)" "map_of out ''b'' = Some (JStr ''x'')"
    using k by auto
  with r \<open>JObj [(''a'', JNum 7), (''b'', JStr ''x'')] = JObj out\<close> show ?thesis by auto
qed

end
