(* ===== verification/SFN_Choice.thy ===== *)
theory SFN_Choice
  imports ASL_Model SFN_IO
begin

text \<open>
  Choice rules (\<open>internal/stepfunctions/interpreter/choice.go\<close>): \<open>evalRule\<close> with the combinators
  first and then the test on a variable. Strings compare by bytes, times as instants.
\<close>

definition parseTS :: "sfn_env \<Rightarrow> json \<Rightarrow> int option" where
  "parseTS E v = (case v of
      JStr s \<Rightarrow> (case parseTime E s of Inl _ \<Rightarrow> None | Inr t \<Rightarrow> Some t)
    | _ \<Rightarrow> None)"

definition resolvePathVal :: "json \<Rightarrow> string \<Rightarrow> json sfn_result" where
  "resolvePathVal data path = getPath data path"

text \<open>A comparison of the variable with a constant of the rule, and with a value selected by a path
  (where a missing value does not match).\<close>

fun cmpString :: "(string \<Rightarrow> string \<Rightarrow> bool) \<Rightarrow> json \<Rightarrow> string \<Rightarrow> bool" where
  "cmpString f (JStr s) c = f s c"
| "cmpString f _ c = False"

fun cmpNumber :: "(rat \<Rightarrow> rat \<Rightarrow> bool) \<Rightarrow> json \<Rightarrow> rat \<Rightarrow> bool" where
  "cmpNumber f (JNum n) c = f n c"
| "cmpNumber f _ c = False"

fun cmpBool :: "json \<Rightarrow> bool \<Rightarrow> bool" where
  "cmpBool (JBool b) c = (b = c)"
| "cmpBool _ c = False"

definition cmpStringPath :: "(string \<Rightarrow> string \<Rightarrow> bool) \<Rightarrow> json \<Rightarrow> json \<Rightarrow> string \<Rightarrow> bool" where
  "cmpStringPath f data varVal path = (case resolvePathVal data path of
      Inl _ \<Rightarrow> False
    | Inr cmp \<Rightarrow> (case cmp of JStr cs \<Rightarrow> cmpString f varVal cs | _ \<Rightarrow> False))"

definition cmpNumberPath :: "(rat \<Rightarrow> rat \<Rightarrow> bool) \<Rightarrow> json \<Rightarrow> json \<Rightarrow> string \<Rightarrow> bool" where
  "cmpNumberPath f data varVal path = (case resolvePathVal data path of
      Inl _ \<Rightarrow> False
    | Inr cmp \<Rightarrow> (case cmp of JNum cn \<Rightarrow> cmpNumber f varVal cn | _ \<Rightarrow> False))"

definition cmpBoolPath :: "json \<Rightarrow> json \<Rightarrow> string \<Rightarrow> bool" where
  "cmpBoolPath data varVal path = (case resolvePathVal data path of
      Inl _ \<Rightarrow> False
    | Inr cmp \<Rightarrow> (case cmp of JBool cb \<Rightarrow> cmpBool varVal cb | _ \<Rightarrow> False))"

definition cmpTime :: "sfn_env \<Rightarrow> (int \<Rightarrow> int \<Rightarrow> bool) \<Rightarrow> json \<Rightarrow> string \<Rightarrow> bool" where
  "cmpTime E f varVal c = (case parseTS E varVal of
      None \<Rightarrow> False
    | Some ts \<Rightarrow> (case parseTime E c of Inl _ \<Rightarrow> False | Inr cmp \<Rightarrow> f ts cmp))"

text \<open>The type tests; \<open>None\<close> says that the rule has none.\<close>

definition typeTest :: "sfn_env \<Rightarrow> ChoiceTest \<Rightarrow> json sfn_result \<Rightarrow> bool option" where
  "typeTest E r var =
     (let present = (case var of Inl _ \<Rightarrow> False | Inr _ \<Rightarrow> True);
          varVal = (case var of Inl _ \<Rightarrow> JNull | Inr v \<Rightarrow> v) in
      case IsPresent r of Some b \<Rightarrow> Some (present = b) | None \<Rightarrow>
      case IsNull r of Some b \<Rightarrow> Some (present \<and> (varVal = JNull) = b) | None \<Rightarrow>
      case IsNumeric r of Some b \<Rightarrow> Some (present \<and> (case varVal of JNum _ \<Rightarrow> True | _ \<Rightarrow> False) = b) | None \<Rightarrow>
      case IsString r of Some b \<Rightarrow> Some (present \<and> (case varVal of JStr _ \<Rightarrow> True | _ \<Rightarrow> False) = b) | None \<Rightarrow>
      case IsBoolean r of Some b \<Rightarrow> Some (present \<and> (case varVal of JBool _ \<Rightarrow> True | _ \<Rightarrow> False) = b) | None \<Rightarrow>
      case IsTimestamp r of Some b \<Rightarrow> Some (present \<and> (case varVal of
            JStr s \<Rightarrow> (case parseTime E s of Inl _ \<Rightarrow> False | Inr _ \<Rightarrow> True) = b
          | _ \<Rightarrow> \<not> b))
      | None \<Rightarrow> None)"

text \<open>The comparisons, in the order the code tries them: the first operator the rule sets decides.\<close>

definition comparisons :: "sfn_env \<Rightarrow> ChoiceTest \<Rightarrow> json \<Rightarrow> json \<Rightarrow> bool option list" where
  "comparisons E r data v =
     [map_option (cmpString (=) v) (StringEquals r),
      map_option (cmpString (<) v) (StringLessThan r),
      map_option (cmpString (>) v) (StringGreaterThan r),
      map_option (cmpString (\<le>) v) (StringLessThanEquals r),
      map_option (cmpString (\<ge>) v) (StringGreaterThanEquals r),
      map_option (cmpStringPath (=) data v) (StringEqualsPath r),
      map_option (cmpStringPath (<) data v) (StringLessThanPath r),
      map_option (cmpStringPath (>) data v) (StringGreaterThanPath r),
      map_option (cmpStringPath (\<le>) data v) (StringLessThanEqualsPath r),
      map_option (cmpStringPath (\<ge>) data v) (StringGreaterThanEqualsPath r),
      map_option (cmpNumber (=) v) (NumericEquals r),
      map_option (cmpNumber (<) v) (NumericLessThan r),
      map_option (cmpNumber (>) v) (NumericGreaterThan r),
      map_option (cmpNumber (\<le>) v) (NumericLessThanEquals r),
      map_option (cmpNumber (\<ge>) v) (NumericGreaterThanEquals r),
      map_option (cmpNumberPath (=) data v) (NumericEqualsPath r),
      map_option (cmpNumberPath (<) data v) (NumericLessThanPath r),
      map_option (cmpNumberPath (>) data v) (NumericGreaterThanPath r),
      map_option (cmpNumberPath (\<le>) data v) (NumericLessThanEqualsPath r),
      map_option (cmpNumberPath (\<ge>) data v) (NumericGreaterThanEqualsPath r),
      map_option (cmpBool v) (BooleanEquals r),
      map_option (cmpBoolPath data v) (BooleanEqualsPath r),
      map_option (cmpTime E (=) v) (TimestampEquals r),
      map_option (cmpTime E (<) v) (TimestampLessThan r),
      map_option (cmpTime E (>) v) (TimestampGreaterThan r),
      map_option (cmpTime E (\<le>) v) (TimestampLessThanEquals r),
      map_option (cmpTime E (\<ge>) v) (TimestampGreaterThanEquals r)]"

fun firstSet :: "bool option list \<Rightarrow> bool" where
  "firstSet [] = False"
| "firstSet (Some b # xs) = b"
| "firstSet (None # xs) = firstSet xs"

definition evalTest :: "sfn_env \<Rightarrow> ChoiceTest \<Rightarrow> json \<Rightarrow> bool" where
  "evalTest E r data =
     (let var = getPath data (Variable r) in
      case typeTest E r var of
        Some b \<Rightarrow> b
      | None \<Rightarrow> (case var of Inl _ \<Rightarrow> False | Inr varVal \<Rightarrow> firstSet (comparisons E r data varVal)))"

fun evalRule :: "sfn_env \<Rightarrow> ChoiceRule \<Rightarrow> json \<Rightarrow> bool sfn_result"
  and evalAnd :: "sfn_env \<Rightarrow> ChoiceRule list \<Rightarrow> json \<Rightarrow> bool sfn_result"
  and evalOr :: "sfn_env \<Rightarrow> ChoiceRule list \<Rightarrow> json \<Rightarrow> bool sfn_result" where
  "evalRule E (ChoiceRule t ands ors nt) data =
     (if ands \<noteq> [] then evalAnd E ands data
      else if ors \<noteq> [] then evalOr E ors data
      else (case nt of
          Some sub \<Rightarrow> (case evalRule E sub data of Inl e \<Rightarrow> Inl e | Inr ok \<Rightarrow> Inr (\<not> ok))
        | None \<Rightarrow> Inr (evalTest E t data)))"
| "evalAnd E [] data = Inr True"
| "evalAnd E (sub # subs) data = (case evalRule E sub data of
      Inl e \<Rightarrow> Inl e
    | Inr ok \<Rightarrow> if \<not> ok then Inr False else evalAnd E subs data)"
| "evalOr E [] data = Inr False"
| "evalOr E (sub # subs) data = (case evalRule E sub data of
      Inl e \<Rightarrow> Inl e
    | Inr ok \<Rightarrow> if ok then Inr True else evalOr E subs data)"

section \<open>The meaning of a rule\<close>

fun ruleHolds :: "sfn_env \<Rightarrow> json \<Rightarrow> ChoiceRule \<Rightarrow> bool" where
  "ruleHolds E data (ChoiceRule t ands ors nt) =
     (if ands \<noteq> [] then (\<forall>r \<in> set ands. ruleHolds E data r)
      else if ors \<noteq> [] then (\<exists>r \<in> set ors. ruleHolds E data r)
      else (case nt of Some r \<Rightarrow> \<not> ruleHolds E data r | None \<Rightarrow> evalTest E t data))"


end
