(* ===== verification/SFN_Interp.thy ===== *)
theory SFN_Interp
  imports SFN_Choice
begin

text \<open>
  The Step Functions interpreter (\<open>internal/stepfunctions/interpreter/interpreter.go\<close>,
  \<open>states.go\<close>, \<open>matchers.go\<close>, \<open>executor.go\<close>).

  An execution acts on a \<open>sfn_world\<close>: the event counter and history of the shared emitter, how many
  tasks were run, how often the context was polled and the clock read, and the sleeps requested. What
  the environment answers is in \<open>run_env\<close>: the task executor's answer to its \<open>n\<close>-th call, whether the
  context was cancelled at its \<open>n\<close>-th poll, the clock's \<open>n\<close>-th reading.

  A step maps a world to a result and a new world; \<open>None\<close> says that the fuel, which counts state
  transitions and nesting, ran out: a machine may loop forever. The branches of a Parallel state and
  the items of a Map state run concurrently in the code; here they run one after the other in index
  order, which is one of the schedules the code admits: each branch has its own results and errors
  slot and all of them are awaited, so the schedule affects only the order of the events and of the
  calls of the executor.
\<close>

section \<open>The environment of an execution\<close>

record TaskRequest =
  req_Resource :: string
  req_Payload :: string
  req_TimeoutSeconds :: int

record TaskResult =
  res_Output :: string
  res_LogGroup :: string
  res_LogStream :: string
  res_RequestID :: string

record HistoryEvent =
  ev_ID :: int
  ev_PreviousID :: int
  ev_Type :: string
  ev_Timestamp :: int
  ev_Details :: "json_object option"

record sfn_world =
  eventID :: int
  prevID :: int
  history :: "HistoryEvent list"
  tasks :: nat
  polls :: nat
  reads :: nat
  sleeps :: "int list"

record run_env =
  lib :: sfn_env
  RunTask :: "nat \<Rightarrow> TaskRequest \<Rightarrow> sfn_error option \<times> TaskResult"
  ctxDone :: "nat \<Rightarrow> bool"
  clockNow :: "nat \<Rightarrow> int"
  hasSink :: bool

record execution =
  ex_ctx :: json_object
  inIter :: bool
  iterIndex :: int

type_synonym 'a step = "sfn_world \<Rightarrow> ('a sfn_result \<times> sfn_world) option"

section \<open>Events, polls, errors\<close>

definition emit :: "run_env \<Rightarrow> string \<Rightarrow> json_object option \<Rightarrow> sfn_world \<Rightarrow> sfn_world" where
  "emit R eventType details w =
     (let id = eventID w + 1; prev = prevID w; w1 = w\<lparr>eventID := id, prevID := id\<rparr> in
      if \<not> hasSink R then w1
      else w1\<lparr>history := history w1 @ [\<lparr>ev_ID = id, ev_PreviousID = prev, ev_Type = eventType,
                ev_Timestamp = clockNow R (reads w1), ev_Details = details\<rparr>],
              reads := Suc (reads w1)\<rparr>)"

definition exEmit :: "run_env \<Rightarrow> execution \<Rightarrow> string \<Rightarrow> json_object \<Rightarrow> sfn_world \<Rightarrow> sfn_world" where
  "exEmit R ex eventType details w =
     (if inIter ex then emit R eventType (Some (AList.update ''iteration'' (JNum (of_int (iterIndex ex))) details)) w
      else emit R eventType (Some details) w)"

definition poll :: "run_env \<Rightarrow> sfn_world \<Rightarrow> bool \<times> sfn_world" where
  "poll R w = (ctxDone R (polls w), w\<lparr>polls := Suc (polls w)\<rparr>)"

definition sbind :: "'a sfn_result \<Rightarrow> ('a \<Rightarrow> 'b sfn_result) \<Rightarrow> 'b sfn_result" where
  "sbind r f = (case r of Inl e \<Rightarrow> Inl e | Inr v \<Rightarrow> f v)"

definition stepBind :: "'a step \<Rightarrow> ('a \<Rightarrow> 'b step) \<Rightarrow> 'b step" where
  "stepBind m f w = (case m w of
      None \<Rightarrow> None
    | Some (Inl e, w1) \<Rightarrow> Some (Inl e, w1)
    | Some (Inr v, w1) \<Rightarrow> f v w1)"

definition pureStep :: "'a sfn_result \<Rightarrow> 'a step" where
  "pureStep r w = Some (r, w)"

fun toStateError :: "sfn_error \<Rightarrow> string \<times> string" where
  "toStateError (StateError name cause) = (name, cause)"
| "toStateError e = (ErrTaskFailed, errorText e)"

definition matchesErrorEquals :: "string list \<Rightarrow> string \<Rightarrow> bool" where
  "matchesErrorEquals errorEquals name = list_ex (\<lambda>e. e = ErrAll \<or> e = name) errorEquals"

section \<open>Retry and catch\<close>

definition maxAttempts :: "Retrier \<Rightarrow> int" where
  "maxAttempts r = (case retry_MaxAttempts r of None \<Rightarrow> 3 | Some n \<Rightarrow> n)"

text \<open>A Go conversion of a floating point number to int64 truncates; out of range it gives the
  least int64 on amd64.\<close>

definition toInt64 :: "rat \<Rightarrow> int" where
  "toInt64 x = (let t = (if x < 0 then - \<lfloor>- x\<rfloor> else \<lfloor>x\<rfloor>) in if in_int64 t then t else - (2 ^ 63))"

text \<open>The delay before attempt \<open>n\<close>, in nanoseconds. The product is computed exactly here; the code
  rounds it to a \<open>float64\<close>.\<close>

definition retryDelay :: "Retrier \<Rightarrow> int \<Rightarrow> int" where
  "retryDelay r attempt =
     (let interval = (if retry_IntervalSeconds r = 0 then 1 else retry_IntervalSeconds r);
          rate = (if retry_BackoffRate r = 0 then 2 else retry_BackoffRate r);
          secs = of_int interval * rate ^ nat (attempt - 1)
      in toInt64 (secs * 1000000000))"

fun retryScan :: "Retrier list \<Rightarrow> string \<Rightarrow> int list \<Rightarrow> int list \<times> (Retrier \<times> int) option" where
  "retryScan (r # rs) name (a # as) =
     (if \<not> matchesErrorEquals (retry_ErrorEquals r) name then map_prod (Cons a) id (retryScan rs name as)
      else if a + 1 \<le> maxAttempts r then ((a + 1) # as, Some (r, a + 1))
      else map_prod (Cons (a + 1)) id (retryScan rs name as))"
| "retryScan _ name as = (as, None)"

text \<open>The attempts left; each retry uses one up.\<close>

fun budget :: "Retrier list \<Rightarrow> int list \<Rightarrow> nat" where
  "budget (r # rs) (a # as) = nat (maxAttempts r - a) + budget rs as"
| "budget _ _ = 0"

lemma retryScan_budget:
  "retryScan rs name as = (as', r) \<Longrightarrow> budget rs as' \<le> budget rs as \<and> (r \<noteq> None \<longrightarrow> budget rs as' < budget rs as)"
proof (induction rs name as arbitrary: as' rule: retryScan.induct)
  case (1 r' rs name a as)
  then show ?case by (fastforce split: if_splits simp: map_prod_Cons_eq)
qed auto

text \<open>The catch phase.\<close>

definition catchError :: "json \<Rightarrow> Catcher list \<Rightarrow> string \<times> string \<Rightarrow> (json \<times> string) sfn_result" where
  "catchError effIn catchers se = (case se of (name, cause) \<Rightarrow>
     (case find (\<lambda>c. matchesErrorEquals (catch_ErrorEquals c) name) catchers of
        Some c \<Rightarrow> sbind (applyResultPath effIn (JObj [(''Error'', JStr name), (''Cause'', JStr cause)])
                           (pathOr (catch_ResultPath c) ''$''))
                    (\<lambda>out. Inr (out, catch_Next c))
      | None \<Rightarrow> Inl (StateError name cause)))"

function retryLoop :: "run_env \<Rightarrow> json \<Rightarrow> Retrier list \<Rightarrow> Catcher list \<Rightarrow> json step \<Rightarrow> int list \<Rightarrow> (json \<times> string) step" where
  "retryLoop R effIn retriers catchers work attempts w = (case work w of
      None \<Rightarrow> None
    | Some (Inr res, w1) \<Rightarrow> Some (Inr (res, ''''), w1)
    | Some (Inl err, w1) \<Rightarrow>
        (case retryScan retriers (fst (toStateError err)) attempts of
           (attempts', Some (r, n)) \<Rightarrow>
             (case poll R (w1\<lparr>sleeps := sleeps w1 @ [retryDelay r n]\<rparr>) of
                (True, w2) \<Rightarrow> Some (Inl Aborted, w2)
              | (False, w2) \<Rightarrow> retryLoop R effIn retriers catchers work attempts' w2)
         | (attempts', None) \<Rightarrow> Some (catchError effIn catchers (toStateError err), w1)))"
  by pat_completeness auto
termination
  by (relation "measure (\<lambda>(R, effIn, retriers, catchers, work, attempts, w). budget retriers attempts)")
    (auto dest!: retryScan_budget [OF sym])

declare retryLoop.simps [simp del]

definition runWithRetryCatch ::
    "run_env \<Rightarrow> json \<Rightarrow> Retrier list \<Rightarrow> Catcher list \<Rightarrow> json step \<Rightarrow> (json \<times> string) step" where
  "runWithRetryCatch R effIn retriers catchers work =
     retryLoop R effIn retriers catchers work (replicate (length retriers) 0)"

section \<open>The states\<close>

definition transition :: "string \<Rightarrow> bool \<Rightarrow> string" where
  "transition nxt isEnd = (if isEnd then '''' else nxt)"

definition decodeParams :: "sfn_env \<Rightarrow> string \<Rightarrow> json sfn_result" where
  "decodeParams E raw =
     (if raw = '''' then Inr JNull
      else (case unmarshal E raw of
          Inl err \<Rightarrow> Inl (StateError ErrRuntime (''cannot decode parameters: '' @ err))
        | Inr v \<Rightarrow> Inr v))"

text \<open>The end of a state: merge the result into the state input and select the output.\<close>

definition mergeOutput :: "json \<Rightarrow> json \<Rightarrow> Path \<Rightarrow> Path \<Rightarrow> string \<Rightarrow> (json \<times> string) sfn_result" where
  "mergeOutput stateInput res resultPath outputPath nxt =
     sbind (applyResultPath stateInput res (pathOr resultPath ''$'')) (\<lambda>merged.
     sbind (applyOutputPath merged (pathOr outputPath ''$'')) (\<lambda>out. Inr (out, nxt)))"

definition runPass :: "sfn_env \<Rightarrow> json_object \<Rightarrow> PassState \<Rightarrow> json \<Rightarrow> (json \<times> string) sfn_result" where
  "runPass E ctx s input =
     sbind (applyInputPath input (pathOr (pass_InputPath s) ''$'')) (\<lambda>stateInput.
     sbind (decodeParams E (pass_Parameters s)) (\<lambda>params.
     sbind (applyParameters E stateInput ctx params) (\<lambda>effIn.
     sbind (if pass_Result s = '''' then Inr effIn
            else (case unmarshal E (pass_Result s) of
                Inl err \<Rightarrow> Inl (StateError ErrRuntime (''cannot decode Result: '' @ err))
              | Inr v \<Rightarrow> Inr v)) (\<lambda>res.
     mergeOutput stateInput res (pass_ResultPath s) (pass_OutputPath s) (transition (pass_Next s) (pass_End s))))))"

definition isLambdaTaskResource :: "string \<Rightarrow> bool" where
  "isLambdaTaskResource resource =
     (if containsStr resource '':lambda:invoke'' then True
      else if hasPrefix resource ''arn:aws:lambda:'' then True
      else if \<not> hasPrefix resource ''arn:'' then True
      else False)"

definition taskEventNames :: "string \<Rightarrow> string \<times> string \<times> string \<times> string" where
  "taskEventNames resource =
     (if isLambdaTaskResource resource
      then (''LambdaFunctionScheduled'', '''', ''LambdaFunctionSucceeded'', ''LambdaFunctionFailed'')
      else (''TaskScheduled'', ''TaskStarted'', ''TaskSucceeded'', ''TaskFailed''))"

definition withTaskLogRefs :: "json_object \<Rightarrow> TaskResult \<Rightarrow> json_object" where
  "withTaskLogRefs details res =
     (let d1 = (if res_LogGroup res \<noteq> '''' then AList.update ''logGroup'' (JStr (res_LogGroup res)) details else details);
          d2 = (if res_LogStream res \<noteq> '''' then AList.update ''logStream'' (JStr (res_LogStream res)) d1 else d1)
      in if res_RequestID res \<noteq> '''' then AList.update ''requestId'' (JStr (res_RequestID res)) d2 else d2)"

text \<open>The closure \<open>work\<close> of \<open>runTask\<close>: one call of the executor with its events.\<close>

definition taskWork :: "run_env \<Rightarrow> execution \<Rightarrow> string \<Rightarrow> TaskState \<Rightarrow> json \<Rightarrow> json \<Rightarrow> json step" where
  "taskWork R ex name s taskPayload sel w = (case marshal (lib R) taskPayload of
      Inl merr \<Rightarrow> Some (Inl (StateError ErrRuntime (''cannot marshal task input: '' @ merr)), w)
    | Inr payload \<Rightarrow>
        (case taskEventNames (task_Resource s) of (evScheduled, evStarted, evSucceeded, evFailed) \<Rightarrow>
         let w1 = exEmit R ex evScheduled [(''stateName'', JStr name), (''resource'', JStr (task_Resource s))] w;
             w2 = (if evStarted \<noteq> '''' then exEmit R ex evStarted [(''stateName'', JStr name)] w1 else w1) in
         (case RunTask R (tasks w2) \<lparr>req_Resource = task_Resource s, req_Payload = payload,
                 req_TimeoutSeconds = task_TimeoutSeconds s\<rparr> of
            (rerr, res) \<Rightarrow>
              let w3 = w2\<lparr>tasks := Suc (tasks w2)\<rparr> in
              (case rerr of
                 Some e \<Rightarrow> Some (Inl e, exEmit R ex evFailed (withTaskLogRefs
                     [(''stateName'', JStr name), (''error'', JStr (fst (toStateError e)))] res) w3)
               | None \<Rightarrow>
                   let w4 = exEmit R ex evSucceeded (withTaskLogRefs [(''stateName'', JStr name)] res) w3 in
                   Some (sbind (if res_Output res = '''' then Inr JNull
                                else (case unmarshal (lib R) (res_Output res) of
                                    Inl uerr \<Rightarrow> Inl (StateError ErrRuntime (''cannot unmarshal task result: '' @ uerr))
                                  | Inr v \<Rightarrow> Inr v))
                           (\<lambda>v. applyResultSelector (lib R) v (ex_ctx ex) sel), w4)))))"

text \<open>The part Task, Parallel and Map share: run the work with retry and catch, then the output.
  \<open>post\<close> is what happens to the result before it is merged.\<close>

definition runWork :: "run_env \<Rightarrow> json \<Rightarrow> Retrier list \<Rightarrow> Catcher list \<Rightarrow> (json \<Rightarrow> json sfn_result)
      \<Rightarrow> Path \<Rightarrow> Path \<Rightarrow> string \<Rightarrow> json step \<Rightarrow> (json \<times> string) step" where
  "runWork R stateInput retriers catchers post resultPath outputPath nxt work =
     stepBind (runWithRetryCatch R stateInput retriers catchers work) (\<lambda>(res, caught).
       pureStep (if caught \<noteq> '''' then
                   sbind (applyOutputPath res (pathOr outputPath ''$'')) (\<lambda>out. Inr (out, caught))
                 else sbind (post res) (\<lambda>res2. mergeOutput stateInput res2 resultPath outputPath nxt)))"

definition runTask :: "run_env \<Rightarrow> execution \<Rightarrow> string \<Rightarrow> TaskState \<Rightarrow> json \<Rightarrow> (json \<times> string) step" where
  "runTask R ex name s input =
     stepBind (pureStep (applyInputPath input (pathOr (task_InputPath s) ''$''))) (\<lambda>stateInput.
     stepBind (pureStep (decodeParams (lib R) (task_Parameters s))) (\<lambda>params.
     stepBind (pureStep (applyParameters (lib R) stateInput (ex_ctx ex) params)) (\<lambda>taskPayload.
     stepBind (pureStep (decodeParams (lib R) (task_ResultSelector s))) (\<lambda>sel.
     runWork R stateInput (task_Retry s) (task_Catch s) Inr (task_ResultPath s) (task_OutputPath s)
       (transition (task_Next s) (task_End s)) (taskWork R ex name s taskPayload sel)))))"

fun firstMatch :: "sfn_env \<Rightarrow> ChoiceRule list \<Rightarrow> json \<Rightarrow> string option sfn_result" where
  "firstMatch E [] data = Inr None"
| "firstMatch E (rule # rules) data = sbind (evalRule E rule data) (\<lambda>matched.
     if matched then Inr (Some (rule_Next (rule_test rule))) else firstMatch E rules data)"

definition runChoice :: "sfn_env \<Rightarrow> ChoiceState \<Rightarrow> json \<Rightarrow> (json \<times> string) sfn_result" where
  "runChoice E s input =
     sbind (applyInputPath input (pathOr (choice_InputPath s) ''$'')) (\<lambda>data.
     sbind (firstMatch E (choice_Choices s) data) (\<lambda>hit.
     case hit of
       Some nxt \<Rightarrow> sbind (applyOutputPath data (pathOr (choice_OutputPath s) ''$'')) (\<lambda>out. Inr (out, nxt))
     | None \<Rightarrow>
         if choice_Default s \<noteq> ''''
         then sbind (applyOutputPath data (pathOr (choice_OutputPath s) ''$'')) (\<lambda>out. Inr (out, choice_Default s))
         else Inl (StateError ErrNoChoiceMatched '''')))"

text \<open>\<open>t.Sub(now)\<close> is limited to the int64 range, and the wait is not negative.\<close>

definition untilTime :: "int \<Rightarrow> int \<Rightarrow> int" where
  "untilTime t now = max 0 (min (2 ^ 63 - 1) (t - now))"

definition computeWaitDelay :: "sfn_env \<Rightarrow> int \<Rightarrow> WaitState \<Rightarrow> json \<Rightarrow> int sfn_result" where
  "computeWaitDelay E now s data =
     (case wait_Seconds s of
        Some n \<Rightarrow> Inr (wrap64 (n * 1000000000))
      | None \<Rightarrow>
        if wait_Timestamp s \<noteq> '''' then
          (case parseTime E (wait_Timestamp s) of
             Inl err \<Rightarrow> Inl (StateError ErrRuntime (''invalid Timestamp: '' @ err))
           | Inr t \<Rightarrow> Inr (untilTime t now))
        else if wait_SecondsPath s \<noteq> '''' then
          sbind (getPath data (wait_SecondsPath s)) (\<lambda>v. case v of
              JNum n \<Rightarrow> Inr (wrap64 (toInt64 n * 1000000000))
            | _ \<Rightarrow> Inl (StateError ErrRuntime
                  (''SecondsPath '' @ goQuote (wait_SecondsPath s) @ '' must resolve to a number'')))
        else if wait_TimestampPath s \<noteq> '''' then
          sbind (getPath data (wait_TimestampPath s)) (\<lambda>v. case v of
              JStr str \<Rightarrow> (case parseTime E str of
                  Inl err \<Rightarrow> Inl (StateError ErrRuntime (''invalid TimestampPath value: '' @ err))
                | Inr t \<Rightarrow> Inr (untilTime t now))
            | _ \<Rightarrow> Inl (StateError ErrRuntime
                  (''TimestampPath '' @ goQuote (wait_TimestampPath s) @ '' must resolve to a string'')))
        else Inl (StateError ErrRuntime ''Wait state has no delay specifier''))"

definition runWait :: "run_env \<Rightarrow> WaitState \<Rightarrow> json \<Rightarrow> (json \<times> string) step" where
  "runWait R s input =
     stepBind (pureStep (applyInputPath input (pathOr (wait_InputPath s) ''$''))) (\<lambda>data w.
       (case computeWaitDelay (lib R) (clockNow R (reads w)) s data of
          Inl e \<Rightarrow> Some (Inl e, w\<lparr>reads := Suc (reads w)\<rparr>)
        | Inr delay \<Rightarrow>
            let w1 = w\<lparr>reads := Suc (reads w)\<rparr>;
                (cancelled, w2) = (if delay > 0 then poll R (w1\<lparr>sleeps := sleeps w1 @ [delay]\<rparr>) else (False, w1)) in
            if cancelled then Some (Inl Aborted, w2)
            else Some (sbind (applyOutputPath data (pathOr (wait_OutputPath s) ''$''))
                         (\<lambda>out. Inr (out, transition (wait_Next s) (wait_End s))), w2)))"

definition runSucceed :: "SucceedState \<Rightarrow> json \<Rightarrow> (json \<times> string) sfn_result" where
  "runSucceed s input =
     sbind (applyInputPath input (pathOr (succeed_InputPath s) ''$'')) (\<lambda>data.
     sbind (applyOutputPath data (pathOr (succeed_OutputPath s) ''$'')) (\<lambda>out. Inr (out, '''')))"

definition runFail :: "FailState \<Rightarrow> (json \<times> string) sfn_result" where
  "runFail s = Inl (StateError (if fail_Error s = '''' then ''States.Failed'' else fail_Error s) (fail_Cause s))"

section \<open>Parallel and Map\<close>

text \<open>Run all of a list of steps; each has its own result.\<close>

fun runAll :: "json step list \<Rightarrow> sfn_world \<Rightarrow> (json sfn_result list \<times> sfn_world) option" where
  "runAll [] w = Some ([], w)"
| "runAll (m # ms) w = (case m w of
      None \<Rightarrow> None
    | Some (r, w1) \<Rightarrow> (case runAll ms w1 of
        None \<Rightarrow> None
      | Some (rs, w2) \<Rightarrow> Some (r # rs, w2)))"

text \<open>The first error in index order, or all results.\<close>

fun collect :: "json sfn_result list \<Rightarrow> sfn_error + json list" where
  "collect [] = Inr []"
| "collect (Inl e # rs) = Inl e"
| "collect (Inr v # rs) = map_sum id (Cons v) (collect rs)"

type_synonym child_run = "Machine \<Rightarrow> execution \<Rightarrow> json \<Rightarrow> json step"

definition childExecution :: "execution \<Rightarrow> json_object \<Rightarrow> execution" where
  "childExecution ex childCtx = ex\<lparr>ex_ctx := childCtx\<rparr>"

definition runBranches :: "run_env \<Rightarrow> child_run \<Rightarrow> execution \<Rightarrow> Machine list \<Rightarrow> json \<Rightarrow> json step" where
  "runBranches R child ex branches input w = (case marshal (lib R) input of
      Inl err \<Rightarrow> Some (Inl (StateError ErrRuntime (''cannot marshal parallel input: '' @ err)), w)
    | Inr inputJSON \<Rightarrow>
        (case runAll (map (\<lambda>branch. child branch (childExecution ex []) input) branches) w of
           None \<Rightarrow> None
         | Some (rs, w1) \<Rightarrow> Some (case collect rs of
               Inl e \<Rightarrow> Inl (StateError ErrBranchFailed
                          (case toStateError e of (name, cause) \<Rightarrow> errorText (StateError name cause)))
             | Inr outs \<Rightarrow> Inr (JArr outs), w1)))"

definition runParallel ::
    "run_env \<Rightarrow> child_run \<Rightarrow> execution \<Rightarrow> ParallelState \<Rightarrow> Machine list \<Rightarrow> json \<Rightarrow> (json \<times> string) step" where
  "runParallel R child ex s branches input =
     stepBind (pureStep (applyInputPath input (pathOr (par_InputPath s) ''$''))) (\<lambda>stateInput.
     stepBind (pureStep (decodeParams (lib R) (par_Parameters s))) (\<lambda>params.
     stepBind (pureStep (applyParameters (lib R) stateInput (ex_ctx ex) params)) (\<lambda>effIn.
     stepBind (pureStep (decodeParams (lib R) (par_ResultSelector s))) (\<lambda>sel.
     runWork R stateInput (par_Retry s) (par_Catch s) (\<lambda>res. applyResultSelector (lib R) res (ex_ctx ex) sel)
       (par_ResultPath s) (par_OutputPath s) (transition (par_Next s) (par_End s))
       (runBranches R child ex branches effIn)))))"

definition iterContext :: "int \<Rightarrow> json \<Rightarrow> json_object" where
  "iterContext i item = [(''Map'', JObj [(''Item'', JObj [(''Index'', JNum (of_int i)), (''Value'', item)])])]"

text \<open>The goroutine of one item.\<close>

definition runItem :: "run_env \<Rightarrow> child_run \<Rightarrow> execution \<Rightarrow> Machine \<Rightarrow> json \<Rightarrow> int \<Rightarrow> json \<Rightarrow> json step" where
  "runItem R child ex proc itemSelector i item w =
     (case applyParameters (lib R) item (iterContext i item) itemSelector of
        Inl serr \<Rightarrow> Some (Inl serr, w)
      | Inr procInput \<Rightarrow> (case marshal (lib R) procInput of
          Inl merr \<Rightarrow> Some (Inl (StateError ErrRuntime (''cannot marshal map item: '' @ merr)), w)
        | Inr itemJSON \<Rightarrow>
            let w1 = emit R ''MapIterationStarted'' (Some [(''iteration'', JNum (of_int i)), (''input'', procInput)]) w in
            (case child proc \<lparr>ex_ctx = iterContext i item, inIter = True, iterIndex = i\<rparr> procInput w1 of
               None \<Rightarrow> None
             | Some (Inl cerr, w2) \<Rightarrow> Some (Inl cerr, emit R ''MapIterationFailed''
                   (Some [(''iteration'', JNum (of_int i)), (''error'', JStr (fst (toStateError cerr)))]) w2)
             | Some (Inr out, w2) \<Rightarrow> Some (Inr out, emit R ''MapIterationSucceeded''
                   (Some [(''iteration'', JNum (of_int i))]) w2))))"

definition runItems ::
    "run_env \<Rightarrow> child_run \<Rightarrow> execution \<Rightarrow> MapState \<Rightarrow> Machine option \<Rightarrow> Machine option \<Rightarrow> json \<Rightarrow> json step" where
  "runItems R child ex s itemProcessor legacyIterator effIn w =
     (case Processor itemProcessor legacyIterator of
        None \<Rightarrow> Some (Inl (StateError ErrRuntime ''Map state has no processor''), w)
      | Some proc \<Rightarrow> (case decodeParams (lib R) (map_ItemSelector s) of
          Inl e \<Rightarrow> Some (Inl e, w)
        | Inr itemSelector \<Rightarrow>
            (case getPath effIn (if map_ItemsPath s = '''' then ''$'' else map_ItemsPath s) of
               Inl e \<Rightarrow> Some (Inl (StateError ErrRuntime (''cannot resolve ItemsPath: '' @ errorText e)), w)
             | Inr raw \<Rightarrow> (case raw of
                 JArr items \<Rightarrow>
                   if items = [] then Some (Inr (JArr []), w)
                   else (case runAll (map (\<lambda>(i, item). runItem R child ex proc itemSelector (int i) item)
                                       (enumerate 0 items)) w of
                       None \<Rightarrow> None
                     | Some (rs, w1) \<Rightarrow> Some (case collect rs of
                           Inl e \<Rightarrow> Inl (case toStateError e of (name, cause) \<Rightarrow> StateError name cause)
                         | Inr outs \<Rightarrow> Inr (JArr outs), w1))
               | _ \<Rightarrow> Some (Inl (StateError ErrRuntime ''ItemsPath must resolve to an array''), w)))))"

definition runMap ::
    "run_env \<Rightarrow> child_run \<Rightarrow> execution \<Rightarrow> MapState \<Rightarrow> Machine option \<Rightarrow> Machine option \<Rightarrow> json \<Rightarrow> (json \<times> string) step" where
  "runMap R child ex s itemProcessor legacyIterator input =
     stepBind (pureStep (applyInputPath input (pathOr (map_InputPath s) ''$''))) (\<lambda>stateInput.
     stepBind (pureStep (decodeParams (lib R) (map_Parameters s))) (\<lambda>params.
     stepBind (pureStep (applyParameters (lib R) stateInput (ex_ctx ex) params)) (\<lambda>effIn.
     stepBind (pureStep (decodeParams (lib R) (map_ResultSelector s))) (\<lambda>sel.
     runWork R stateInput (map_Retry s) (map_Catch s) (\<lambda>res. applyResultSelector (lib R) res (ex_ctx ex) sel)
       (map_ResultPath s) (map_OutputPath s) (transition (map_Next s) (map_End s))
       (runItems R child ex s itemProcessor legacyIterator effIn)))))"

section \<open>The transition loop\<close>

fun dispatchState :: "run_env \<Rightarrow> child_run \<Rightarrow> execution \<Rightarrow> string \<Rightarrow> State \<Rightarrow> json \<Rightarrow> (json \<times> string) step" where
  "dispatchState R child ex name (Pass s) input = pureStep (runPass (lib R) (ex_ctx ex) s input)"
| "dispatchState R child ex name (Task s) input = runTask R ex name s input"
| "dispatchState R child ex name (Choice s) input = pureStep (runChoice (lib R) s input)"
| "dispatchState R child ex name (Wait s) input = runWait R s input"
| "dispatchState R child ex name (Succeed s) input = pureStep (runSucceed s input)"
| "dispatchState R child ex name (Fail s) input = pureStep (runFail s)"
| "dispatchState R child ex name (Parallel s branches) input = runParallel R child ex s branches input"
| "dispatchState R child ex name (MapS s proc it) input = runMap R child ex s proc it input"

definition stateEnteredEvent :: "State \<Rightarrow> string" where
  "stateEnteredEvent st = StateType st @ ''StateEntered''"

definition stateExitedEvent :: "State \<Rightarrow> string" where
  "stateExitedEvent st = StateType st @ ''StateExited''"

text \<open>\<open>loop\<close> from the state \<open>current\<close>; a child execution starts at the start of its machine.\<close>

fun loop :: "run_env \<Rightarrow> nat \<Rightarrow> Machine \<Rightarrow> execution \<Rightarrow> string \<Rightarrow> json \<Rightarrow> json step" where
  "loop R 0 m ex current input w = None"
| "loop R (Suc fuel) m ex current input w = (case poll R w of
      (True, w0) \<Rightarrow> Some (Inl Aborted, w0)
    | (False, w0) \<Rightarrow> (case map_of (States m) current of
        None \<Rightarrow> Some (Inl (StateError ErrRuntime (''state not found: '' @ current)), w0)
      | Some st \<Rightarrow>
          let w1 = exEmit R ex (stateEnteredEvent st) [(''name'', JStr current)] w0 in
          (case dispatchState R (\<lambda>m' ex' input'. loop R fuel m' ex' (StartAt m') input') ex current st input w1 of
             None \<Rightarrow> None
           | Some (r, w2) \<Rightarrow>
               let w3 = exEmit R ex (stateExitedEvent st) [(''name'', JStr current)] w2 in
               (case r of
                  Inl e \<Rightarrow> Some (Inl e, w3)
                | Inr (out, nxt) \<Rightarrow> if nxt = '''' then Some (Inr out, w3) else loop R fuel m ex nxt out w3))))"

section \<open>The execution\<close>

text \<open>How the context ended before the loop, if it did: its deadline passed, or it was cancelled.\<close>

datatype interruption = DeadlineExceeded | ParentCancelled

definition finishAborted :: "run_env \<Rightarrow> interruption \<Rightarrow> sfn_world \<Rightarrow> string sfn_result \<times> sfn_world" where
  "finishAborted R i w = (case i of
      DeadlineExceeded \<Rightarrow> (Inl (StateError ErrTimeout ''''),
         emit R ''ExecutionTimedOut'' (Some [(''error'', JStr ErrTimeout)]) w)
    | ParentCancelled \<Rightarrow> (Inl Aborted, emit R ''ExecutionAborted'' None w))"

text \<open>\<open>run_\<close>: \<open>early\<close> says that the context ended while the loop was still running, \<open>late\<close> how it has
  ended when the loop reports an abort.\<close>

definition runExecution ::
    "run_env \<Rightarrow> nat \<Rightarrow> interruption option \<Rightarrow> interruption \<Rightarrow> Machine \<Rightarrow> string \<Rightarrow> sfn_world
       \<Rightarrow> (string sfn_result \<times> sfn_world) option" where
  "runExecution R fuel early late m inputJSON w =
     (let input = (if inputJSON = '''' then JObj []
                   else (case unmarshal (lib R) inputJSON of Inl _ \<Rightarrow> JObj [] | Inr v \<Rightarrow> v));
          w1 = emit R ''ExecutionStarted'' (Some [(''input'', JStr inputJSON)]) w in
      (case loop R fuel m \<lparr>ex_ctx = [], inIter = False, iterIndex = 0\<rparr> (StartAt m) input w1 of
         None \<Rightarrow> (case early of None \<Rightarrow> None | Some i \<Rightarrow> Some (finishAborted R i w1))
       | Some (r, w2) \<Rightarrow> (case early of
           Some i \<Rightarrow> Some (finishAborted R i w2)
         | None \<Rightarrow> (case r of
             Inl e \<Rightarrow>
               if e = Aborted then Some (finishAborted R late w2)
               else (case toStateError e of (name, cause) \<Rightarrow>
                 Some (Inl e, emit R ''ExecutionFailed'' (Some [(''error'', JStr name), (''cause'', JStr cause)]) w2))
           | Inr out \<Rightarrow>
               let encoded = (case marshal (lib R) out of Inl _ \<Rightarrow> ''null'' | Inr s \<Rightarrow> s) in
               Some (Inr encoded, emit R ''ExecutionSucceeded'' (Some [(''output'', JStr encoded)]) w2)))))"

end
