(* ===== verification/ASL_Validation.thy ===== *)
theory ASL_Validation
  imports ASL_Model
begin

text \<open>
  What validation of a state machine guarantees: every state a transition, a rule, a default or a
  catcher names is defined, in the machine itself and in the machines nested in it at any depth.
\<close>

definition stateNames :: "Machine \<Rightarrow> string set" where
  "stateNames m = fst ` set (States m)"

text \<open>The states a state may hand over to.\<close>

definition transitionTargets :: "string \<Rightarrow> bool \<Rightarrow> string list" where
  "transitionTargets nxt isEnd = (if isEnd then [] else [nxt])"

fun targets :: "State \<Rightarrow> string list" where
  "targets (Pass s) = transitionTargets (pass_Next s) (pass_End s)"
| "targets (Task s) = transitionTargets (task_Next s) (task_End s) @ map catch_Next (task_Catch s)"
| "targets (Wait s) = transitionTargets (wait_Next s) (wait_End s)"
| "targets (Choice s) = map (\<lambda>r. rule_Next (rule_test r)) (choice_Choices s) @
     (if choice_Default s = '''' then [] else [choice_Default s])"
| "targets (Succeed s) = []"
| "targets (Fail s) = []"
| "targets (Parallel s _) = transitionTargets (par_Next s) (par_End s) @ map catch_Next (par_Catch s)"
| "targets (MapS s _ _) = transitionTargets (map_Next s) (map_End s) @ map catch_Next (map_Catch s)"

fun children :: "State \<Rightarrow> Machine list" where
  "children (Parallel s branches) = branches"
| "children (MapS s proc it) = (case Processor proc it of None \<Rightarrow> [] | Some p \<Rightarrow> [p])"
| "children _ = []"

definition childOf :: "Machine \<Rightarrow> Machine \<Rightarrow> bool" where
  "childOf m c \<longleftrightarrow> (\<exists>(name, st) \<in> set (States m). c \<in> set (children st))"

lemma andThen_None [simp]: "andThen a b = None \<longleftrightarrow> a = None \<and> b = None"
  by (simp add: andThen_def split: option.splits)

lemma validateTransition_None:
  "validateTransition names path nxt isEnd = None \<longleftrightarrow>
     (if isEnd then nxt = '''' else nxt \<noteq> '''' \<and> nxt \<in> set names)"
  by (simp add: validateTransition_def)

lemma validateTransition_targets:
  "validateTransition names path nxt isEnd = None \<Longrightarrow> set (transitionTargets nxt isEnd) \<subseteq> set names - {''''}"
  by (auto simp: validateTransition_None transitionTargets_def split: if_splits)

lemma validateCatchers_None:
  "validateCatchers names path cs = None \<longleftrightarrow> (\<forall>c \<in> set cs. catch_Next c \<noteq> '''' \<and> catch_Next c \<in> set names)"
proof -
  have "validateCatchersFrom names path i cs = None \<longleftrightarrow>
      (\<forall>c \<in> set cs. catch_Next c \<noteq> '''' \<and> catch_Next c \<in> set names)" for i
    by (induction cs arbitrary: i) (auto simp: Let_def)
  then show ?thesis by (simp add: validateCatchers_def)
qed

lemma validateRules_None:
  "validateRules names path i rs = None \<Longrightarrow>
     r \<in> set rs \<Longrightarrow> rule_Next (rule_test r) \<noteq> '''' \<and> rule_Next (rule_test r) \<in> set names"
  by (induction names path i rs rule: validateRules.induct) (auto simp: Let_def split: if_splits)

text \<open>A state that passes validation names defined states only.\<close>

lemma validateState_targets:
  assumes "validateState names st path = None"
  shows "set (targets st) \<subseteq> set names - {''''}"
proof (cases st)
  case (MapS s p it)
  have "validateTransition names path (map_Next s) (map_End s) = None"
    "validateCatchers names path (map_Catch s) = None"
    using assms by (cases p; cases it; simp add: MapS)+
  then show ?thesis using validateTransition_targets by (auto simp: MapS validateCatchers_None)
next
  case (Choice s)
  with assms show ?thesis
    by (auto simp: validateChoice_def split: if_splits option.splits dest: validateRules_None)
qed (use assms in \<open>auto split: if_splits simp: validateCatchers_None dest: validateTransition_targets\<close>)

lemma validateStates_None:
  "validateStates names pfx states = None \<longleftrightarrow>
     (\<forall>(name, st) \<in> set states. validateState names st (joinPath pfx (''States.'' @ name)) = None)"
  by (induction states) auto

lemma validateBranches_None:
  "validateBranches path i bs = None \<Longrightarrow> b \<in> set bs \<Longrightarrow> \<exists>p. validateMachine b p = None"
  by (induction bs arbitrary: i) auto

lemma validateState_children:
  assumes "validateState names st path = None" and "c \<in> set (children st)"
  shows "\<exists>p. validateMachine c p = None"
proof (cases st)
  case (Parallel s bs)
  with assms show ?thesis by (auto split: if_splits dest: validateBranches_None)
next
  case (MapS s p it)
  with assms show ?thesis by (cases p; cases it) (auto simp: Processor_def)
qed (use assms in auto)

lemma validateMachine_None:
  assumes "validateMachine m pfx = None"
  shows "StartAt m \<in> stateNames m \<and> StartAt m \<noteq> '''' \<and>
    (\<forall>(name, st) \<in> set (States m). \<exists>path. validateState (map fst (States m)) st path = None)"
  using assms by (cases m) (auto simp: stateNames_def validateStates_None split: if_splits)

lemma validateMachine_child:
  assumes "validateMachine m pfx = None" and "childOf m c"
  shows "\<exists>p. validateMachine c p = None"
proof -
  from assms(2) obtain name st where "(name, st) \<in> set (States m)" "c \<in> set (children st)"
    by (auto simp: childOf_def)
  with validateMachine_None [OF assms(1)] show ?thesis using validateState_children by blast
qed

lemma validateMachine_nested:
  assumes "childOf\<^sup>*\<^sup>* m m'" and "validateMachine m pfx = None"
  shows "\<exists>p. validateMachine m' p = None"
  using assms by (induction rule: rtranclp_induct) (auto dest: validateMachine_child)

text \<open>C27: A machine that passes validation is closed: in it and in every machine nested in its Parallel and Map
  states, the start state is defined and every state a transition, Choice rule, default or catcher
  can lead to is defined.\<close>

theorem validated_machine_closed:
  assumes "validateMachine m pfx = None" and "childOf\<^sup>*\<^sup>* m m'"
  shows "StartAt m' \<in> stateNames m' \<and>
    (\<forall>(name, st) \<in> set (States m'). set (targets st) \<subseteq> stateNames m' - {''''})"
proof -
  obtain p where p: "validateMachine m' p = None" using validateMachine_nested [OF assms(2,1)] ..
  show ?thesis using validateMachine_None [OF p] validateState_targets
    unfolding stateNames_def by fastforce
qed

text \<open>A small machine for the witnesses: a Parallel state with one branch, then the end.\<close>

definition noPath :: Path where
  "noPath = \<lparr>path_Set = False, path_Null = False, path_Value = ''''\<rparr>"

definition demoPass :: "string \<Rightarrow> bool \<Rightarrow> State" where
  "demoPass nxt isEnd = Pass \<lparr>pass_Next = nxt, pass_End = isEnd, pass_InputPath = noPath, pass_OutputPath = noPath,
     pass_Parameters = '''', pass_Result = '''', pass_ResultPath = noPath, pass_Comment = ''''\<rparr>"

definition demoBranch :: Machine where
  "demoBranch = Machine ''x'' [(''x'', demoPass '''' True)] 0 ''''"

definition demoMachine :: Machine where
  "demoMachine = Machine ''p''
     [(''p'', Parallel \<lparr>par_Next = ''e'', par_End = False, par_InputPath = noPath, par_OutputPath = noPath,
         par_Parameters = '''', par_ResultSelector = '''', par_ResultPath = noPath,
         par_Retry = [], par_Catch = [\<lparr>catch_ErrorEquals = [''States.ALL''], catch_ResultPath = noPath, catch_Next = ''e''\<rparr>],
         par_Comment = ''''\<rparr> [demoBranch]),
      (''e'', demoPass '''' True)] 0 ''''"

lemma demoMachine_valid: "validateMachine demoMachine '''' = None"
  by (simp add: demoMachine_def demoBranch_def demoPass_def validateTransition_def validateCatchers_def)

theorem validated_machine_closed_witness:
  "StartAt demoBranch \<in> stateNames demoBranch \<and>
    set (targets (snd (States demoMachine ! 0))) \<subseteq> stateNames demoMachine - {''''}"
proof -
  have "childOf demoMachine demoBranch" by (simp add: childOf_def demoMachine_def)
  then have "childOf\<^sup>*\<^sup>* demoMachine demoBranch" by (rule r_into_rtranclp)
  moreover have "States demoMachine ! 0 \<in> set (States demoMachine)" by (simp add: demoMachine_def)
  ultimately show ?thesis
    using validated_machine_closed [OF demoMachine_valid] validated_machine_closed [OF demoMachine_valid rtranclp.rtrancl_refl]
    by (metis (no_types, lifting) case_prodD prod.collapse)
qed

end
