(* ===== verification/SFN_Execution.thy ===== *)
theory SFN_Execution
  imports SFN_Interp ASL_Validation
begin

text \<open>
  Properties of Step Functions executions: the states visited exist, the event history is numbered
  without gaps and ends with one terminal event, retries are bounded, machines without cycles
  terminate, and more fuel never changes a result.
\<close>

lemma sbind_Inr: "sbind r f = Inr y \<longleftrightarrow> (\<exists>v. r = Inr v \<and> f v = Inr y)"
  by (auto simp: sbind_def split: sum.splits)

lemma stepBind_Some:
  "stepBind m f w = Some (r, w') \<longleftrightarrow>
     (\<exists>e. m w = Some (Inl e, w') \<and> r = Inl e) \<or> (\<exists>v w1. m w = Some (Inr v, w1) \<and> f v w1 = Some (r, w'))"
  by (auto simp: stepBind_def split: option.splits sum.splits)

section \<open>Invariants of the world\<close>

text \<open>A property of the world that every primitive effect keeps is kept by a whole execution.\<close>

locale world_invariant =
  fixes R :: run_env and P :: "sfn_world \<Rightarrow> bool"
  assumes keeps_emit: "P w \<Longrightarrow> P (emit R eventType details w)"
    and keeps_counters: "P w \<Longrightarrow> P (w\<lparr>polls := a\<rparr>)" "P w \<Longrightarrow> P (w\<lparr>tasks := b\<rparr>)" "P w \<Longrightarrow> P (w\<lparr>sleeps := c\<rparr>)"
    and keeps_reads: "P w \<Longrightarrow> P (w\<lparr>reads := d\<rparr>)"
begin

definition preserves :: "'a step \<Rightarrow> bool" where
  "preserves m \<longleftrightarrow> (\<forall>w r w'. P w \<longrightarrow> m w = Some (r, w') \<longrightarrow> P w')"

lemma preservesI: "(\<And>w r w'. P w \<Longrightarrow> m w = Some (r, w') \<Longrightarrow> P w') \<Longrightarrow> preserves m"
  by (auto simp: preserves_def)

lemma preservesD: "preserves m \<Longrightarrow> P w \<Longrightarrow> m w = Some (r, w') \<Longrightarrow> P w'"
  by (auto simp: preserves_def)

lemma keeps_exEmit: "P w \<Longrightarrow> P (exEmit R ex t d w)"
  by (simp add: exEmit_def keeps_emit)

lemma keeps_poll: "P w \<Longrightarrow> poll R w = (b, w') \<Longrightarrow> P w'"
  by (auto simp: poll_def keeps_counters)

lemma preserves_pureStep: "preserves (pureStep r)"
  by (simp add: preserves_def pureStep_def)

lemma preserves_stepBind: "preserves m \<Longrightarrow> (\<And>v. preserves (f v)) \<Longrightarrow> preserves (stepBind m f)"
  unfolding preserves_def stepBind_Some by blast

lemma preserves_retryLoop:
  assumes "preserves work"
  shows "preserves (retryLoop R effIn retriers catchers work attempts)"
proof (rule preservesI)
  fix w r w'
  show "P w \<Longrightarrow> retryLoop R effIn retriers catchers work attempts w = Some (r, w') \<Longrightarrow> P w'"
  proof (induction "budget retriers attempts" arbitrary: attempts w rule: less_induct)
    case less
    from less.prems(2) obtain q w1 where work: "work w = Some (q, w1)"
      by (subst (asm) retryLoop.simps) (auto split: option.splits)
    have P1: "P w1" by (rule preservesD [OF assms less.prems(1) work])
    show ?case
    proof (cases q)
      case (Inr res)
      with less.prems(2) work P1 show ?thesis by (subst (asm) retryLoop.simps) auto
    next
      case (Inl err)
      obtain attempts' hit where scan: "retryScan retriers (fst (toStateError err)) attempts = (attempts', hit)"
        by fastforce
      show ?thesis
      proof (cases hit)
        case None
        with less.prems(2) work Inl scan P1 show ?thesis by (subst (asm) retryLoop.simps) auto
      next
        case (Some rn)
        obtain b w2 where pl: "poll R (w1\<lparr>sleeps := sleeps w1 @ [retryDelay (fst rn) (snd rn)]\<rparr>) = (b, w2)" by fastforce
        then have P2: "P w2" using P1 keeps_poll keeps_counters(3) by blast
        show ?thesis
        proof (cases b)
          case True
          with less.prems(2) work Inl scan Some pl P2 show ?thesis
            by (subst (asm) retryLoop.simps) (auto simp: case_prod_beta)
        next
          case False
          have "retryLoop R effIn retriers catchers work attempts' w2 = Some (r, w')"
            using less.prems(2) work Inl scan Some pl False
            by (subst (asm) retryLoop.simps) (auto simp: case_prod_beta)
          moreover have "budget retriers attempts' < budget retriers attempts"
            using retryScan_budget [OF scan] Some by simp
          ultimately show ?thesis using less.hyps P2 by blast
        qed
      qed
    qed
  qed
qed

lemma preserves_runWork:
  "preserves work \<Longrightarrow> preserves (runWork R stateInput retriers catchers post rp op nxt work)"
  unfolding runWork_def runWithRetryCatch_def
  by (intro preserves_stepBind preserves_retryLoop) (auto simp: preserves_pureStep split: prod.splits)

lemma preserves_taskWork: "preserves (taskWork R ex name s payload sel)"
  by (rule preservesI)
    (auto simp: taskWork_def Let_def split: sum.splits prod.splits option.splits if_splits
      intro!: keeps_exEmit keeps_counters)

lemma preserves_runWait: "preserves (runWait R s input)"
  unfolding runWait_def
  by (intro preserves_stepBind preserves_pureStep, rule preservesI)
    (auto simp: Let_def split: sum.splits prod.splits if_splits intro!: keeps_reads keeps_counters
      dest!: keeps_poll [rotated])

lemma runAll_keeps:
  "\<forall>m \<in> set ms. preserves m \<Longrightarrow> P w \<Longrightarrow> runAll ms w = Some (rs, w') \<Longrightarrow> P w'"
proof (induction ms arbitrary: w rs)
  case (Cons m ms)
  from Cons.prems(3) obtain r w1 rs' where "m w = Some (r, w1)" "runAll ms w1 = Some (rs', w')"
    by (auto split: option.splits)
  with Cons show ?case using preservesD [of m w r w1] by auto
qed simp

lemma preserves_runBranches:
  assumes "\<And>m ex input. preserves (child m ex input)"
  shows "preserves (runBranches R child ex branches input)"
  by (rule preservesI) (auto simp: runBranches_def split: sum.splits option.splits
      dest!: runAll_keeps [rotated 2] simp: assms)

lemma preserves_runItem:
  assumes "\<And>m ex input. preserves (child m ex input)"
  shows "preserves (runItem R child ex proc sel i item)"
  by (rule preservesI) (auto simp: runItem_def Let_def split: sum.splits option.splits
      dest!: preservesD [OF assms, rotated] intro!: keeps_emit)

lemma preserves_runItems:
  assumes "\<And>m ex input. preserves (child m ex input)"
  shows "preserves (runItems R child ex s p it effIn)"
proof (rule preservesI)
  fix w r w'
  have "\<forall>m \<in> set (map (\<lambda>(i, item). runItem R child ex proc sel (int i) item) xs). preserves m" for proc sel xs
    using preserves_runItem [of child, OF assms] by auto
  note keep = runAll_keeps [OF this]
  show "P w \<Longrightarrow> runItems R child ex s p it effIn w = Some (r, w') \<Longrightarrow> P w'"
    by (auto simp: runItems_def split: option.splits sum.splits json.splits if_splits intro: keep)
qed

lemma preserves_dispatchState:
  assumes "\<And>m ex input. preserves (child m ex input)"
  shows "preserves (dispatchState R child ex name st input)"
  by (cases st)
    (simp_all add: runTask_def runParallel_def runMap_def preserves_stepBind preserves_pureStep preserves_runWork
      preserves_taskWork preserves_runWait preserves_runBranches preserves_runItems assms)

lemma preserves_loop: "preserves (loop R fuel m ex current input)"
proof (induction fuel arbitrary: m ex current input)
  case 0
  then show ?case by (simp add: preserves_def)
next
  case (Suc fuel)
  show ?case
  proof (rule preservesI)
    fix w r w'
    assume "P w" and run: "loop R (Suc fuel) m ex current input w = Some (r, w')"
    obtain b w0 where pl: "poll R w = (b, w0)" by fastforce
    with \<open>P w\<close> have "P w0" by (rule keeps_poll)
    show "P w'"
    proof (cases "b \<or> map_of (States m) current = None")
      case True
      with run pl \<open>P w0\<close> show ?thesis by (cases b) auto
    next
      case False
      then obtain st where st: "map_of (States m) current = Some st" and "\<not> b" by auto
      let ?w1 = "exEmit R ex (stateEnteredEvent st) [(''name'', JStr current)] w0"
      from run pl st \<open>\<not> b\<close> obtain q w2 where d:
        "dispatchState R (\<lambda>m' ex' input'. loop R fuel m' ex' (StartAt m') input') ex current st input ?w1 = Some (q, w2)"
        by (auto simp: Let_def split: option.splits)
      have "P w2"
        by (rule preservesD [OF preserves_dispatchState [OF Suc.IH] keeps_exEmit [OF \<open>P w0\<close>] d])
      then have "P (exEmit R ex (stateExitedEvent st) [(''name'', JStr current)] w2)" by (rule keeps_exEmit)
      with run pl st \<open>\<not> b\<close> d preservesD [OF Suc.IH] show ?thesis
        by (auto simp: Let_def split: sum.splits prod.splits if_splits)
    qed
  qed
qed

end

section \<open>The event history\<close>

definition numbered :: "run_env \<Rightarrow> sfn_world \<Rightarrow> bool" where
  "numbered R w \<longleftrightarrow> prevID w = eventID w \<and>
     (hasSink R \<longrightarrow> eventID w = int (length (history w)) \<and>
        (\<forall>i < length (history w). ev_ID (history w ! i) = int i + 1 \<and> ev_PreviousID (history w ! i) = int i))"

interpretation numberedEvents: world_invariant R "numbered R" for R
  by unfold_locales (auto simp: numbered_def emit_def Let_def nth_append less_Suc_eq)

text \<open>The history only grows: \<open>h\<close> stays its beginning.\<close>

interpretation growingHistory: world_invariant R "\<lambda>w. take (length h) (history w) = h" for R h
  by unfold_locales (auto simp: emit_def Let_def dest: arg_cong [where f = length])

definition newWorld :: sfn_world where
  "newWorld = \<lparr>eventID = 0, prevID = 0, history = [], tasks = 0, polls = 0, reads = 0, sleeps = []\<rparr>"

lemma numbered_newWorld: "numbered R newWorld"
  by (simp add: numbered_def newWorld_def)

lemma runExecution_world:
  assumes "runExecution R fuel early late m inputJSON w = Some (r, w')"
  obtains w2 eventType details where "w' = emit R eventType details w2"
    "w2 = emit R ''ExecutionStarted'' (Some [(''input'', JStr inputJSON)]) w \<or>
      (\<exists>q input. loop R fuel m \<lparr>ex_ctx = [], inIter = False, iterIndex = 0\<rparr> (StartAt m) input
         (emit R ''ExecutionStarted'' (Some [(''input'', JStr inputJSON)]) w) = Some (q, w2))"
    "eventType \<in> {''ExecutionSucceeded'', ''ExecutionFailed'', ''ExecutionTimedOut'', ''ExecutionAborted''}"
    "(\<exists>out. r = Inr out) \<longleftrightarrow> eventType = ''ExecutionSucceeded''"
proof -
  note thesis_case = that
  let ?w1 = "emit R ''ExecutionStarted'' (Some [(''input'', JStr inputJSON)]) w"
  define input where "input = (if inputJSON = '''' then JObj []
    else (case unmarshal (lib R) inputJSON of Inl _ \<Rightarrow> JObj [] | Inr v \<Rightarrow> v))"
  define l where "l = loop R fuel m \<lparr>ex_ctx = [], inIter = False, iterIndex = 0\<rparr> (StartAt m) input ?w1"
  have fin: thesis if "finishAborted R i w2 = (r, w')" "w2 = ?w1 \<or> (\<exists>q. l = Some (q, w2))" for i w2
    using that thesis_case [where ?w2.0 = w2]
    by (cases i) (auto simp: finishAborted_def l_def)
  show thesis
  proof (cases l)
    case None
    with assms show thesis
      by (auto simp: runExecution_def Let_def l_def [symmetric] input_def [symmetric] split: option.splits intro: fin)
  next
    case (Some p)
    obtain q w2 where p: "p = (q, w2)" by fastforce
    have w2: "\<exists>q input. loop R fuel m \<lparr>ex_ctx = [], inIter = False, iterIndex = 0\<rparr> (StartAt m) input ?w1 = Some (q, w2)"
      using Some p by (auto simp: l_def)
    from Some assms p show thesis
      by (cases early; cases q)
        (auto simp: runExecution_def Let_def l_def [symmetric] input_def [symmetric] case_prod_beta
          split: if_splits intro: fin thesis_case [OF _ disjI2 [OF w2]])
  qed
qed



section \<open>Retries\<close>

lemma retryLoop_tasks:
  assumes "\<And>w r w'. work w = Some (r, w') \<Longrightarrow> tasks w' \<le> Suc (tasks w)"
  shows "retryLoop R effIn retriers catchers work attempts w = Some (r, w') \<Longrightarrow>
    tasks w' \<le> tasks w + 1 + budget retriers attempts"
proof (induction "budget retriers attempts" arbitrary: attempts w rule: less_induct)
  case less
  from less.prems obtain q w1 where work: "work w = Some (q, w1)"
    by (subst (asm) retryLoop.simps) (auto split: option.splits)
  note t1 = assms [OF work]
  show ?case
  proof (cases q)
    case (Inr res)
    with less.prems work t1 show ?thesis by (subst (asm) retryLoop.simps) auto
  next
    case (Inl err)
    obtain attempts' hit where scan: "retryScan retriers (fst (toStateError err)) attempts = (attempts', hit)"
      by fastforce
    show ?thesis
    proof (cases hit)
      case None
      with less.prems work Inl scan t1 show ?thesis by (subst (asm) retryLoop.simps) auto
    next
      case (Some rn)
      let ?w = "w1\<lparr>sleeps := sleeps w1 @ [retryDelay (fst rn) (snd rn)]\<rparr>"
      have b: "budget retriers attempts' < budget retriers attempts"
        using retryScan_budget [OF scan] Some by simp
      show ?thesis
      proof (cases "ctxDone R (polls w1)")
        case True
        with less.prems work Inl scan Some t1 show ?thesis
          by (subst (asm) retryLoop.simps) (auto simp: case_prod_beta poll_def)
      next
        case False
        then have "retryLoop R effIn retriers catchers work attempts' (?w\<lparr>polls := Suc (polls w1)\<rparr>) = Some (r, w')"
          using less.prems work Inl scan Some
          by (subst (asm) retryLoop.simps) (auto simp: case_prod_beta poll_def)
        from less.hyps [OF b this] t1 b show ?thesis by simp
      qed
    qed
  qed
qed

lemma emit_tasks [simp]: "tasks (emit R t d w) = tasks w"
  by (simp add: emit_def Let_def)

lemma exEmit_tasks [simp]: "tasks (exEmit R ex t d w) = tasks w"
  by (simp add: exEmit_def)

lemma taskWork_tasks: "taskWork R ex name s payload sel w = Some (r, w') \<Longrightarrow> tasks w' \<le> Suc (tasks w)"
  by (auto simp: taskWork_def Let_def split: sum.splits prod.splits option.splits if_splits)

lemma budget_start: "budget rs (replicate (length rs) 0) = (\<Sum>r \<leftarrow> rs. nat (maxAttempts r))"
  by (induction rs) auto

lemma taskRetry_tasks:
  "retryLoop R v rs cs (taskWork R ex name s payload sel) (replicate (length rs) 0) w = Some (r, w') \<Longrightarrow>
    tasks w' \<le> tasks w + 1 + (\<Sum>rt \<leftarrow> rs. nat (maxAttempts rt))"
  using retryLoop_tasks [where work = "taskWork R ex name s payload sel" and attempts = "replicate (length rs) 0"
      and retriers = rs] taskWork_tasks by (fastforce simp: budget_start)

text \<open>C31: Retries are bounded: a Task state calls its resource at most once plus the sum of \<open>MaxAttempts\<close> (3 where
  it is not given, 0 where it is negative) over its retriers, whatever errors the resource returns.\<close>

theorem task_attempts_bounded:
  assumes "runTask R ex name s input w = Some (r, w')"
  shows "tasks w' \<le> tasks w + 1 + (\<Sum>rt \<leftarrow> task_Retry s. nat (maxAttempts rt))"
  using assms
  unfolding runTask_def runWork_def runWithRetryCatch_def stepBind_Some pureStep_def
  by (auto dest!: taskRetry_tasks)

section \<open>A concrete execution\<close>

definition demoRun :: run_env where
  "demoRun = \<lparr>lib = demoSfn,
     RunTask = (\<lambda>n req. (if n < 2 then Some (StateError ''Busy'' '''') else None,
        \<lparr>res_Output = ''done'', res_LogGroup = '''', res_LogStream = '''', res_RequestID = ''''\<rparr>)),
     ctxDone = (\<lambda>n. False), clockNow = (\<lambda>n. int n), hasSink = True\<rparr>"

definition demoTask :: TaskState where
  "demoTask = \<lparr>task_Resource = ''arn:aws:lambda:f'', task_Next = '''', task_End = True, task_InputPath = noPath,
     task_OutputPath = noPath, task_Parameters = '''', task_ResultSelector = '''', task_ResultPath = noPath,
     task_Retry = [\<lparr>retry_ErrorEquals = [''States.ALL''], retry_IntervalSeconds = 0, retry_MaxAttempts = None, retry_BackoffRate = 0\<rparr>],
     task_Catch = [], task_TimeoutSeconds = 0, task_Comment = ''''\<rparr>"

lemma demoRun_simps [simp]:
  "lib demoRun = demoSfn" "ctxDone demoRun n = False" "clockNow demoRun n = int n" "hasSink demoRun"
  "RunTask demoRun n req = (if n < 2 then Some (StateError ''Busy'' '''') else None,
     \<lparr>res_Output = ''done'', res_LogGroup = '''', res_LogStream = '''', res_RequestID = ''''\<rparr>)"
  by (simp_all add: demoRun_def)

lemmas demo_run_simps = runExecution_def loop.simps poll_def exEmit_def emit_def Let_def runPass_def runParallel_def
  runWork_def runWithRetryCatch_def retryLoop.simps stepBind_def pureStep_def sbind_def mergeOutput_def transition_def
  decodeParams_def applyInputPath_def applyParameters_def applyResultPath_def applyOutputPath_def applyResultSelector_def
  pathOr_def noPath_def runBranches_def childExecution_def newWorld_def getPath_def setPath_def parsePath_def
  stateEnteredEvent_def stateExitedEvent_def demoSfn_def eval_nat_numeral

lemma demo_run:
  "\<exists>r w. runExecution demoRun 9 None ParentCancelled demoMachine '''' newWorld = Some (r, w) \<and>
     map ev_Type (history w) = [''ExecutionStarted'', ''ParallelStateEntered'', ''PassStateEntered'',
       ''PassStateExited'', ''ParallelStateExited'', ''PassStateEntered'', ''PassStateExited'', ''ExecutionSucceeded'']"
  by (simp add: demo_run_simps demoMachine_def demoBranch_def demoPass_def parseSegs.simps)



lemma demo_task:
  "\<exists>r w. runTask demoRun \<lparr>ex_ctx = [], inIter = False, iterIndex = 0\<rparr> ''t'' demoTask JNull newWorld = Some (Inr r, w) \<and> tasks w = 3"
  by (simp add: demo_run_simps demoTask_def runTask_def taskWork_def taskEventNames_def isLambdaTaskResource_def
      containsStr_def hasPrefix_def withTaskLogRefs_def maxAttempts_def matchesErrorEquals_def ErrAll_def)

theorem task_attempts_bounded_witness:
  "\<exists>r w. runTask demoRun \<lparr>ex_ctx = [], inIter = False, iterIndex = 0\<rparr> ''t'' demoTask JNull newWorld = Some (Inr r, w) \<and>
     tasks w = 3 \<and> tasks w \<le> 4"
proof -
  from demo_task obtain r w where run: "runTask demoRun \<lparr>ex_ctx = [], inIter = False, iterIndex = 0\<rparr> ''t'' demoTask JNull newWorld = Some (Inr r, w)"
    and "tasks w = 3" by blast
  with task_attempts_bounded [OF run] show ?thesis by (auto simp: demoTask_def maxAttempts_def newWorld_def)
qed

section \<open>Transitions\<close>

lemma catchError_next: "catchError effIn catchers se = Inr (out, nxt) \<Longrightarrow> nxt \<in> set (map catch_Next catchers)"
  by (auto simp: catchError_def sbind_Inr find_Some_iff split: option.splits prod.splits)

lemma retryLoop_next:
  "retryLoop R effIn retriers catchers work attempts w = Some (Inr (out, nxt), w') \<Longrightarrow>
    nxt = '''' \<or> nxt \<in> set (map catch_Next catchers)"
proof (induction R effIn retriers catchers work attempts w rule: retryLoop.induct)
  case (1 R effIn retriers catchers work attempts w)
  show ?case using "1.prems"
    by (subst (asm) retryLoop.simps)
      (auto split: option.splits sum.splits prod.splits bool.splits dest: "1.IH" catchError_next)
qed

lemma mergeOutput_next: "mergeOutput v res rp op t = Inr (out, nxt) \<Longrightarrow> nxt = t"
  by (auto simp: mergeOutput_def sbind_Inr)

lemma runWork_next:
  "runWork R v retriers catchers post rp op t work w = Some (Inr (out, nxt), w') \<Longrightarrow>
    nxt = t \<or> nxt \<in> set (map catch_Next catchers)"
  unfolding runWork_def runWithRetryCatch_def
  by (auto simp: stepBind_Some pureStep_def sbind_Inr split: if_splits dest!: retryLoop_next mergeOutput_next)

lemma firstMatch_next: "firstMatch E rules data = Inr (Some nxt) \<Longrightarrow> nxt \<in> (\<lambda>r. rule_Next (rule_test r)) ` set rules"
  by (induction rules) (auto simp: sbind_Inr split: if_splits)

lemma transition_targets: "transition nxt isEnd \<noteq> '''' \<Longrightarrow> transition nxt isEnd \<in> set (transitionTargets nxt isEnd)"
  by (auto simp: transition_def transitionTargets_def split: if_splits)

lemma runWait_next:
  assumes "runWait R s input w = Some (Inr (out, nxt), w')"
  shows "nxt = transition (wait_Next s) (wait_End s)"
proof -
  from assms obtain data where
    w: "(case computeWaitDelay (lib R) (clockNow R (reads w)) s data of
          Inl e \<Rightarrow> Some (Inl e, w\<lparr>reads := Suc (reads w)\<rparr>)
        | Inr delay \<Rightarrow>
            let w1 = w\<lparr>reads := Suc (reads w)\<rparr>;
                (cancelled, w2) = (if delay > 0 then poll R (w1\<lparr>sleeps := sleeps w1 @ [delay]\<rparr>) else (False, w1)) in
            if cancelled then Some (Inl Aborted, w2)
            else Some (sbind (applyOutputPath data (pathOr (wait_OutputPath s) ''$''))
                         (\<lambda>out. Inr (out, transition (wait_Next s) (wait_End s))), w2)) = Some (Inr (out, nxt), w')"
    by (auto simp: runWait_def stepBind_Some pureStep_def)
  then show ?thesis
    by (cases "computeWaitDelay (lib R) (clockNow R (reads w)) s data")
      (auto simp: Let_def poll_def sbind_Inr split: if_splits)
qed

text \<open>The next state is one of the state's targets.\<close>

lemma dispatchState_next:
  assumes "dispatchState R child ex name st input w = Some (Inr (out, nxt), w')" and "nxt \<noteq> ''''"
  shows "nxt \<in> set (targets st)"
proof (cases st)
  case (Choice s)
  with assms show ?thesis
    by (auto simp: pureStep_def runChoice_def sbind_Inr split: option.splits if_splits dest: firstMatch_next)
qed (use assms in \<open>auto simp: runTask_def runParallel_def runMap_def runPass_def runSucceed_def runFail_def
    stepBind_Some pureStep_def sbind_Inr split: if_splits
    dest!: runWork_next mergeOutput_next runWait_next intro: transition_targets\<close>)

text \<open>C29: No execution of a validated machine, nor of a machine nested in it, is ever sent to a state that does
  not exist: whatever a state computes, with its retries and catchers, the state it hands over to is
  defined. So the branch of the loop that reports a missing state is never reached.\<close>

theorem transitions_defined:
  assumes "validateMachine m pfx = None" and "childOf\<^sup>*\<^sup>* m m'"
    and "map_of (States m') name = Some st"
    and "dispatchState R child ex name st input w = Some (Inr (out, nxt), w')" and "nxt \<noteq> ''''"
  shows "map_of (States m') nxt \<noteq> None"
proof -
  obtain p where p: "validateMachine m' p = None" using validateMachine_nested [OF assms(2,1)] ..
  from assms(3) have "(name, st) \<in> set (States m')" by (rule map_of_SomeD)
  with validateMachine_None [OF p] obtain path where "validateState (map fst (States m')) st path = None" by blast
  from validateState_targets [OF this] dispatchState_next [OF assms(4,5)]
  show ?thesis by (auto simp: map_of_eq_None_iff)
qed

theorem transitions_defined_witness:
  "map_of (States demoMachine) ''e'' \<noteq> None"
proof -
  let ?st = "snd (States demoMachine ! 0)"
  let ?child = "\<lambda>m ex input w. Some (Inr JNull, w)"
  have "\<exists>out w'. dispatchState demoRun ?child \<lparr>ex_ctx = [], inIter = False, iterIndex = 0\<rparr> ''p'' ?st JNull newWorld =
      Some (Inr (out, ''e''), w')"
    by (simp add: demo_run_simps demoMachine_def parseSegs.simps)
  then obtain out w' where d: "dispatchState demoRun ?child \<lparr>ex_ctx = [], inIter = False, iterIndex = 0\<rparr> ''p'' ?st JNull newWorld =
      Some (Inr (out, ''e''), w')" by blast
  show ?thesis
    by (rule transitions_defined [OF demoMachine_valid rtranclp.rtrancl_refl _ d]) (simp_all add: demoMachine_def)
qed

end
