(* ===== verification/SFN_Progress.thy ===== *)
theory SFN_Progress
  imports SFN_Execution
begin

text \<open>
  Termination of executions and the results of Map states. A machine whose states can be ranked so
  that every transition, and every entry into a branch or an item processor, goes down in rank is
  executed within a number of loop rounds that depends on the rank alone; and the output of a Map
  state has one result per item, in the order of the items.
\<close>

section \<open>Termination\<close>

lemma stepBind_total: "m w \<noteq> None \<Longrightarrow> (\<And>v w. f v w \<noteq> None) \<Longrightarrow> stepBind m f w \<noteq> None"
  by (auto simp: stepBind_def split: option.splits sum.splits)

lemma pureStep_total [simp]: "pureStep r w \<noteq> None"
  by (simp add: pureStep_def)

lemma retryLoop_total:
  assumes "\<And>w. work w \<noteq> None"
  shows "retryLoop R effIn retriers catchers work attempts w \<noteq> None"
proof (induction "budget retriers attempts" arbitrary: attempts w rule: less_induct)
  case less
  from assms [of w] obtain q w1 where work: "work w = Some (q, w1)" by auto
  show ?case
  proof (cases q)
    case (Inr res)
    with work show ?thesis by (subst retryLoop.simps) simp
  next
    case (Inl err)
    obtain attempts' hit where scan: "retryScan retriers (fst (toStateError err)) attempts = (attempts', hit)"
      by fastforce
    show ?thesis
    proof (cases hit)
      case None
      with work Inl scan show ?thesis by (subst retryLoop.simps) simp
    next
      case (Some rn)
      have "budget retriers attempts' < budget retriers attempts" using retryScan_budget [OF scan] Some by simp
      then have "retryLoop R effIn retriers catchers work attempts' w2 \<noteq> None" for w2 by (rule less.hyps)
      with work Inl scan Some show ?thesis
        by (subst retryLoop.simps) (simp add: case_prod_beta poll_def split: bool.split)
    qed
  qed
qed

lemma runWork_total:
  "(\<And>w. work w \<noteq> None) \<Longrightarrow> runWork R v retriers catchers post rp op t work w \<noteq> None"
  unfolding runWork_def runWithRetryCatch_def
  by (rule stepBind_total, rule retryLoop_total, assumption) (simp add: case_prod_beta)

lemma taskWork_total: "taskWork R ex name s payload sel w \<noteq> None"
  by (simp add: taskWork_def Let_def case_prod_beta split: sum.splits option.splits)

lemma runAll_total: "(\<And>m w. m \<in> set ms \<Longrightarrow> m w \<noteq> None) \<Longrightarrow> runAll ms w \<noteq> None"
proof (induction ms arbitrary: w)
  case (Cons m ms)
  then have "m w \<noteq> None" by simp
  then obtain r w1 where "m w = Some (r, w1)" by auto
  moreover have "runAll ms w1 \<noteq> None" by (rule Cons.IH) (use Cons.prems in auto)
  ultimately show ?case by (auto split: option.splits)
qed simp

lemma runBranches_total:
  assumes "\<And>m ex input w. m \<in> set branches \<Longrightarrow> child m ex input w \<noteq> None"
  shows "runBranches R child ex branches input w \<noteq> None"
proof -
  have "runAll (map (\<lambda>branch. child branch (childExecution ex []) input) branches) w \<noteq> None"
    by (rule runAll_total) (use assms in auto)
  then show ?thesis by (auto simp: runBranches_def split: sum.splits option.splits)
qed

lemma runItem_total:
  "(\<And>ex input w. child proc ex input w \<noteq> None) \<Longrightarrow> runItem R child ex proc sel i item w \<noteq> None"
  by (simp add: runItem_def Let_def case_prod_beta split: sum.split option.split) (metis option.discI prod.exhaust_sel)

lemma runItems_total:
  assumes "\<And>m ex input w. Processor p it = Some m \<Longrightarrow> child m ex input w \<noteq> None"
  shows "runItems R child ex s p it effIn w \<noteq> None"
proof (cases "Processor p it")
  case (Some proc)
  have "runAll (map (\<lambda>(i, item). runItem R child ex proc sel (int i) item) xs) w \<noteq> None" for sel xs w
  proof (rule runAll_total)
    fix m w'
    assume "m \<in> set (map (\<lambda>(i, item). runItem R child ex proc sel (int i) item) xs)"
    then obtain i item where "m = runItem R child ex proc sel (int i) item" by auto
    then show "m w' \<noteq> None" using runItem_total [of child proc] assms [OF Some] by auto
  qed
  then have all: "\<exists>rs w'. runAll (map (\<lambda>(i, item). runItem R child ex proc sel (int i) item) xs) w = Some (rs, w')" for sel xs w
    by auto
  show ?thesis
  proof (rule notI)
    assume "runItems R child ex s p it effIn w = None"
    then show False using all by (auto simp: runItems_def Some split: sum.splits json.splits option.splits if_splits) (metis option.discI)+
  qed
qed (simp add: runItems_def)

lemma dispatchState_total:
  assumes "\<And>m ex input w. m \<in> set (children st) \<Longrightarrow> child m ex input w \<noteq> None"
  shows "dispatchState R child ex name st input w \<noteq> None"
proof (cases st)
  case (Task s)
  show ?thesis unfolding Task dispatchState.simps runTask_def
    by (intro stepBind_total pureStep_total runWork_total taskWork_total)
next
  case (Wait s)
  show ?thesis unfolding Wait dispatchState.simps runWait_def
    by (rule stepBind_total) (auto simp: Let_def poll_def split: sum.splits)
next
  case (Parallel s branches)
  show ?thesis unfolding Parallel dispatchState.simps runParallel_def
    by (intro stepBind_total pureStep_total runWork_total runBranches_total assms) (simp add: Parallel)
next
  case (MapS s p it)
  show ?thesis unfolding MapS dispatchState.simps runMap_def
    by (intro stepBind_total pureStep_total runWork_total runItems_total assms) (simp add: MapS)
qed (simp_all add: pureStep_def)

text \<open>The rank of a state bounds the rounds left; \<open>rank m name\<close> is the rank of state \<open>name\<close> of machine \<open>m\<close>.\<close>

definition ranked :: "(Machine \<Rightarrow> string \<Rightarrow> nat) \<Rightarrow> Machine \<Rightarrow> bool" where
  "ranked rank m \<longleftrightarrow> (\<forall>(name, st) \<in> set (States m).
     (\<forall>t \<in> set (targets st). rank m t < rank m name) \<and>
     (\<forall>c \<in> set (children st). rank c (StartAt c) < rank m name))"

lemma ranked_loop_total:
  assumes "\<And>m'. childOf\<^sup>*\<^sup>* root0 m' \<Longrightarrow> ranked rank m'" and "childOf\<^sup>*\<^sup>* root0 m" and "rank m current < fuel"
  shows "loop R fuel m ex current input w \<noteq> None"
  using assms(2,3)
proof (induction fuel arbitrary: m ex current input w)
  case (Suc fuel)
  obtain b w0 where pl: "poll R w = (b, w0)" by fastforce
  show ?case
  proof (cases "b \<or> map_of (States m) current = None")
    case True
    with pl show ?thesis by (cases b) auto
  next
    case False
    then obtain st where st: "map_of (States m) current = Some st" and b: "\<not> b" by auto
    then have mem: "(current, st) \<in> set (States m)" by (auto dest: map_of_SomeD)
    have rk: "(\<forall>t \<in> set (targets st). rank m t < rank m current) \<and> (\<forall>c \<in> set (children st). rank c (StartAt c) < rank m current)"
      using assms(1) [OF Suc.prems(1)] mem by (fastforce simp: ranked_def)
    let ?child = "\<lambda>m' ex' input'. loop R fuel m' ex' (StartAt m') input'"
    have child: "?child c ex' input' w' \<noteq> None" if "c \<in> set (children st)" for c ex' input' w'
    proof (rule Suc.IH)
      have "childOf m c" using that mem by (auto simp: childOf_def)
      with Suc.prems(1) show "childOf\<^sup>*\<^sup>* root0 c" by simp
      show "rank c (StartAt c) < fuel" using rk that Suc.prems(2) by fastforce
    qed
    let ?w1 = "exEmit R ex (stateEnteredEvent st) [(''name'', JStr current)] w0"
    from dispatchState_total [of st ?child R ex current input ?w1] child obtain q w2
      where d: "dispatchState R ?child ex current st input ?w1 = Some (q, w2)" by fastforce
    show ?thesis
    proof (cases q)
      case (Inl e)
      with pl b st d show ?thesis by (simp add: Let_def)
    next
      case (Inr on)
      obtain out nxt where on: "on = (out, nxt)" by fastforce
      have "nxt = '''' \<or> loop R fuel m ex nxt out w3 \<noteq> None" for w3
      proof (cases "nxt = ''''")
        case False
        then have "nxt \<in> set (targets st)" using dispatchState_next d Inr on by blast
        then have "rank m nxt < fuel" using rk Suc.prems(2) by fastforce
        then show ?thesis using Suc.IH [OF Suc.prems(1)] by blast
      qed simp
      with pl b st d Inr on show ?thesis by (auto simp: Let_def simp del: not_None_eq)
    qed
  qed
qed simp

text \<open>C7: An execution of a machine without cycles ends: when the states of a machine and of the machines
  nested in it have ranks that go down along every transition, catcher and entry into a branch or
  item processor, the run returns within as many rounds as the rank of its start state plus one,
  whatever the tasks answer and whatever the input is.\<close>

theorem acyclic_machine_terminates:
  assumes "\<forall>m'. childOf\<^sup>*\<^sup>* m m' \<longrightarrow> ranked rank m'" and "rank m (StartAt m) < fuel"
  shows "\<exists>r w'. runExecution R fuel early late m inputJSON w = Some (r, w')"
proof -
  let ?w1 = "emit R ''ExecutionStarted'' (Some [(''input'', JStr inputJSON)]) w"
  have "\<exists>p. loop R fuel m \<lparr>ex_ctx = [], inIter = False, iterIndex = 0\<rparr> (StartAt m) input ?w1 = Some p" for input
    using ranked_loop_total [of m rank m "StartAt m" fuel] assms by auto
  then obtain p where "loop R fuel m \<lparr>ex_ctx = [], inIter = False, iterIndex = 0\<rparr> (StartAt m)
      (if inputJSON = '''' then JObj [] else (case unmarshal (lib R) inputJSON of Inl _ \<Rightarrow> JObj [] | Inr v \<Rightarrow> v)) ?w1 = Some p"
    by blast
  then show ?thesis unfolding runExecution_def Let_def
    by (simp add: case_prod_beta split: option.split sum.split)
qed

definition demoRank :: "Machine \<Rightarrow> string \<Rightarrow> nat" where
  "demoRank m name = (if name = ''p'' then 1 else 0)"

lemma demoBranch_child: "\<not> childOf demoBranch c"
  by (simp add: childOf_def demoBranch_def demoPass_def)

lemma demoMachine_nested: "childOf\<^sup>*\<^sup>* demoMachine m' \<Longrightarrow> m' = demoMachine \<or> m' = demoBranch"
  by (induction rule: rtranclp_induct)
    (auto simp: demoBranch_child, auto simp: childOf_def demoMachine_def demoPass_def)

theorem acyclic_machine_terminates_witness:
  "\<exists>r w'. runExecution demoRun 2 None ParentCancelled demoMachine ''x'' newWorld = Some (r, w')"
proof (rule acyclic_machine_terminates [where rank = demoRank])
  show "\<forall>m'. childOf\<^sup>*\<^sup>* demoMachine m' \<longrightarrow> ranked demoRank m'"
    by (auto dest!: demoMachine_nested simp: ranked_def demoRank_def demoPass_def transitionTargets_def,
      auto simp: demoMachine_def demoBranch_def demoPass_def transitionTargets_def)
qed (simp add: demoMachine_def demoRank_def)

section \<open>Results of Parallel and Map states\<close>

lemma collect_Inr: "collect rs = Inr outs \<longleftrightarrow> rs = map Inr outs"
  by (induction rs arbitrary: outs rule: collect.induct) (auto simp: map_sum_eq_Inr Cons_eq_map_conv)

lemma runAll_nth:
  assumes "runAll ms w = Some (rs, w')"
  shows "length rs = length ms \<and> (\<forall>i < length ms. \<exists>w1 w2. (ms ! i) w1 = Some (rs ! i, w2))"
  using assms
proof (induction ms arbitrary: w rs)
  case (Cons m ms)
  then obtain r w1 rs' where "m w = Some (r, w1)" "runAll ms w1 = Some (rs', w')" "rs = r # rs'"
    by (auto split: option.splits)
  with Cons.IH [of w1 rs'] show ?case by (auto simp: nth_Cons split: nat.split)
qed simp

lemma runItem_Inr:
  "runItem R child ex proc sel i item w = Some (Inr out, w') \<Longrightarrow>
    \<exists>procInput w1 w2. applyParameters (lib R) item (iterContext i item) sel = Inr procInput \<and>
      child proc \<lparr>ex_ctx = iterContext i item, inIter = True, iterIndex = i\<rparr> procInput w1 = Some (Inr out, w2)"
  by (auto simp: runItem_def Let_def split: sum.splits option.splits prod.splits)

text \<open>A Map state that succeeds has exactly one output per item of the array at \<open>ItemsPath\<close>, in the order
  of the items: output \<open>i\<close> is what the item processor returned for item \<open>i\<close>, run with that item and
  its index in the context object, and no item is skipped.\<close>

theorem map_outputs_in_order:
  assumes "runItems R child ex s itemProcessor legacyIterator effIn w = Some (Inr res, w')"
  shows "\<exists>proc sel items outs.
    Processor itemProcessor legacyIterator = Some proc \<and> decodeParams (lib R) (map_ItemSelector s) = Inr sel \<and>
    getPath effIn (if map_ItemsPath s = '''' then ''$'' else map_ItemsPath s) = Inr (JArr items) \<and>
    res = JArr outs \<and> length outs = length items \<and>
    (\<forall>i < length items. \<exists>procInput w1 w2.
       applyParameters (lib R) (items ! i) (iterContext (int i) (items ! i)) sel = Inr procInput \<and>
       child proc \<lparr>ex_ctx = iterContext (int i) (items ! i), inIter = True, iterIndex = int i\<rparr> procInput w1 = Some (Inr (outs ! i), w2))"
proof -
  from assms obtain proc sel where proc: "Processor itemProcessor legacyIterator = Some proc"
    and sel: "decodeParams (lib R) (map_ItemSelector s) = Inr sel"
    by (auto simp: runItems_def split: option.splits sum.splits)
  with assms obtain items where items: "getPath effIn (if map_ItemsPath s = '''' then ''$'' else map_ItemsPath s) = Inr (JArr items)"
    by (auto simp: runItems_def split: sum.splits json.splits)
  show ?thesis
  proof (cases "items = []")
    case True
    with assms proc sel items show ?thesis by (auto simp: runItems_def)
  next
    case False
    let ?ms = "map (\<lambda>(i, item). runItem R child ex proc sel (int i) item) (enumerate 0 items)"
    from assms proc sel items False obtain rs outs where rs: "runAll ?ms w = Some (rs, w')"
      and "collect rs = Inr outs" and res: "res = JArr outs"
      by (auto simp: runItems_def split: option.splits sum.splits)
    then have outs: "rs = map Inr outs" by (simp add: collect_Inr)
    from runAll_nth [OF rs] have len: "length outs = length items"
      and nth: "\<forall>i < length items. \<exists>w1 w2. runItem R child ex proc sel (int i) (items ! i) w1 = Some (Inr (outs ! i), w2)"
      by (auto simp: outs nth_enumerate_eq)
    with proc sel items res show ?thesis by (blast dest: runItem_Inr)
  qed
qed

definition demoMap :: MapState where
  "demoMap = \<lparr>map_ItemsPath = '''', map_MaxConcurrency = 0, map_Next = '''', map_End = True, map_InputPath = noPath,
     map_OutputPath = noPath, map_Parameters = '''', map_ItemSelector = '''', map_ResultSelector = '''',
     map_ResultPath = noPath, map_Retry = [], map_Catch = [], map_Comment = ''''\<rparr>"

theorem map_outputs_in_order_witness:
  "\<exists>outs w'. runItems demoRun (\<lambda>m ex input w. Some (Inr (JArr [input]), w)) \<lparr>ex_ctx = [], inIter = False, iterIndex = 0\<rparr>
     demoMap (Some demoBranch) None (JArr [JNum 4, JNum 2]) newWorld = Some (Inr (JArr outs), w') \<and>
     length outs = 2 \<and> outs ! 0 = JArr [JNum 4] \<and> outs ! 1 = JArr [JNum 2]"
proof -
  let ?child = "\<lambda>m ex input w. Some (Inr (JArr [input]), w)"
  let ?run = "runItems demoRun ?child \<lparr>ex_ctx = [], inIter = False, iterIndex = 0\<rparr>
     demoMap (Some demoBranch) None (JArr [JNum 4, JNum 2]) newWorld"
  have "\<exists>res w'. ?run = Some (Inr res, w')"
    by (simp add: demo_run_simps runItems_def demoMap_def Processor_def runItem_def parseSegs.simps)
  then obtain res w' where run: "?run = Some (Inr res, w')" by blast
  have "getPath (JArr [JNum 4, JNum 2]) ''$'' = Inr (JArr [JNum 4, JNum 2])"
    by (simp add: getPath_def parsePath_def parseSegs.simps)
  moreover have "applyParameters demoSfn v c JNull = Inr v" for v c by (simp add: applyParameters_def)
  ultimately show ?thesis
    using map_outputs_in_order [OF run] run
    by (auto simp: demoMap_def decodeParams_def less_Suc_eq numeral_2_eq_2)
qed

end
