(* ===== verification/DDB_Attr.thy ===== *)
theory DDB_Attr
  imports Tarn_Json "HOL-Library.List_Lexorder" "HOL-Library.Char_ord"
begin

text \<open>
  DynamoDB attribute values (\<open>internal/dynamodb/attr.go\<close>, \<open>errors.go\<close>, and \<open>compareAttributeValues\<close>
  and \<open>asNumber\<close> of \<open>store.go\<close>): the canonical form of numbers, sets and documents, their order and
  their size. Attribute values are decoded JSON; \<open>nil\<close> is \<open>JNull\<close>, also where the code has a nil map
  in an attribute of kind M.

  What the code uses of \<open>encoding/json\<close>, \<open>fmt\<close> and \<open>math/big\<close> is in \<open>ddb_env\<close>: the encoder, the
  text \<open>fmt.Sprint\<close> gives a value that is not a string, and parsing,
  adding, subtracting and printing of numbers with a mantissa of 256 bits, a number being its value.
\<close>

record ddb_env =
  Marshal :: "json \<Rightarrow> string"
  SprintAny :: "json \<Rightarrow> string"
  ParseBig :: "string \<Rightarrow> rat option"
  AddBig :: "rat \<Rightarrow> rat \<Rightarrow> rat"
  SubBig :: "rat \<Rightarrow> rat \<Rightarrow> rat"
  TextBig :: "rat \<Rightarrow> string"

record CancellationReason =
  reason_Code :: string
  reason_Message :: string
  reason_Item :: "json_object option"

datatype ddb_error =
    ServiceError (err_Code: string) (err_Message: string) (err_Item: "json_object option")
      (err_Reasons: "CancellationReason list")
  | GoPanic

type_synonym 'a ddb_result = "ddb_error + 'a"

definition validationError :: "string \<Rightarrow> ddb_error" where
  "validationError msg = ServiceError ''ValidationException'' msg None []"

text \<open>Type assertions \<open>v, _ := x.(T)\<close>, which give the zero value of another type.\<close>

fun asString :: "json \<Rightarrow> string" where
  "asString (JStr s) = s"
| "asString _ = ''''"

fun asList :: "json \<Rightarrow> json list" where
  "asList (JArr xs) = xs"
| "asList _ = []"

fun asMap :: "json \<Rightarrow> json_object" where
  "asMap (JObj m) = m"
| "asMap _ = []"

section \<open>Numbers\<close>

definition notNumeric :: "string \<Rightarrow> ddb_error" where
  "notNumeric raw = validationError (''The parameter cannot be converted to a numeric value: '' @ raw)"

text \<open>The lexical part of \<open>canonicalNumber\<close>: sign, integer part, fraction and exponent.\<close>

definition isExpMark :: "char \<Rightarrow> bool" where
  "isExpMark c \<longleftrightarrow> c = CHR ''e'' \<or> c = CHR ''E''"

definition numberParts :: "string \<Rightarrow> (bool \<times> string \<times> string \<times> int) ddb_result" where
  "numberParts raw =
     (let (neg, s) = splitSign (trimSpace raw);
          mantissa = takeWhile (\<lambda>c. \<not> isExpMark c) s in
      rbind (if list_ex isExpMark s
             then (case atoi (tl (dropWhile (\<lambda>c. \<not> isExpMark c) s)) of
                 None \<Rightarrow> Inl (notNumeric raw)
               | Some e \<Rightarrow> Inr e)
             else Inr 0) (\<lambda>e.
      let intPart = takeWhile (\<lambda>c. c \<noteq> CHR ''.'') mantissa;
          fracPart = tl (dropWhile (\<lambda>c. c \<noteq> CHR ''.'') mantissa);
          digits = intPart @ fracPart in
      if digits = [] \<or> \<not> list_all isDigit digits then Inl (notNumeric raw)
      else Inr (neg, intPart, fracPart, e)))"

definition dropZeros :: "string \<Rightarrow> string" where
  "dropZeros = dropWhile (\<lambda>c. c = CHR ''0'')"

definition dropZerosRight :: "string \<Rightarrow> string" where
  "dropZerosRight s = rev (dropZeros (rev s))"

text \<open>The plain notation of \<open>digits\<close> times ten to the \<open>e\<close>.\<close>

definition renderNumber :: "bool \<Rightarrow> string \<Rightarrow> int \<Rightarrow> string" where
  "renderNumber neg digits e =
     (let point = int (length digits) + e;
          out = (if e \<ge> 0 then digits @ replicate (nat e) CHR ''0''
                 else if point > 0 then take (nat point) digits @ ''.'' @ drop (nat point) digits
                 else ''0.'' @ replicate (nat (- point)) CHR ''0'' @ digits)
      in if neg then ''-'' @ out else out)"

text \<open>The arithmetic on the exponent is unbounded here; the code computes it in 64 bits.\<close>

definition canonicalNumber :: "string \<Rightarrow> string ddb_result" where
  "canonicalNumber raw = rbind (numberParts raw) (\<lambda>(neg, intPart, fracPart, e).
     let stripped = dropZeros (intPart @ fracPart);
         digits = dropZerosRight stripped;
         ex = e - int (length fracPart) + int (length stripped - length digits) in
     if digits = [] then Inr ''0''
     else if length digits > 38
       then Inl (validationError ''Attempting to store more than 38 significant digits in a Number'')
     else Inr (renderNumber neg digits ex))"

section \<open>Scalars\<close>

text \<open>\<open>base64.StdEncoding.DecodeString\<close>: line breaks are ignored, the last group is padded.\<close>

definition b64Val :: "char \<Rightarrow> nat option" where
  "b64Val c = (let n = of_char c :: nat in
     if 65 \<le> n \<and> n \<le> 90 then Some (n - 65)
     else if 97 \<le> n \<and> n \<le> 122 then Some (n - 71)
     else if 48 \<le> n \<and> n \<le> 57 then Some (n + 4)
     else if n = 43 then Some 62 else if n = 47 then Some 63 else None)"

fun b64Groups :: "string \<Rightarrow> string option" where
  "b64Groups [] = Some []"
| "b64Groups (a # b # c # d # rest) = (case (b64Val a, b64Val b) of
      (Some w, Some x) \<Rightarrow>
        if c = CHR ''='' then
          (if d = CHR ''='' \<and> rest = [] then Some [char_of ((w * 4 + x div 16) mod 256)] else None)
        else (case b64Val c of
            None \<Rightarrow> None
          | Some y \<Rightarrow>
              if d = CHR ''='' then
                (if rest = [] then Some [char_of ((w * 4 + x div 16) mod 256), char_of ((x * 16 + y div 4) mod 256)] else None)
              else (case (b64Val d, b64Groups rest) of
                  (Some z, Some out) \<Rightarrow> Some (char_of ((w * 4 + x div 16) mod 256) #
                     char_of ((x * 16 + y div 4) mod 256) # char_of ((y * 64 + z) mod 256) # out)
                | _ \<Rightarrow> None))
    | _ \<Rightarrow> None)"
| "b64Groups _ = None"

definition b64Decode :: "string \<Rightarrow> string option" where
  "b64Decode s = b64Groups (filter (\<lambda>c. c \<noteq> CHR 0x0A \<and> c \<noteq> CHR 0x0D) s)"

text \<open>\<open>strings.Compare\<close> and the comparison of numbers.\<close>

definition cmpOrd :: "'a :: linorder \<Rightarrow> 'a \<Rightarrow> int" where
  "cmpOrd a b = (if a < b then -1 else if a = b then 0 else 1)"

fun scalarOrder :: "json \<Rightarrow> string \<times> string" where
  "scalarOrder (JObj [(k, v)]) =
     (k, if k = ''B'' then (case b64Decode (asString v) of None \<Rightarrow> asString v | Some d \<Rightarrow> d) else asString v)"
| "scalarOrder _ = ('''', '''')"

fun asNumber :: "ddb_env \<Rightarrow> json \<Rightarrow> rat option" where
  "asNumber E (JObj [(k, JStr text)]) = (if k = ''N'' then ParseBig E text else None)"
| "asNumber E _ = None"

definition compareAttributeValues :: "ddb_env \<Rightarrow> json \<Rightarrow> json \<Rightarrow> int" where
  "compareAttributeValues E left right =
     (case (asNumber E left, asNumber E right) of
        (Some l, Some r) \<Rightarrow> cmpOrd l r
      | _ \<Rightarrow>
          (case (scalarOrder left, scalarOrder right) of ((lk, ls), (rk, rs)) \<Rightarrow>
             if cmpOrd lk rk \<noteq> 0 then cmpOrd lk rk else cmpOrd ls rs))"

definition compareScalars :: "ddb_env \<Rightarrow> json \<Rightarrow> json \<Rightarrow> int \<times> bool" where
  "compareScalars E left right =
     (case (scalarOrder left, scalarOrder right) of ((lk, ls), (rk, rs)) \<Rightarrow>
        if lk \<noteq> rk then (0, False)
        else if lk = ''N'' then (compareAttributeValues E left right, True)
        else if lk = ''S'' \<or> lk = ''B'' then (cmpOrd ls rs, True)
        else (0, False))"

definition compareSetMembers :: "ddb_env \<Rightarrow> string \<Rightarrow> string \<Rightarrow> string \<Rightarrow> int" where
  "compareSetMembers E kind a b =
     (if kind = ''NS'' then compareAttributeValues E (JObj [(''N'', JStr a)]) (JObj [(''N'', JStr b)])
      else cmpOrd a b)"

fun attributeKind :: "json \<Rightarrow> string" where
  "attributeKind (JObj [(kind, _)]) = kind"
| "attributeKind _ = ''''"

section \<open>Canonical attribute values\<close>

fun sinkMember :: "ddb_env \<Rightarrow> string \<Rightarrow> string \<Rightarrow> string list \<Rightarrow> string list" where
  "sinkMember E kind x [] = [x]"
| "sinkMember E kind x (y # ys) =
     (if compareSetMembers E kind y x < 0 then y # sinkMember E kind x ys else x # y # ys)"

definition sortMembers :: "ddb_env \<Rightarrow> string \<Rightarrow> string list \<Rightarrow> string list" where
  "sortMembers E kind xs = foldr (sinkMember E kind) xs []"

text \<open>The members of a set, in the order given: numbers made canonical, duplicates refused.\<close>

fun canonicalMembers :: "string \<Rightarrow> string list \<Rightarrow> json list \<Rightarrow> string list ddb_result" where
  "canonicalMembers kind seen [] = Inr []"
| "canonicalMembers kind seen (entry # list) =
     rbind (if kind = ''NS'' then canonicalNumber (asString entry) else Inr (asString entry)) (\<lambda>text.
     if text \<in> set seen
     then Inl (validationError ''One or more parameter values were invalid: Input collection contains duplicates'')
     else rbind (canonicalMembers kind (text # seen) list) (\<lambda>out. Inr (text # out)))"

definition canonicalSet :: "ddb_env \<Rightarrow> string \<Rightarrow> json list \<Rightarrow> json ddb_result" where
  "canonicalSet E kind list =
     (if list = []
      then Inl (validationError ''One or more parameter values were invalid: An string set  may not be empty'')
      else rbind (canonicalMembers kind [] list) (\<lambda>out. Inr (JObj [(kind, JArr (map JStr (sortMembers E kind out)))])))"

function (sequential) canonicalizeAttr :: "ddb_env \<Rightarrow> json \<Rightarrow> json ddb_result"
  and canonicalizeList :: "ddb_env \<Rightarrow> json list \<Rightarrow> json list ddb_result"
  and canonicalizeItem :: "ddb_env \<Rightarrow> json_object \<Rightarrow> json_object ddb_result" where
  "canonicalizeAttr E (JObj [(kind, raw)]) =
     (if kind = ''S'' \<or> kind = ''B'' \<or> kind = ''BOOL'' \<or> kind = ''NULL'' then Inr (JObj [(kind, raw)])
      else if kind = ''N'' then rbind (canonicalNumber (asString raw)) (\<lambda>n. Inr (JObj [(''N'', JStr n)]))
      else if kind = ''SS'' \<or> kind = ''NS'' \<or> kind = ''BS'' then canonicalSet E kind (asList raw)
      else if kind = ''L'' then rbind (canonicalizeList E (asList raw)) (\<lambda>out. Inr (JObj [(''L'', JArr out)]))
      else if kind = ''M'' then
        (case raw of
           JObj m \<Rightarrow> rbind (canonicalizeItem E m) (\<lambda>out. Inr (JObj [(''M'', JObj out)]))
         | _ \<Rightarrow> Inr (JObj [(''M'', JNull)]))
      else Inl (validationError (''Supplied AttributeValue has an unsupported datatype: '' @ kind)))"
| "canonicalizeAttr E v =
     Inl (validationError ''Supplied AttributeValue has more or less than one datatype set'')"
| "canonicalizeList E [] = Inr []"
| "canonicalizeList E (entry # list) = rbind (canonicalizeAttr E entry) (\<lambda>v.
     rbind (canonicalizeList E list) (\<lambda>out. Inr (v # out)))"
| "canonicalizeItem E [] = Inr []"
| "canonicalizeItem E ((name, value) # item) = rbind (canonicalizeAttr E value) (\<lambda>v.
     rbind (canonicalizeItem E item) (\<lambda>out. Inr ((name, v) # out)))"
  by pat_completeness auto
termination
proof (relation "measure (\<lambda>x. case x of
      Inl (E, v) \<Rightarrow> size v
    | Inr (Inl (E, l)) \<Rightarrow> Suc (size_list size l)
    | Inr (Inr (E, m)) \<Rightarrow> Suc (size_list (size_prod (\<lambda>_. 0) size) m))", goal_cases)
  case (2 E kind raw)
  then show ?case by (cases raw) auto
qed auto

definition attributeValueEqual :: "ddb_env \<Rightarrow> json \<Rightarrow> json \<Rightarrow> bool" where
  "attributeValueEqual E left right =
     (case (canonicalizeAttr E left, canonicalizeAttr E right) of
        (Inr l, Inr r) \<Rightarrow> Marshal E l = Marshal E r
      | _ \<Rightarrow> False)"

section \<open>Sizes\<close>

definition maxItemBytes :: int where "maxItemBytes = 400 * 1024"

fun attrSize :: "json \<Rightarrow> int" and attrsSize :: "json_object \<Rightarrow> int" and valueSize :: "string \<Rightarrow> json \<Rightarrow> int"
  and listSize :: "json list \<Rightarrow> int" and itemSize :: "json_object \<Rightarrow> int" where
  "attrSize (JObj attr) = attrsSize attr"
| "attrSize _ = 0"
| "attrsSize [] = 0"
| "attrsSize ((kind, raw) # attr) = valueSize kind raw + attrsSize attr"
| "valueSize kind (JStr s) =
     (if kind = ''S'' \<or> kind = ''N'' then int (length s)
      else if kind = ''B'' then int (length s) div 4 * 3
      else if kind = ''BOOL'' \<or> kind = ''NULL'' then 1
      else if kind = ''L'' \<or> kind = ''M'' then 3 else 0)"
| "valueSize kind (JArr list) =
     (if kind = ''BOOL'' \<or> kind = ''NULL'' then 1
      else if kind = ''SS'' \<or> kind = ''NS'' \<or> kind = ''BS'' then (\<Sum>entry \<leftarrow> list. int (length (asString entry)))
      else if kind = ''L'' then 3 + listSize list
      else if kind = ''M'' then 3 else 0)"
| "valueSize kind (JObj m) =
     (if kind = ''BOOL'' \<or> kind = ''NULL'' then 1
      else if kind = ''L'' then 3
      else if kind = ''M'' then 3 + itemSize m + int (length m) else 0)"
| "valueSize kind _ =
     (if kind = ''BOOL'' \<or> kind = ''NULL'' then 1 else if kind = ''L'' \<or> kind = ''M'' then 3 else 0)"
| "listSize [] = 0"
| "listSize (entry # list) = 1 + attrSize entry + listSize list"
| "itemSize [] = 0"
| "itemSize ((name, value) # item) = int (length name) + attrSize value + itemSize item"

end
