(* ===== verification/DDB_Expr.thy ===== *)
theory DDB_Expr
  imports DDB_Attr
begin

text \<open>
  The DynamoDB expression language (\<open>internal/dynamodb/expr.go\<close>): tokens, the parser, evaluation of
  conditions, document paths, projections and update expressions.

  The tokenizer is a partial function: \<open>None\<close> says that it does not return. The parser takes fuel,
  counted per call, and \<open>parseExpression\<close> starts it with enough for the tokens it is given. Case
  conversion is that of ASCII. Updates change an item in place in the code; the callers work on a copy
  they drop when there is an error, so here an update returns the new item or an error. Cloning a
  value is the identity.
\<close>

section \<open>Tokens\<close>

record token =
  tok_kind :: string
  tok_text :: string

definition isExprChar :: "char \<Rightarrow> bool" where
  "isExprChar ch \<longleftrightarrow> (let n = of_char ch :: nat in
     ch \<in> set ''#:_.[]-'' \<or> (97 \<le> n \<and> n \<le> 122) \<or> (65 \<le> n \<and> n \<le> 90) \<or> (48 \<le> n \<and> n \<le> 57))"

definition isBlank :: "char \<Rightarrow> bool" where
  "isBlank ch \<longleftrightarrow> ch = CHR '' '' \<or> ch = CHR 0x09 \<or> ch = CHR 0x0A \<or> ch = CHR 0x0D"

definition wordToken :: "string \<Rightarrow> token" where
  "wordToken word = (let upper = toUpper word in
     if upper = ''AND'' \<or> upper = ''OR'' \<or> upper = ''NOT'' \<or> upper = ''BETWEEN'' \<or> upper = ''IN''
     then \<lparr>tok_kind = upper, tok_text = upper\<rparr> else \<lparr>tok_kind = ''word'', tok_text = word\<rparr>)"

text \<open>The loop of \<open>tokenizeExpression\<close> on the rest of the expression. A character that starts no token
  makes an empty word and does not move the position.\<close>

partial_function (option) tokenizeExpression :: "string \<Rightarrow> token list option" where
  "tokenizeExpression expr = (case expr of
      [] \<Rightarrow> Some []
    | ch # rest \<Rightarrow>
        if isBlank ch then tokenizeExpression rest
        else if ch \<in> set ''(),'' then
          Option.bind (tokenizeExpression rest) (\<lambda>ts. Some (\<lparr>tok_kind = [ch], tok_text = [ch]\<rparr> # ts))
        else if take 2 expr = ''<='' \<or> take 2 expr = ''>='' \<or> take 2 expr = ''<>'' then
          Option.bind (tokenizeExpression (drop 2 expr)) (\<lambda>ts. Some (\<lparr>tok_kind = ''op'', tok_text = take 2 expr\<rparr> # ts))
        else if ch \<in> set ''=<>'' then
          Option.bind (tokenizeExpression rest) (\<lambda>ts. Some (\<lparr>tok_kind = ''op'', tok_text = [ch]\<rparr> # ts))
        else
          Option.bind (tokenizeExpression (dropWhile isExprChar expr))
            (\<lambda>ts. Some (wordToken (takeWhile isExprChar expr) # ts)))"

section \<open>The parser\<close>

datatype exprNode =
    OperandNode string bool
  | LogicalNode string exprNode exprNode
  | NotNode exprNode
  | CompareNode string exprNode exprNode
  | BetweenNode exprNode exprNode exprNode
  | InNode exprNode "exprNode list"
  | FunctionNode string "exprNode list"
  | SizeNode exprNode

fun peek :: "string \<Rightarrow> token list \<Rightarrow> bool" where
  "peek kind [] = False"
| "peek kind (tok # _) = (tok_kind tok = kind \<or> tok_text tok = kind)"

type_synonym 'a parsed = "('a \<times> token list) ddb_result option"

definition pbind :: "'a parsed \<Rightarrow> ('a \<Rightarrow> token list \<Rightarrow> 'b parsed) \<Rightarrow> 'b parsed" where
  "pbind p f = (case p of
      None \<Rightarrow> None
    | Some (Inl e) \<Rightarrow> Some (Inl e)
    | Some (Inr (v, ts)) \<Rightarrow> f v ts)"

definition perror :: "string \<Rightarrow> 'a parsed" where
  "perror msg = Some (Inl (validationError msg))"

text \<open>\<open>parseOperand\<close>, \<open>parseFunction\<close> and the loops over a list of operands in parentheses, which differ
  in their message only.\<close>

fun parseOperand :: "nat \<Rightarrow> token list \<Rightarrow> exprNode parsed"
  and parseFunction :: "nat \<Rightarrow> token list \<Rightarrow> exprNode list parsed"
  and parseOperands :: "nat \<Rightarrow> string \<Rightarrow> token list \<Rightarrow> exprNode list parsed" where
  "parseOperand 0 ts = None"
| "parseOperand (Suc n) ts = (case ts of
      [] \<Rightarrow> perror ''Unexpected end of expression''
    | tok # rest \<Rightarrow>
        if tok_kind tok \<noteq> ''word'' then perror (''Invalid expression token: '' @ tok_text tok)
        else if equalFold (tok_text tok) ''size'' \<and> peek ''('' rest then
          pbind (parseFunction n rest) (\<lambda>args rest'.
            case args of
              [arg] \<Rightarrow> Some (Inr (SizeNode arg, rest'))
            | _ \<Rightarrow> perror ''Invalid ConditionExpression: Incorrect number of operands for operator or function; operator or function: size'')
        else Some (Inr (OperandNode (tok_text tok) (hasPrefix (tok_text tok) '':''), rest)))"
| "parseFunction 0 ts = None"
| "parseFunction (Suc n) ts =
     (if \<not> peek ''('' ts then perror ''Invalid function call''
      else if peek '')'' (tl ts) then Some (Inr ([], tl (tl ts)))
      else parseOperands n ''Invalid function call'' (tl ts))"
| "parseOperands 0 msg ts = None"
| "parseOperands (Suc n) msg ts = pbind (parseOperand n ts) (\<lambda>arg rest.
     if peek '')'' rest then Some (Inr ([arg], tl rest))
     else if \<not> peek '','' rest then perror msg
     else pbind (parseOperands n msg (tl rest)) (\<lambda>args rest'. Some (Inr (arg # args, rest'))))"

text \<open>The part of \<open>parsePrimary\<close> after its first operand.\<close>

fun isOperand :: "exprNode \<Rightarrow> bool" where
  "isOperand (OperandNode _ _) = True"
| "isOperand _ = False"

fun operandRaw :: "exprNode \<Rightarrow> string" where
  "operandRaw (OperandNode raw _) = raw"
| "operandRaw _ = ''''"

definition parseTail :: "nat \<Rightarrow> exprNode \<Rightarrow> token list \<Rightarrow> exprNode parsed" where
  "parseTail n left ts =
     (if peek ''('' ts \<and> isOperand left then
        pbind (parseFunction n ts) (\<lambda>args rest. Some (Inr (FunctionNode (operandRaw left) args, rest)))
      else if peek ''BETWEEN'' ts then
        pbind (parseOperand n (tl ts)) (\<lambda>low rest.
          if \<not> peek ''AND'' rest then perror ''Invalid BETWEEN expression''
          else pbind (parseOperand n (tl rest)) (\<lambda>high rest'. Some (Inr (BetweenNode left low high, rest'))))
      else if peek ''IN'' ts then
        (if \<not> peek ''('' (tl ts) then perror ''Invalid IN expression''
         else pbind (parseOperands n ''Invalid IN expression'' (tl (tl ts))) (\<lambda>values rest. Some (Inr (InNode left values, rest))))
      else if peek ''op'' ts then
        pbind (parseOperand n (tl ts)) (\<lambda>right rest. Some (Inr (CompareNode (tok_text (hd ts)) left right, rest)))
      else Some (Inr (left, ts)))"

fun parseOr :: "nat \<Rightarrow> token list \<Rightarrow> exprNode parsed"
  and orLoop :: "nat \<Rightarrow> exprNode \<Rightarrow> token list \<Rightarrow> exprNode parsed"
  and parseAnd :: "nat \<Rightarrow> token list \<Rightarrow> exprNode parsed"
  and andLoop :: "nat \<Rightarrow> exprNode \<Rightarrow> token list \<Rightarrow> exprNode parsed"
  and parseNot :: "nat \<Rightarrow> token list \<Rightarrow> exprNode parsed"
  and parsePrimary :: "nat \<Rightarrow> token list \<Rightarrow> exprNode parsed" where
  "parseOr 0 ts = None"
| "parseOr (Suc n) ts = pbind (parseAnd n ts) (orLoop n)"
| "orLoop 0 left ts = None"
| "orLoop (Suc n) left ts =
     (if peek ''OR'' ts then pbind (parseAnd n (tl ts)) (\<lambda>right. orLoop n (LogicalNode ''OR'' left right))
      else Some (Inr (left, ts)))"
| "parseAnd 0 ts = None"
| "parseAnd (Suc n) ts = pbind (parseNot n ts) (andLoop n)"
| "andLoop 0 left ts = None"
| "andLoop (Suc n) left ts =
     (if peek ''AND'' ts then pbind (parseNot n (tl ts)) (\<lambda>right. andLoop n (LogicalNode ''AND'' left right))
      else Some (Inr (left, ts)))"
| "parseNot 0 ts = None"
| "parseNot (Suc n) ts =
     (if peek ''NOT'' ts then pbind (parsePrimary n (tl ts)) (\<lambda>child rest. Some (Inr (NotNode child, rest)))
      else parsePrimary n ts)"
| "parsePrimary 0 ts = None"
| "parsePrimary (Suc n) ts =
     (if peek ''('' ts then
        pbind (parseOr n (tl ts)) (\<lambda>node rest.
          if peek '')'' rest then Some (Inr (node, tl rest)) else perror ''Invalid expression'')
      else pbind (parseOperand n ts) (parseTail n))"

definition parseFuel :: "token list \<Rightarrow> nat" where
  "parseFuel ts = 6 * length ts + 6"

text \<open>\<open>parseExpression\<close> on all tokens; \<open>parse_total\<close> shows that the fuel is never used up.\<close>

definition parseExpression :: "token list \<Rightarrow> (exprNode \<times> token list) ddb_result" where
  "parseExpression ts = (case parseOr (parseFuel ts) ts of None \<Rightarrow> Inl GoPanic | Some r \<Rightarrow> r)"

section \<open>Document paths\<close>

record pathSegment =
  seg_name :: string
  seg_index :: int
  seg_isIndex :: bool

definition nameSeg :: "string \<Rightarrow> pathSegment" where
  "nameSeg name = \<lparr>seg_name = name, seg_index = 0, seg_isIndex = False\<rparr>"

definition indexSeg :: "int \<Rightarrow> pathSegment" where
  "indexSeg i = \<lparr>seg_name = '''', seg_index = i, seg_isIndex = True\<rparr>"

text \<open>The list indexes of one part of a path, taken out of it from the left.\<close>

lemma indexByte_length: "indexByte s c = Some i \<Longrightarrow> i < length s"
  by (induction s arbitrary: i) (auto split: if_splits)

function stripIndexes :: "string \<Rightarrow> (string \<times> int list) ddb_result" where
  "stripIndexes base = (case indexByte base CHR ''['' of
      None \<Rightarrow> Inr (base, [])
    | Some start \<Rightarrow> (case indexByte (drop start base) CHR '']'' of
        None \<Rightarrow> Inl (validationError ''Invalid list index in path'')
      | Some stop \<Rightarrow> (case atoi (take (stop - 1) (drop (start + 1) base)) of
          None \<Rightarrow> Inl (validationError ''Invalid list index in path'')
        | Some index \<Rightarrow>
            rbind (stripIndexes (take start base @ drop (start + stop + 1) base)) (\<lambda>(b, rest). Inr (b, index # rest)))))"
  by pat_completeness auto
termination
  by (relation "measure length") (auto dest!: indexByte_length)

declare stripIndexes.simps [simp del]

definition resolvePart :: "(string \<times> string) list \<Rightarrow> string \<Rightarrow> pathSegment list ddb_result" where
  "resolvePart names raw =
     (let part = trimSpace raw in
      if part = '''' then Inl (validationError ''Invalid path'')
      else rbind (stripIndexes part) (\<lambda>(base, suffixes).
        Inr (nameSeg (case map_of names base of None \<Rightarrow> base | Some replacement \<Rightarrow> replacement) # map indexSeg suffixes)))"

fun resolveParts :: "(string \<times> string) list \<Rightarrow> string list \<Rightarrow> pathSegment list ddb_result" where
  "resolveParts names [] = Inr []"
| "resolveParts names (part # parts) = rbind (resolvePart names part) (\<lambda>segs.
     rbind (resolveParts names parts) (\<lambda>rest. Inr (segs @ rest)))"

definition resolvePath :: "string \<Rightarrow> (string \<times> string) list \<Rightarrow> pathSegment list ddb_result" where
  "resolvePath raw names =
     (let s = trimSpace raw in
      if s = '''' then Inl (validationError ''Invalid path'') else resolveParts names (splitOn CHR ''.'' s))"

text \<open>The map and the list an attribute value holds, \<open>attr["M"]\<close> and \<open>attr["L"]\<close>.\<close>

fun nestedMap :: "json \<Rightarrow> json_object option" where
  "nestedMap (JObj attr) = (case map_of attr ''M'' of Some (JObj nested) \<Rightarrow> Some nested | _ \<Rightarrow> None)"
| "nestedMap _ = None"

fun nestedList :: "json \<Rightarrow> json list option" where
  "nestedList (JObj attr) = (case map_of attr ''L'' of Some (JArr list) \<Rightarrow> Some list | _ \<Rightarrow> None)"
| "nestedList _ = None"

text \<open>Storing back what was changed in place.\<close>

definition putNested :: "string \<Rightarrow> json \<Rightarrow> json \<Rightarrow> json" where
  "putNested kind v attr = JObj (AList.update kind v (asMap attr))"

definition inRange :: "int \<Rightarrow> 'a list \<Rightarrow> bool" where
  "inRange i list \<longleftrightarrow> 0 \<le> i \<and> i < int (length list)"

text \<open>Below the top level: segments after the first.\<close>

fun getNested :: "json \<Rightarrow> pathSegment list \<Rightarrow> json option" where
  "getNested current [] = Some current"
| "getNested current (seg # segs) =
     (if \<not> seg_isIndex seg then
        (case nestedMap current of
           None \<Rightarrow> None
         | Some nested \<Rightarrow> Option.bind (map_of nested (seg_name seg)) (\<lambda>v. getNested v segs))
      else (case nestedList current of
           None \<Rightarrow> None
         | Some list \<Rightarrow> if inRange (seg_index seg) list then getNested (list ! nat (seg_index seg)) segs else None))"

definition getPathValue :: "json_object \<Rightarrow> pathSegment list \<Rightarrow> json option" where
  "getPathValue item path = (case path of
      [] \<Rightarrow> None
    | seg # segs \<Rightarrow>
        if \<not> seg_isIndex seg then Option.bind (map_of item (seg_name seg)) (\<lambda>v. getNested v segs)
        else getNested (JObj item) path)"

definition badPath :: "'a ddb_result" where
  "badPath = Inl (validationError ''Invalid document path'')"

text \<open>The child a missing name is given on the way down.\<close>

definition childOrNew :: "json option \<Rightarrow> pathSegment \<Rightarrow> json ddb_result" where
  "childOrNew child nxt =
     (if child = None \<or> child = Some JNull then
        (if seg_isIndex nxt then Inl (validationError ''Cannot create list path automatically'')
         else Inr (JObj [(''M'', JObj [])]))
      else Inr (the child))"

fun assignNested :: "json \<Rightarrow> pathSegment list \<Rightarrow> json \<Rightarrow> json ddb_result" where
  "assignNested current [] value = badPath"
| "assignNested current [seg] value =
     (if seg_isIndex seg then
        (case nestedList current of
           None \<Rightarrow> badPath
         | Some list \<Rightarrow>
             if inRange (seg_index seg) list
             then Inr (putNested ''L'' (JArr (list[nat (seg_index seg) := value])) current) else badPath)
      else (case nestedMap current of
           Some nested \<Rightarrow> Inr (putNested ''M'' (JObj (AList.update (seg_name seg) value nested)) current)
         | None \<Rightarrow> (case current of
               JObj attr \<Rightarrow> Inr (JObj (AList.update (seg_name seg) value attr))
             | _ \<Rightarrow> badPath)))"
| "assignNested current (seg # nxt # segs) value =
     (if \<not> seg_isIndex seg then
        (case nestedMap current of
           None \<Rightarrow> badPath
         | Some nested \<Rightarrow> rbind (childOrNew (map_of nested (seg_name seg)) nxt) (\<lambda>child.
             rbind (assignNested child (nxt # segs) value) (\<lambda>child'.
               Inr (putNested ''M'' (JObj (AList.update (seg_name seg) child' nested)) current))))
      else (case nestedList current of
           None \<Rightarrow> badPath
         | Some list \<Rightarrow>
             if inRange (seg_index seg) list then
               rbind (assignNested (list ! nat (seg_index seg)) (nxt # segs) value) (\<lambda>child'.
                 Inr (putNested ''L'' (JArr (list[nat (seg_index seg) := child'])) current))
             else badPath))"

definition assignPathValue :: "json_object \<Rightarrow> pathSegment list \<Rightarrow> json \<Rightarrow> json_object ddb_result" where
  "assignPathValue item path value = (case path of
      [] \<Rightarrow> Inl (validationError ''Invalid path'')
    | [seg] \<Rightarrow>
        if \<not> seg_isIndex seg then Inr (AList.update (seg_name seg) value item)
        else rbind (assignNested (JObj item) path value) (\<lambda>v. Inr (asMap v))
    | seg # nxt # segs \<Rightarrow>
        if \<not> seg_isIndex seg then
          rbind (childOrNew (map_of item (seg_name seg)) nxt) (\<lambda>child.
          rbind (assignNested child (nxt # segs) value) (\<lambda>child'.
            Inr (AList.update (seg_name seg) child' item)))
        else rbind (assignNested (JObj item) path value) (\<lambda>v. Inr (asMap v)))"

fun removeNested :: "json \<Rightarrow> pathSegment list \<Rightarrow> json" where
  "removeNested current [] = current"
| "removeNested current [seg] =
     (if seg_isIndex seg then
        (case nestedList current of
           None \<Rightarrow> current
         | Some list \<Rightarrow>
             if inRange (seg_index seg) list
             then putNested ''L'' (JArr (take (nat (seg_index seg)) list @ drop (Suc (nat (seg_index seg))) list)) current
             else current)
      else (case nestedMap current of
           Some nested \<Rightarrow> putNested ''M'' (JObj (AList.delete (seg_name seg) nested)) current
         | None \<Rightarrow> (case current of JObj attr \<Rightarrow> JObj (AList.delete (seg_name seg) attr) | _ \<Rightarrow> current)))"
| "removeNested current (seg # nxt # segs) =
     (if \<not> seg_isIndex seg then
        (case nestedMap current of
           None \<Rightarrow> current
         | Some nested \<Rightarrow> (case map_of nested (seg_name seg) of
               None \<Rightarrow> current
             | Some child \<Rightarrow>
                 putNested ''M'' (JObj (AList.update (seg_name seg) (removeNested child (nxt # segs)) nested)) current))
      else (case nestedList current of
           None \<Rightarrow> current
         | Some list \<Rightarrow>
             if inRange (seg_index seg) list
             then putNested ''L'' (JArr (list[nat (seg_index seg) := removeNested (list ! nat (seg_index seg)) (nxt # segs)])) current
             else current))"

definition removePathValue :: "json_object \<Rightarrow> pathSegment list \<Rightarrow> json_object" where
  "removePathValue item path = (case path of
      [] \<Rightarrow> item
    | [seg] \<Rightarrow> if \<not> seg_isIndex seg then AList.delete (seg_name seg) item else asMap (removeNested (JObj item) path)
    | seg # nxt # segs \<Rightarrow>
        if \<not> seg_isIndex seg then
          (case map_of item (seg_name seg) of
             None \<Rightarrow> item
           | Some child \<Rightarrow> AList.update (seg_name seg) (removeNested child (nxt # segs)) item)
        else asMap (removeNested (JObj item) path))"

section \<open>Conditions\<close>

text \<open>The result of \<open>eval\<close>: a value, and whether it exists. A truth value is a \<open>JBool\<close>.\<close>

type_synonym evaluated = "(json \<times> bool) ddb_result"

definition truth :: "bool \<Rightarrow> evaluated" where
  "truth b = Inr (JBool b, True)"

definition asBool :: "json \<Rightarrow> bool" where
  "asBool v \<longleftrightarrow> v = JBool True"

text \<open>\<open>if err != nil || !ok { return false, true, err }\<close>.\<close>

definition whenPresent :: "evaluated \<Rightarrow> (json \<Rightarrow> evaluated) \<Rightarrow> evaluated" where
  "whenPresent r f = rbind r (\<lambda>(v, ok). if ok then f v else truth False)"

definition evalOperand :: "json_object \<Rightarrow> (string \<times> string) list \<Rightarrow> json_object \<Rightarrow> string \<Rightarrow> bool \<Rightarrow> evaluated" where
  "evalOperand item names values raw isValue =
     (if isValue then
        (case map_of values raw of
           None \<Rightarrow> Inl (validationError (''Missing expression value: '' @ raw))
         | Some v \<Rightarrow> Inr (v, True))
      else rbind (resolvePath raw names) (\<lambda>path.
        case getPathValue item path of None \<Rightarrow> Inr (JNull, False) | Some v \<Rightarrow> Inr (v, True)))"

definition compareValues :: "ddb_env \<Rightarrow> string \<Rightarrow> json \<times> bool \<Rightarrow> json \<times> bool \<Rightarrow> evaluated" where
  "compareValues E op left right = (case (left, right) of ((l, lok), (r, rok)) \<Rightarrow>
     if \<not> lok \<or> \<not> rok then truth (op = ''<>'' \<and> lok \<noteq> rok)
     else if op = ''='' then truth (attributeValueEqual E l r)
     else if op = ''<>'' then truth (\<not> attributeValueEqual E l r)
     else (case compareScalars E l r of (cmp, ok) \<Rightarrow>
        if \<not> ok then truth False
        else if op = ''<'' then truth (cmp < 0)
        else if op = ''<='' then truth (cmp \<le> 0)
        else if op = ''>'' then truth (cmp > 0)
        else if op = ''>='' then truth (cmp \<ge> 0)
        else Inl (validationError (''Unsupported comparator: '' @ op))))"

definition betweenValues :: "ddb_env \<Rightarrow> json \<Rightarrow> json \<Rightarrow> json \<Rightarrow> evaluated" where
  "betweenValues E target low high =
     (case (compareScalars E target low, compareScalars E target high) of ((lowCmp, lowOK), (highCmp, highOK)) \<Rightarrow>
        truth (lowOK \<and> highOK \<and> lowCmp \<ge> 0 \<and> highCmp \<le> 0))"

text \<open>The members of \<open>attr\<close> are visited in the order of the list; an attribute value has one.\<close>

fun containsIn :: "ddb_env \<Rightarrow> json \<Rightarrow> json \<Rightarrow> json_object \<Rightarrow> bool" where
  "containsIn E container operand [] = False"
| "containsIn E container operand ((kind, raw) # attr) =
     (if kind = ''S'' \<or> kind = ''B'' then
        (case (scalarOrder container, scalarOrder operand) of ((k1, cs), (k2, os)) \<Rightarrow> k1 = k2 \<and> containsStr cs os)
      else if (kind = ''SS'' \<or> kind = ''NS'' \<or> kind = ''BS'') \<and>
              list_ex (\<lambda>entry. attributeValueEqual E (JObj [(take 1 kind, entry)]) operand) (asList raw) then True
      else if kind = ''L'' \<and> list_ex (\<lambda>entry. attributeValueEqual E entry operand) (asList raw) then True
      else containsIn E container operand attr)"

definition containsValue :: "ddb_env \<Rightarrow> json \<Rightarrow> json \<Rightarrow> bool" where
  "containsValue E container operand = containsIn E container operand (asMap container)"

text \<open>The size of a value, with -1 for none; \<open>raw.(string)\<close> panics on anything else.\<close>

fun sizeOf :: "json \<Rightarrow> int \<Rightarrow> json_object \<Rightarrow> int ddb_result" where
  "sizeOf value sz [] = Inr sz"
| "sizeOf value sz ((kind, raw) # attr) =
     (if kind = ''S'' then (case raw of JStr s \<Rightarrow> sizeOf value (int (length s)) attr | _ \<Rightarrow> Inl GoPanic)
      else if kind = ''B'' then sizeOf value (int (length (snd (scalarOrder value)))) attr
      else if kind = ''SS'' \<or> kind = ''NS'' \<or> kind = ''BS'' \<or> kind = ''L'' then sizeOf value (int (length (asList raw))) attr
      else if kind = ''M'' then sizeOf value (int (length (asMap raw))) attr
      else sizeOf value sz attr)"

definition beginsWith :: "json \<Rightarrow> json \<Rightarrow> bool" where
  "beginsWith left right \<longleftrightarrow> (case (scalarOrder left, scalarOrder right) of ((lk, ls), (rk, rs)) \<Rightarrow>
     lk = rk \<and> (lk = ''S'' \<or> lk = ''B'') \<and> hasPrefix ls rs)"

text \<open>The second argument of \<open>attribute_type\<close>: \<open>want.(map[string]any)\<close> panics on a missing value.\<close>

fun wantedType :: "json \<Rightarrow> string ddb_result" where
  "wantedType (JObj m) = (case map_of m ''S'' of
      Some (JStr kind) \<Rightarrow> Inr kind
    | _ \<Rightarrow> Inl (validationError ''Invalid ConditionExpression: Incorrect operand type for operator or function; operator or function: attribute_type''))"
| "wantedType _ = Inl GoPanic"

fun evalNode :: "ddb_env \<Rightarrow> json_object \<Rightarrow> (string \<times> string) list \<Rightarrow> json_object \<Rightarrow> exprNode \<Rightarrow> evaluated"
  and evalIn :: "ddb_env \<Rightarrow> json_object \<Rightarrow> (string \<times> string) list \<Rightarrow> json_object \<Rightarrow> json \<Rightarrow> exprNode list \<Rightarrow> evaluated" where
  "evalNode E item names values (OperandNode raw isValue) = evalOperand item names values raw isValue"
| "evalNode E item names values (LogicalNode op left right) =
     rbind (evalNode E item names values left) (\<lambda>(l, _).
       if op = ''AND'' \<and> \<not> asBool l then truth False
       else if op = ''OR'' \<and> asBool l then truth True
       else rbind (evalNode E item names values right) (\<lambda>(r, _).
         if op = ''AND'' then truth (asBool l \<and> asBool r) else truth (asBool l \<or> asBool r)))"
| "evalNode E item names values (NotNode child) =
     rbind (evalNode E item names values child) (\<lambda>(v, _). truth (\<not> asBool v))"
| "evalNode E item names values (CompareNode op left right) =
     rbind (evalNode E item names values left) (\<lambda>l. rbind (evalNode E item names values right) (\<lambda>r. compareValues E op l r))"
| "evalNode E item names values (BetweenNode target low high) =
     whenPresent (evalNode E item names values target) (\<lambda>t.
     whenPresent (evalNode E item names values low) (\<lambda>l.
     whenPresent (evalNode E item names values high) (\<lambda>h. betweenValues E t l h)))"
| "evalNode E item names values (InNode target candidates) =
     whenPresent (evalNode E item names values target) (\<lambda>t. evalIn E item names values t candidates)"
| "evalNode E item names values (SizeNode arg) =
     rbind (evalNode E item names values arg) (\<lambda>(v, ok).
       if \<not> ok then Inr (JNull, False)
       else rbind (sizeOf v (-1) (asMap v)) (\<lambda>size.
         if size < 0 then Inr (JNull, False) else Inr (JObj [(''N'', JStr (itoa size))], True)))"
| "evalNode E item names values (FunctionNode name args) =
     (if toLower name = ''attribute_exists'' then
        (case args of
           [a] \<Rightarrow> rbind (evalNode E item names values a) (\<lambda>(_, ok). truth ok)
         | _ \<Rightarrow> Inl (validationError ''attribute_exists expects one argument''))
      else if toLower name = ''attribute_not_exists'' then
        (case args of
           [a] \<Rightarrow> rbind (evalNode E item names values a) (\<lambda>(_, ok). truth (\<not> ok))
         | _ \<Rightarrow> Inl (validationError ''attribute_not_exists expects one argument''))
      else if toLower name = ''begins_with'' then
        (case args of
           [a, b] \<Rightarrow> whenPresent (evalNode E item names values a) (\<lambda>l.
             whenPresent (evalNode E item names values b) (\<lambda>r. truth (beginsWith l r)))
         | _ \<Rightarrow> Inl (validationError ''begins_with expects two arguments''))
      else if toLower name = ''contains'' then
        (case args of
           [a, b] \<Rightarrow> whenPresent (evalNode E item names values a) (\<lambda>l.
             whenPresent (evalNode E item names values b) (\<lambda>r. truth (containsValue E l r)))
         | _ \<Rightarrow> Inl (validationError ''contains expects two arguments''))
      else if toLower name = ''attribute_type'' then
        (case args of
           [a, b] \<Rightarrow> whenPresent (evalNode E item names values a) (\<lambda>l.
             rbind (evalNode E item names values b) (\<lambda>(want, _).
             rbind (wantedType want) (\<lambda>kind. truth (attributeKind l = kind))))
         | _ \<Rightarrow> Inl (validationError ''attribute_type expects two arguments''))
      else Inl (validationError (''Unsupported function: '' @ name)))"
| "evalIn E item names values target [] = truth False"
| "evalIn E item names values target (node # nodes) =
     rbind (evalNode E item names values node) (\<lambda>(candidate, ok).
       if ok \<and> attributeValueEqual E target candidate then truth True
       else evalIn E item names values target nodes)"

text \<open>\<open>None\<close>: the tokenizer does not return. What follows the first expression is ignored, as in the code.\<close>

definition evaluateConditionExpression ::
    "ddb_env \<Rightarrow> string \<Rightarrow> json_object \<Rightarrow> (string \<times> string) list \<Rightarrow> json_object \<Rightarrow> bool ddb_result option" where
  "evaluateConditionExpression E expr item names values =
     (if trimSpace expr = '''' then Some (Inr True)
      else map_option (\<lambda>tokens.
        rbind (parseExpression tokens) (\<lambda>(node, _).
        rbind (evalNode E item names values node) (\<lambda>(v, _). Inr (asBool v)))) (tokenizeExpression expr))"

section \<open>Splitting\<close>

text \<open>The loop of \<open>splitTopLevel\<close> with the text collected so far.\<close>

fun splitTop :: "char \<Rightarrow> nat \<Rightarrow> string \<Rightarrow> string \<Rightarrow> string list" where
  "splitTop sep depth current [] = (if current = [] then [] else [trimSpace current])"
| "splitTop sep depth current (ch # rest) =
     (let d = (if ch = CHR ''('' then depth + 1 else if ch = CHR '')'' then depth - 1 else depth) in
      if ch = sep \<and> d = 0 then trimSpace current # splitTop sep d [] rest
      else splitTop sep d (current @ [ch]) rest)"

definition splitTopLevel :: "string \<Rightarrow> char \<Rightarrow> string list" where
  "splitTopLevel input sep = splitTop sep 0 [] input"

fun operatorIndex :: "nat \<Rightarrow> nat \<Rightarrow> string \<Rightarrow> string \<Rightarrow> nat option" where
  "operatorIndex depth i [] op = None"
| "operatorIndex depth i (ch # rest) op =
     (let d = (if ch = CHR ''('' then depth + 1 else if ch = CHR '')'' then depth - 1 else depth) in
      if d = 0 \<and> hasPrefix (ch # rest) op then Some i else operatorIndex d (Suc i) rest op)"

definition topLevelOperatorIndex :: "string \<Rightarrow> string \<Rightarrow> nat option" where
  "topLevelOperatorIndex expr op = operatorIndex 0 0 expr op"

text \<open>The same scan on the upper-case text; it ends where the keyword no longer fits, and a prefix of
  the rest fits.\<close>

definition indexClauseKeyword :: "string \<Rightarrow> string \<Rightarrow> nat option" where
  "indexClauseKeyword body keyword = operatorIndex 0 0 (toUpper body) keyword"

definition callArgs :: "string \<Rightarrow> string \<Rightarrow> string list option" where
  "callArgs expr name =
     (if length expr \<le> length name \<or> \<not> equalFold (take (length name) expr) name then None
      else
        let rest = trimSpace (drop (length name) expr) in
        if \<not> hasPrefix rest ''('' \<or> \<not> hasSuffix rest '')'' then None
        else if list_ex (\<lambda>i. rest ! i = CHR '')'' \<and> i \<noteq> length rest - 1 \<and>
               length (filter (\<lambda>c. c = CHR ''('') (take (Suc i) rest)) = length (filter (\<lambda>c. c = CHR '')'') (take (Suc i) rest)))
               [0..<length rest] then None
        else Some (splitTopLevel (take (length rest - 2) (drop 1 rest)) CHR '',''))"

section \<open>Update expressions\<close>

definition trimRightChar :: "char \<Rightarrow> string \<Rightarrow> string" where
  "trimRightChar c s = rev (dropWhile (\<lambda>x. x = c) (rev s))"

definition arithmeticAttribute :: "ddb_env \<Rightarrow> json \<Rightarrow> json \<Rightarrow> string \<Rightarrow> json ddb_result" where
  "arithmeticAttribute E left right op =
     (case (asNumber E left, asNumber E right) of
        (Some l, Some r) \<Rightarrow>
          let v = (if op = ''+'' then AddBig E l r else SubBig E l r);
              text = trimRightChar CHR ''.'' (trimRightChar CHR ''0'' (TextBig E v)) in
          Inr (JObj [(''N'', JStr (if text = '''' \<or> text = ''-'' then ''0'' else text))])
      | _ \<Rightarrow> Inl (validationError ''Arithmetic updates require numeric attribute values''))"

fun setValues :: "json \<Rightarrow> (json list \<times> string) ddb_result" where
  "setValues (JObj [(key, raw)]) =
     (if key = ''SS'' \<or> key = ''NS'' \<or> key = ''BS'' then
        (case raw of JArr list \<Rightarrow> Inr (list, key) | _ \<Rightarrow> Inl (validationError ''Set attribute is invalid''))
      else Inl (validationError ''Operation requires a set attribute''))"
| "setValues _ = Inl (validationError ''Operation requires a set attribute'')"

text \<open>\<open>fmt.Sprint\<close> of a set member: a string is itself.\<close>

fun sprintMember :: "ddb_env \<Rightarrow> json \<Rightarrow> string" where
  "sprintMember E (JStr s) = s"
| "sprintMember E v = SprintAny E v"

definition addAttribute :: "ddb_env \<Rightarrow> json \<Rightarrow> json \<Rightarrow> json ddb_result" where
  "addAttribute E existing incoming =
     (if existing = JNull then Inr incoming
      else if asNumber E existing \<noteq> None then arithmeticAttribute E existing incoming ''+''
      else rbind (setValues existing) (\<lambda>(existingSet, existingType).
           rbind (setValues incoming) (\<lambda>(incomingSet, incomingType).
             if existingType \<noteq> incomingType then Inl (validationError ''ADD on sets requires matching types'')
             else
               let seen = fold (\<lambda>entry m. AList.update (sprintMember E entry) entry m) (existingSet @ incomingSet) [];
                   keys = sort (map fst seen) in
               Inr (JObj [(existingType, JArr (map (\<lambda>key. the (map_of seen key)) keys))]))))"

text \<open>\<open>None\<close>: nothing is left of the set.\<close>

definition deleteFromSet :: "ddb_env \<Rightarrow> json \<Rightarrow> json \<Rightarrow> json option ddb_result" where
  "deleteFromSet E existing incoming =
     rbind (setValues existing) (\<lambda>(existingSet, existingType).
     rbind (setValues incoming) (\<lambda>(incomingSet, incomingType).
       if existingType \<noteq> incomingType then Inl (validationError ''DELETE on sets requires matching types'')
       else
         let remove = map (sprintMember E) incomingSet;
             out = filter (\<lambda>entry. sprintMember E entry \<notin> set remove) existingSet in
         Inr (if out = [] then None else Some (JObj [(existingType, JArr out)]))))"

text \<open>An operand of \<open>list_append\<close>: \<open>value.(map[string]any)\<close> panics on anything that is not a map.\<close>

fun listOperand :: "json \<Rightarrow> json list ddb_result" where
  "listOperand (JObj attr) = (case map_of attr ''L'' of
      Some (JArr list) \<Rightarrow> Inr list
    | _ \<Rightarrow> Inl (validationError (''Invalid UpdateExpression: Incorrect operand type for operator or function; operator or function: list_append, operand type: ''
               @ attributeKind (JObj attr))))"
| "listOperand _ = Inl GoPanic"

lemma trimSpace_length_le: "length (trimSpace s) \<le> length s"
  unfolding trimSpace_def by (metis dual_order.trans length_dropWhile_le length_rev)

lemma splitTop_length: "part \<in> set (splitTop sep depth current input) \<Longrightarrow> length part \<le> length current + length input"
proof (induction sep depth current input rule: splitTop.induct)
  case (1 sep depth current)
  then show ?case using trimSpace_length_le by (auto split: if_splits)
next
  case (2 sep depth current ch rest)
  then show ?case using trimSpace_length_le [of current] by (fastforce simp: Let_def split: if_splits)
qed

lemma operatorIndex_bounds: "operatorIndex depth i expr op = Some j \<Longrightarrow> i \<le> j \<and> j < i + length expr"
  by (induction depth i expr op rule: operatorIndex.induct) (fastforce simp: Let_def split: if_splits)+

lemma callArgs_shorter:
  assumes "callArgs expr name = Some args" and "arg \<in> set args" and "name \<noteq> []"
  shows "length arg < length expr"
proof -
  let ?rest = "trimSpace (drop (length name) expr)"
  from assms(1) have "length name < length expr" and args: "args = splitTopLevel (take (length ?rest - 2) (drop 1 ?rest)) CHR '',''"
    by (auto simp: callArgs_def Let_def split: if_splits)
  moreover have "length ?rest \<le> length expr - length name" using trimSpace_length_le [of "drop (length name) expr"] by simp
  moreover have "length arg \<le> length ?rest - 2"
    using splitTop_length assms(2) unfolding args splitTopLevel_def by fastforce
  ultimately show ?thesis using assms(3) by (cases name) auto
qed

text \<open>The first top-level operator of an update value: a plus before a minus, not at the start.\<close>

definition splitOperator :: "string \<Rightarrow> (nat \<times> string) option" where
  "splitOperator expr = (case topLevelOperatorIndex expr ''+'' of
      Some (Suc i) \<Rightarrow> Some (Suc i, ''+'')
    | _ \<Rightarrow> (case topLevelOperatorIndex expr ''-'' of Some (Suc i) \<Rightarrow> Some (Suc i, ''-'') | _ \<Rightarrow> None))"

lemma splitOperator_bounds: "splitOperator expr = Some (i, op) \<Longrightarrow> 0 < i \<and> i < length expr"
  by (auto simp: splitOperator_def topLevelOperatorIndex_def dest!: operatorIndex_bounds split: option.splits nat.splits)

lemma splitOperator_trim:
  "splitOperator (trimSpace expr) = Some (i, op) \<Longrightarrow>
     min (length (trimSpace expr)) i < length expr \<and> length (trimSpace expr) - Suc i < length expr"
  using splitOperator_bounds [of "trimSpace expr" i op] trimSpace_length_le [of expr] by auto

lemma callArgs_trim:
  assumes "callArgs (trimSpace expr) name = Some [a, b]"
  shows "name = [] \<or> length a < length expr \<and> length b < length expr"
  using callArgs_shorter [OF assms, of a] callArgs_shorter [OF assms, of b] trimSpace_length_le [of expr] by fastforce

function evalUpdateValue ::
    "ddb_env \<Rightarrow> string \<Rightarrow> json_object \<Rightarrow> (string \<times> string) list \<Rightarrow> json_object \<Rightarrow> json ddb_result" where
  "evalUpdateValue E expr item names values =
     (let e = trimSpace expr in
      case splitOperator e of
        Some (i, op) \<Rightarrow>
          rbind (evalUpdateValue E (take i e) item names values) (\<lambda>left.
          rbind (evalUpdateValue E (drop (Suc i) e) item names values) (\<lambda>right.
            arithmeticAttribute E left right op))
      | None \<Rightarrow> (case callArgs e ''if_not_exists'' of
          Some args \<Rightarrow> (case args of
              [a, b] \<Rightarrow> rbind (resolvePath a names) (\<lambda>path.
                (case getPathValue item path of
                   Some v \<Rightarrow> Inr v
                 | None \<Rightarrow> evalUpdateValue E b item names values))
            | _ \<Rightarrow> Inl (validationError ''Invalid UpdateExpression: Incorrect number of operands for operator or function; operator or function: if_not_exists''))
        | None \<Rightarrow> (case callArgs e ''list_append'' of
            Some args \<Rightarrow> (case args of
                [a, b] \<Rightarrow>
                  rbind (evalUpdateValue E a item names values) (\<lambda>v. rbind (listOperand v) (\<lambda>xs.
                  rbind (evalUpdateValue E b item names values) (\<lambda>w. rbind (listOperand w) (\<lambda>ys.
                    Inr (JObj [(''L'', JArr (xs @ ys))])))))
              | _ \<Rightarrow> Inl (validationError ''Invalid UpdateExpression: Incorrect number of operands for operator or function; operator or function: list_append''))
          | None \<Rightarrow>
              if hasPrefix e '':'' then
                (case map_of values e of
                   None \<Rightarrow> Inl (validationError (''Invalid UpdateExpression: An expression attribute value used in expression is not defined; attribute value: '' @ e))
                 | Some v \<Rightarrow> Inr v)
              else rbind (resolvePath e names) (\<lambda>path.
                (case getPathValue item path of
                   None \<Rightarrow> Inl (validationError ''The provided expression refers to an attribute that does not exist in the item'')
                 | Some v \<Rightarrow> Inr v)))))"
  by pat_completeness auto
termination
  by (relation "measure (\<lambda>(E, expr, item, names, values). length expr)")
    (auto dest: splitOperator_trim callArgs_trim)

declare evalUpdateValue.simps [simp del]

text \<open>\<open>strings.Cut(part, "=")\<close> and \<open>strings.Fields\<close>.\<close>

definition cutEquals :: "string \<Rightarrow> (string \<times> string) option" where
  "cutEquals part = (case indexByte part CHR ''='' of None \<Rightarrow> None | Some i \<Rightarrow> Some (take i part, drop (Suc i) part))"

fun fieldsFrom :: "string \<Rightarrow> string \<Rightarrow> string list" where
  "fieldsFrom word [] = (if word = [] then [] else [word])"
| "fieldsFrom word (c # cs) =
     (if isSpace c then (if word = [] then fieldsFrom [] cs else word # fieldsFrom [] cs)
      else fieldsFrom (word @ [c]) cs)"

definition strFields :: "string \<Rightarrow> string list" where "strFields = fieldsFrom []"

text \<open>The clauses, one function per part and a loop over the parts.\<close>

definition setPart ::
    "ddb_env \<Rightarrow> (string \<times> string) list \<Rightarrow> json_object \<Rightarrow> string \<Rightarrow> json_object \<Rightarrow> json_object ddb_result" where
  "setPart E names values part item = (case cutEquals part of
      None \<Rightarrow> Inl (validationError ''Invalid SET assignment'')
    | Some (lhs, rhs) \<Rightarrow>
        rbind (resolvePath (trimSpace lhs) names) (\<lambda>path.
        rbind (evalUpdateValue E (trimSpace rhs) item names values) (\<lambda>value.
          assignPathValue item path value)))"

definition removePart :: "(string \<times> string) list \<Rightarrow> string \<Rightarrow> json_object \<Rightarrow> json_object ddb_result" where
  "removePart names part item = rbind (resolvePath (trimSpace part) names) (\<lambda>path. Inr (removePathValue item path))"

definition addPart ::
    "ddb_env \<Rightarrow> (string \<times> string) list \<Rightarrow> json_object \<Rightarrow> string \<Rightarrow> json_object \<Rightarrow> json_object ddb_result" where
  "addPart E names values part item = (case strFields part of
      [target, operand] \<Rightarrow>
        rbind (resolvePath target names) (\<lambda>path.
          (case map_of values operand of
             None \<Rightarrow> Inl (validationError (''Missing expression value: '' @ operand))
           | Some value \<Rightarrow>
               rbind (addAttribute E (case getPathValue item path of None \<Rightarrow> JNull | Some v \<Rightarrow> v) value) (\<lambda>updated.
                 assignPathValue item path updated)))
    | _ \<Rightarrow> Inl (validationError ''Invalid ADD expression''))"

definition deletePart ::
    "ddb_env \<Rightarrow> (string \<times> string) list \<Rightarrow> json_object \<Rightarrow> string \<Rightarrow> json_object \<Rightarrow> json_object ddb_result" where
  "deletePart E names values part item = (case strFields part of
      [target, operand] \<Rightarrow>
        rbind (resolvePath target names) (\<lambda>path.
          (case map_of values operand of
             None \<Rightarrow> Inl (validationError (''Missing expression value: '' @ operand))
           | Some value \<Rightarrow>
               rbind (deleteFromSet E (case getPathValue item path of None \<Rightarrow> JNull | Some v \<Rightarrow> v) value) (\<lambda>updated.
                 case updated of
                   None \<Rightarrow> Inr (removePathValue item path)
                 | Some v \<Rightarrow> assignPathValue item path v)))
    | _ \<Rightarrow> Inl (validationError ''Invalid DELETE expression''))"

fun applyParts :: "(string \<Rightarrow> json_object \<Rightarrow> json_object ddb_result) \<Rightarrow> string list \<Rightarrow> json_object \<Rightarrow> json_object ddb_result" where
  "applyParts f [] item = Inr item"
| "applyParts f (part # parts) item = rbind (f part item) (applyParts f parts)"

definition applyClause ::
    "ddb_env \<Rightarrow> (string \<times> string) list \<Rightarrow> json_object \<Rightarrow> string \<Rightarrow> string \<Rightarrow> json_object \<Rightarrow> json_object ddb_result" where
  "applyClause E names values keyword body item =
     (let parts = splitTopLevel body CHR '','' in
      if keyword = ''SET'' then applyParts (setPart E names values) parts item
      else if keyword = ''REMOVE'' then applyParts (removePart names) parts item
      else if keyword = ''ADD'' then applyParts (addPart E names values) parts item
      else if keyword = ''DELETE'' then applyParts (deletePart E names values) parts item
      else Inl (validationError (''Unsupported update clause: '' @ keyword)))"

definition clauseEnd :: "string \<Rightarrow> nat" where
  "clauseEnd body = fold (\<lambda>keyword end.
     case indexClauseKeyword body keyword of Some i \<Rightarrow> if i < end then i else end | None \<Rightarrow> end)
     ['' SET '', '' REMOVE '', '' ADD '', '' DELETE ''] (length body)"

definition nextUpdateClause :: "string \<Rightarrow> (string \<times> string \<times> string) ddb_result" where
  "nextUpdateClause raw =
     (let expr = trimSpace raw in
      case find (\<lambda>keyword. hasPrefix (toUpper expr) keyword) [''SET'', ''REMOVE'', ''ADD'', ''DELETE''] of
        None \<Rightarrow> Inl (validationError ''Invalid UpdateExpression'')
      | Some keyword \<Rightarrow>
          let body = trimSpace (drop (length keyword) expr); n = clauseEnd body in
          Inr (keyword, trimSpace (take n body), trimSpace (drop n body)))"

lemma nextUpdateClause_shorter:
  assumes "nextUpdateClause raw = Inr (keyword, body, rest)"
  shows "length rest < length raw"
proof -
  let ?expr = "trimSpace raw"
  from assms have k: "keyword \<in> set [''SET'', ''REMOVE'', ''ADD'', ''DELETE'']" "hasPrefix (toUpper ?expr) keyword"
    and rest: "rest = trimSpace (drop (clauseEnd (trimSpace (drop (length keyword) ?expr))) (trimSpace (drop (length keyword) ?expr)))"
    by (auto simp: nextUpdateClause_def Let_def find_Some_iff split: option.splits if_splits)
  have "length keyword \<le> length ?expr" using k(2) by (auto simp: hasPrefix_iff toUpper_def dest!: arg_cong [where f = length])
  moreover from k(1) have "0 < length keyword" by auto
  moreover have "length rest \<le> length (trimSpace (drop (length keyword) ?expr))"
    unfolding rest by (metis diff_le_self dual_order.trans length_drop trimSpace_length_le)
  moreover have "length (trimSpace (drop (length keyword) ?expr)) \<le> length ?expr - length keyword"
    using trimSpace_length_le [of "drop (length keyword) ?expr"] by simp
  moreover note trimSpace_length_le [of raw]
  ultimately show ?thesis by linarith
qed

function updateLoop ::
    "ddb_env \<Rightarrow> string \<Rightarrow> (string \<times> string) list \<Rightarrow> json_object \<Rightarrow> json_object \<Rightarrow> json_object ddb_result" where
  "updateLoop E remaining names values item =
     (if remaining = '''' then Inr item
      else (case nextUpdateClause remaining of
          Inl e \<Rightarrow> Inl e
        | Inr (keyword, body, rest) \<Rightarrow>
            rbind (applyClause E names values keyword body item) (\<lambda>item'. updateLoop E (trimSpace rest) names values item')))"
  by pat_completeness auto
termination
proof (relation "measure (\<lambda>(E, remaining, names, values, item). length remaining)", goal_cases)
  case (2 E remaining names vals item p keyword q body rest item')
  then have "length rest < length remaining" by (intro nextUpdateClause_shorter [of remaining keyword body rest]) auto
  then show ?case using trimSpace_length_le [of rest] by auto
qed simp

declare updateLoop.simps [simp del]

definition applyUpdateExpression ::
    "ddb_env \<Rightarrow> json_object \<Rightarrow> string \<Rightarrow> (string \<times> string) list \<Rightarrow> json_object \<Rightarrow> json_object ddb_result" where
  "applyUpdateExpression E item expr names values =
     (if trimSpace expr = '''' then Inl (validationError ''UpdateExpression is required'')
      else updateLoop E (trimSpace expr) names values item)"

section \<open>Projections\<close>

fun projectParts :: "(string \<times> string) list \<Rightarrow> json_object \<Rightarrow> string list \<Rightarrow> json_object \<Rightarrow> json_object ddb_result" where
  "projectParts names item [] out = Inr out"
| "projectParts names item (part # parts) out =
     rbind (resolvePath (trimSpace part) names) (\<lambda>path.
       (case getPathValue item path of
          None \<Rightarrow> projectParts names item parts out
        | Some value \<Rightarrow> rbind (assignPathValue out path value) (projectParts names item parts)))"

text \<open>For an item that exists; a nil item is its own projection.\<close>

definition applyProjectionExpression :: "json_object \<Rightarrow> string \<Rightarrow> (string \<times> string) list \<Rightarrow> json_object ddb_result" where
  "applyProjectionExpression item expr names =
     (if trimSpace expr = '''' then Inr item
      else projectParts names item (splitTopLevel expr CHR '','') [])"

end
