(* ===== verification/DDB_Language.thy ===== *)
theory DDB_Language
  imports DDB_Expr
begin

text \<open>
  Properties of the DynamoDB expression language: when the tokenizer returns, that the parser always
  returns and reads every expression back from its printed form with the usual precedence, what a
  value written at a document path is, and what set updates do.
\<close>

section \<open>The tokenizer\<close>

text \<open>The characters that start or continue a token, and blanks.\<close>

definition lexical :: "char \<Rightarrow> bool" where
  "lexical ch \<longleftrightarrow> isBlank ch \<or> ch \<in> set ''(),=<>'' \<or> isExprChar ch"

lemma tokenize_Nil: "tokenizeExpression [] = Some []"
  by (subst tokenizeExpression.simps) simp

lemma tokenize_returns: "list_all lexical expr \<Longrightarrow> \<exists>ts. tokenizeExpression expr = Some ts"
proof (induction expr rule: length_induct)
  case (1 expr)
  show ?case
  proof (cases expr)
    case (Cons ch rest)
    have IH: "\<exists>ts. tokenizeExpression s = Some ts" if "length s < length expr" "set s \<subseteq> set expr" for s
      using 1 that by (auto simp: list_all_iff)
    have rest: "\<exists>ts. tokenizeExpression rest = Some ts" "\<exists>ts. tokenizeExpression (drop 2 expr) = Some ts"
      using Cons by (auto intro!: IH dest: in_set_dropD)
    have word: "\<exists>ts. tokenizeExpression (dropWhile isExprChar expr) = Some ts" if "isExprChar ch"
      using that Cons by (intro IH) (auto simp: le_imp_less_Suc length_dropWhile_le dest: set_dropWhileD)
    from 1(2) Cons have "isBlank ch \<or> ch \<in> set ''(),=<>'' \<or> isExprChar ch" by (simp add: lexical_def)
    then show ?thesis using rest word
      by (subst tokenizeExpression.simps) (auto simp: Cons)
  qed (simp add: tokenize_Nil)
qed

lemma tokenize_lexical: "tokenizeExpression expr = Some ts \<Longrightarrow> list_all lexical expr"
proof (erule tokenizeExpression.raw_induct [where P = "\<lambda>expr ts. list_all lexical expr", rotated])
  fix f :: "string \<Rightarrow> token list option" and expr ts
  assume IH: "\<And>expr ts. f expr = Some ts \<Longrightarrow> list_all lexical expr"
  let ?body = "case expr of
      [] \<Rightarrow> Some []
    | ch # rest \<Rightarrow>
        if isBlank ch then f rest
        else if ch \<in> set ''(),'' then Option.bind (f rest) (\<lambda>ts. Some (\<lparr>tok_kind = [ch], tok_text = [ch]\<rparr> # ts))
        else if take 2 expr = ''<='' \<or> take 2 expr = ''>='' \<or> take 2 expr = ''<>'' then
          Option.bind (f (drop 2 expr)) (\<lambda>ts. Some (\<lparr>tok_kind = ''op'', tok_text = take 2 expr\<rparr> # ts))
        else if ch \<in> set ''=<>'' then Option.bind (f rest) (\<lambda>ts. Some (\<lparr>tok_kind = ''op'', tok_text = [ch]\<rparr> # ts))
        else Option.bind (f (dropWhile isExprChar expr)) (\<lambda>ts. Some (wordToken (takeWhile isExprChar expr) # ts))"
  assume body: "?body = Some ts"
  show "list_all lexical expr"
  proof (cases expr)
    case (Cons ch rest)
    consider "isBlank ch \<or> ch \<in> set ''(),=<>''" "f rest \<noteq> None"
      | "take 2 expr = ''<='' \<or> take 2 expr = ''>='' \<or> take 2 expr = ''<>''" "f (drop 2 expr) \<noteq> None"
      | "f (dropWhile isExprChar expr) \<noteq> None"
      using body Cons by (auto split: if_splits bind_splits)
    then show ?thesis
    proof cases
      case 1
      with IH have "list_all lexical rest" by blast
      with 1 Cons show ?thesis by (auto simp: lexical_def)
    next
      case 2
      with IH have "list_all lexical (drop 2 expr)" by blast
      moreover have "list_all lexical (take 2 expr)" using 2(1) by (auto simp: lexical_def)
      ultimately show ?thesis by (metis append_take_drop_id list_all_append)
    next
      case 3
      with IH have "list_all lexical (dropWhile isExprChar expr)" by blast
      moreover have "list_all lexical (takeWhile isExprChar expr)" by (auto simp: list_all_iff lexical_def dest: set_takeWhileD)
      ultimately show ?thesis by (metis list_all_append takeWhile_dropWhile_id)
    qed
  qed simp
qed

text \<open>C34: The tokenizer returns exactly on expressions made of blanks, punctuation and word characters. On any
  other character it never returns: it appends empty words for ever.\<close>

theorem tokenizer_returns_iff:
  "(\<exists>tokens. tokenizeExpression expr = Some tokens) \<longleftrightarrow> list_all lexical expr"
  using tokenize_returns tokenize_lexical by blast

section \<open>The parser returns\<close>

text \<open>A parser that returns, and on success leaves fewer than \<open>k\<close> tokens.\<close>

definition leaves :: "nat \<Rightarrow> 'a parsed \<Rightarrow> bool" where
  "leaves k p \<longleftrightarrow> (case p of None \<Rightarrow> False | Some (Inl _) \<Rightarrow> True | Some (Inr (v, rest)) \<Rightarrow> length rest < k)"

lemma leaves_simps [simp]:
  "leaves k (Some (Inr (v, rest))) \<longleftrightarrow> length rest < k" "leaves k (perror msg)" "leaves k (Some (Inl e))" "\<not> leaves k None"
  by (simp_all add: leaves_def perror_def)

lemma leaves_pbind:
  "leaves k p \<Longrightarrow> (\<And>v rest. length rest < k \<Longrightarrow> leaves m (f v rest)) \<Longrightarrow> leaves m (pbind p f)"
  by (cases p) (auto simp: pbind_def split: sum.splits)

lemma leaves_mono: "leaves k p \<Longrightarrow> k \<le> m \<Longrightarrow> leaves m p"
  by (auto simp: leaves_def split: option.splits sum.splits)

lemma leaves_loop: "leaves (Suc (length rest)) p \<Longrightarrow> length rest < k \<Longrightarrow> leaves k p"
  by (rule leaves_mono) auto

lemma peek_length: "peek kind ts \<Longrightarrow> 0 < length ts"
  by (cases ts) auto

lemma operand_leaves:
  "3 * length ts + 1 \<le> n \<Longrightarrow> leaves (length ts) (parseOperand n ts)"
  "3 * length ts + 1 \<le> n \<Longrightarrow> leaves (length ts) (parseFunction n ts)"
  "3 * length ts + 2 \<le> n \<Longrightarrow> leaves (length ts) (parseOperands n msg ts)"
proof (induction n ts and n ts and n msg ts rule: parseOperand_parseFunction_parseOperands.induct)
  case (2 n ts)
  show ?case
  proof (cases ts)
    case (Cons tok rest)
    have "leaves (length rest) (parseFunction n rest)" if "tok_kind tok = ''word''" "equalFold (tok_text tok) ''size''" "peek ''('' rest"
      using 2 Cons that by simp
    then show ?thesis by (auto simp: Cons intro!: leaves_pbind [where k = "length rest"] split: list.split)
  qed simp
next
  case (4 n ts)
  show ?case
  proof (cases "peek ''('' ts \<and> \<not> peek '')'' (tl ts)")
    case True
    then have "leaves (length (tl ts)) (parseOperands n ''Invalid function call'' (tl ts))"
      using 4 by (cases ts) auto
    then have "leaves (length ts) (parseOperands n ''Invalid function call'' (tl ts))" by (rule leaves_mono) simp
    with True show ?thesis by simp
  next
    case False
    then show ?thesis using peek_length [of "'')''" "tl ts"] by auto
  qed
next
  case (6 n msg ts)
  show ?case unfolding parseOperands.simps
  proof (rule leaves_pbind)
    show "leaves (length ts) (parseOperand n ts)" using 6 by simp
    fix arg :: exprNode and rest :: "token list"
    assume len: "length rest < length ts"
    have "leaves (length (tl rest)) (parseOperands n msg (tl rest))" if "\<not> peek '')'' rest" "peek '','' rest"
      using 6 len that peek_length [of "'',''" rest] by simp
    then show "leaves (length ts) (if peek '')'' rest then Some (Inr ([arg], tl rest))
       else if \<not> peek '','' rest then perror msg
       else pbind (parseOperands n msg (tl rest)) (\<lambda>args rest'. Some (Inr (arg # args, rest'))))"
      using len by (auto intro!: leaves_pbind)
  qed
qed simp_all

lemma parseTail_leaves: "3 * length ts + 2 \<le> n \<Longrightarrow> leaves (Suc (length ts)) (parseTail n left ts)"
proof -
  assume n: "3 * length ts + 2 \<le> n"
  have op: "leaves (Suc (length ts)) (parseOperand n us)" "leaves (Suc (length ts)) (parseFunction n us)"
    "leaves (Suc (length ts)) (parseOperands n msg us)" if "length us \<le> length ts" for us msg
    by (rule leaves_mono [of "length us"], use operand_leaves [of us n] operand_leaves(3) [of us n msg] n that in simp_all)+
  show ?thesis unfolding parseTail_def
    by (auto intro!: leaves_pbind [where k = "Suc (length ts)"] op)
qed

lemma parser_leaves:
  "6 * length ts + 5 \<le> n \<Longrightarrow> leaves (length ts) (parseOr n ts)"
  "6 * length ts + 1 \<le> n \<Longrightarrow> leaves (Suc (length ts)) (orLoop n left ts)"
  "6 * length ts + 4 \<le> n \<Longrightarrow> leaves (length ts) (parseAnd n ts)"
  "6 * length ts + 1 \<le> n \<Longrightarrow> leaves (Suc (length ts)) (andLoop n left ts)"
  "6 * length ts + 3 \<le> n \<Longrightarrow> leaves (length ts) (parseNot n ts)"
  "6 * length ts + 2 \<le> n \<Longrightarrow> leaves (length ts) (parsePrimary n ts)"
proof (induction n ts and n left ts and n ts and n left ts and n ts and n ts
    rule: parseOr_orLoop_parseAnd_andLoop_parseNot_parsePrimary.induct)
  case (2 n ts)
  show ?case unfolding parseOr.simps
    by (rule leaves_pbind [of "length ts"]) (use 2 in \<open>auto intro!: leaves_loop [OF "2.IH"(2)]\<close>)
next
  case (4 n left ts)
  show ?case
  proof (cases "peek ''OR'' ts")
    case True
    then obtain t us where ts: "ts = t # us" by (cases ts) auto
    have "leaves (Suc (length ts)) (pbind (parseAnd n us) (\<lambda>right. orLoop n (LogicalNode ''OR'' left right)))"
      by (rule leaves_pbind [of "length us"]) (use 4 True ts in \<open>auto intro!: leaves_loop [OF "4.IH"(2)]\<close>)
    with True ts show ?thesis by simp
  qed simp
next
  case (6 n ts)
  show ?case unfolding parseAnd.simps
    by (rule leaves_pbind [of "length ts"]) (use 6 in \<open>auto intro!: leaves_loop [OF "6.IH"(2)]\<close>)
next
  case (8 n left ts)
  show ?case
  proof (cases "peek ''AND'' ts")
    case True
    then obtain t us where ts: "ts = t # us" by (cases ts) auto
    have "leaves (Suc (length ts)) (pbind (parseNot n us) (\<lambda>right. andLoop n (LogicalNode ''AND'' left right)))"
      by (rule leaves_pbind [of "length us"]) (use 8 True ts in \<open>auto intro!: leaves_loop [OF "8.IH"(2)]\<close>)
    with True ts show ?thesis by simp
  qed simp
next
  case (10 n ts)
  show ?case
  proof (cases "peek ''NOT'' ts")
    case True
    then obtain t us where ts: "ts = t # us" by (cases ts) auto
    have "leaves (length ts) (pbind (parsePrimary n us) (\<lambda>child rest. Some (Inr (NotNode child, rest))))"
      by (rule leaves_pbind [of "length us"]) (use 10 True ts in auto)
    with True ts show ?thesis by simp
  qed (use 10 in simp)
next
  case (12 n ts)
  show ?case
  proof (cases "peek ''('' ts")
    case True
    then obtain t us where ts: "ts = t # us" by (cases ts) auto
    have "leaves (length ts) (pbind (parseOr n us) (\<lambda>node rest.
        if peek '')'' rest then Some (Inr (node, tl rest)) else perror ''Invalid expression''))"
      by (rule leaves_pbind [of "length us"]) (use 12 True ts in auto)
    with True ts show ?thesis by simp
  next
    case False
    have "leaves (length ts) (pbind (parseOperand n ts) (parseTail n))"
    proof (rule leaves_pbind [of "length ts"])
      show "leaves (length ts) (parseOperand n ts)" using 12 operand_leaves(1) by simp
      fix left :: exprNode and rest :: "token list"
      assume len: "length rest < length ts"
      then have "leaves (Suc (length rest)) (parseTail n left rest)" using 12 by (intro parseTail_leaves) simp
      then show "leaves (length ts) (parseTail n left rest)" by (rule leaves_mono) (use len in simp)
    qed
    with False show ?thesis by simp
  qed
qed simp_all

lemma parse_total: "parseOr (parseFuel ts) ts \<noteq> None"
  using parser_leaves(1) [of ts "parseFuel ts"] by (auto simp: parseFuel_def leaves_def split: option.splits)

section \<open>The parser reads printed expressions back\<close>

text \<open>A result the parser gives with every large enough fuel.\<close>

definition settles :: "(nat \<Rightarrow> 'a parsed) \<Rightarrow> 'a \<times> token list \<Rightarrow> bool" where
  "settles p r \<longleftrightarrow> (\<exists>N. \<forall>n \<ge> N. p n = Some (Inr r))"

lemma settles_const [simp]: "settles (\<lambda>n. Some (Inr r)) r"
  by (simp add: settles_def)

lemma settles_pbind:
  assumes "settles p (v, rest)" and "settles (\<lambda>n. f n v rest) r"
  shows "settles (\<lambda>n. pbind (p n) (f n)) r"
proof -
  from assms obtain N M where "\<forall>n \<ge> N. p n = Some (Inr (v, rest))" "\<forall>n \<ge> M. f n v rest = Some (Inr r)"
    unfolding settles_def by blast
  then show ?thesis unfolding settles_def by (intro exI [of _ "max N M"]) (simp add: pbind_def)
qed

lemma settles_Suc:
  assumes "settles q r" and "\<And>n. p (Suc n) = q n"
  shows "settles p r"
proof -
  from assms(1) obtain N where "\<forall>n \<ge> N. q n = Some (Inr r)" unfolding settles_def ..
  then have "\<forall>n \<ge> Suc N. p n = Some (Inr r)" using assms(2) by (metis Suc_le_D Suc_le_mono)
  then show ?thesis unfolding settles_def ..
qed

text \<open>The printer puts parentheses only where the precedence of OR, AND and NOT needs them.\<close>

definition kw :: "string \<Rightarrow> token" where
  "kw s = \<lparr>tok_kind = s, tok_text = s\<rparr>"

definition word :: "string \<Rightarrow> token" where
  "word s = \<lparr>tok_kind = ''word'', tok_text = s\<rparr>"

fun printOperand :: "exprNode \<Rightarrow> token list" where
  "printOperand (OperandNode raw _) = [word raw]"
| "printOperand (SizeNode arg) = word ''size'' # kw ''('' # printOperand arg @ [kw '')'']"
| "printOperand _ = []"

fun printOperands :: "exprNode list \<Rightarrow> token list" where
  "printOperands [] = []"
| "printOperands [a] = printOperand a"
| "printOperands (a # as) = printOperand a @ kw '','' # printOperands as"

fun level :: "exprNode \<Rightarrow> nat" where
  "level (LogicalNode op _ _) = (if op = ''OR'' then 0 else 1)"
| "level (NotNode _) = 2"
| "level _ = 3"

definition paren :: "bool \<Rightarrow> token list \<Rightarrow> token list" where
  "paren b ts = (if b then kw ''('' # ts @ [kw '')''] else ts)"

fun printNode :: "exprNode \<Rightarrow> token list" where
  "printNode (LogicalNode op l r) =
     (let k = (if op = ''OR'' then 0 else 1) in
      paren (level l < k) (printNode l) @ kw op # paren (level r < Suc k) (printNode r))"
| "printNode (NotNode c) = kw ''NOT'' # paren (level c < 3) (printNode c)"
| "printNode (CompareNode op l r) = printOperand l @ \<lparr>tok_kind = ''op'', tok_text = op\<rparr> # printOperand r"
| "printNode (BetweenNode t l h) = printOperand t @ kw ''BETWEEN'' # printOperand l @ kw ''AND'' # printOperand h"
| "printNode (InNode t vs) = printOperand t @ kw ''IN'' # kw ''('' # printOperands vs @ [kw '')'']"
| "printNode (FunctionNode name args) = word name # kw ''('' # printOperands args @ [kw '')'']"
| "printNode node = printOperand node"

abbreviation printAt :: "nat \<Rightarrow> exprNode \<Rightarrow> token list" where
  "printAt k node \<equiv> paren (level node < k) (printNode node)"

text \<open>The nodes the parser builds: a name is not the text of another token, only operands are compared.\<close>

definition plainWord :: "string \<Rightarrow> bool" where
  "plainWord s \<longleftrightarrow> s \<notin> {''('', '')'', '','', ''AND'', ''OR'', ''NOT'', ''BETWEEN'', ''IN'', ''op''}"

fun operandOK :: "exprNode \<Rightarrow> bool" where
  "operandOK (OperandNode raw isValue) = (plainWord raw \<and> isValue = hasPrefix raw '':'')"
| "operandOK (SizeNode arg) = operandOK arg"
| "operandOK _ = False"

fun nodeOK :: "exprNode \<Rightarrow> bool" where
  "nodeOK (LogicalNode op l r) = ((op = ''AND'' \<or> op = ''OR'') \<and> nodeOK l \<and> nodeOK r)"
| "nodeOK (NotNode c) = nodeOK c"
| "nodeOK (CompareNode op l r) = (op \<in> {''='', ''<>'', ''<'', ''<='', ''>'', ''>=''} \<and> operandOK l \<and> operandOK r)"
| "nodeOK (BetweenNode t l h) = (operandOK t \<and> operandOK l \<and> operandOK h)"
| "nodeOK (InNode t vs) = (operandOK t \<and> vs \<noteq> [] \<and> list_all operandOK vs)"
| "nodeOK (FunctionNode name args) = (plainWord name \<and> \<not> equalFold name ''size'' \<and> list_all operandOK args)"
| "nodeOK node = operandOK node"

text \<open>Tokens an operand cannot be followed by: they would continue it.\<close>

definition continues :: "token list \<Rightarrow> bool" where
  "continues ts \<longleftrightarrow> peek ''('' ts \<or> peek ''BETWEEN'' ts \<or> peek ''IN'' ts \<or> peek ''op'' ts"

lemma token_fields [simp]:
  "tok_kind (kw s) = s" "tok_text (kw s) = s" "tok_kind (word s) = ''word''" "tok_text (word s) = s"
  by (simp_all add: kw_def word_def)

lemma printOperand_hd: "operandOK a \<Longrightarrow> \<exists>s ts. printOperand a = word s # ts \<and> plainWord s"
  by (cases a) (auto simp: plainWord_def)

lemma operand_settles:
  "operandOK a \<Longrightarrow> \<not> peek ''('' rest \<Longrightarrow> settles (\<lambda>n. parseOperand n (printOperand a @ rest)) (a, rest)"
proof (induction a arbitrary: rest)
  case (OperandNode raw isValue)
  then show ?case
    by - (rule settles_Suc [OF settles_const], auto simp: word_def)
next
  case (SizeNode arg)
  let ?us = "printOperand arg @ kw '')'' # rest"
  have arg: "settles (\<lambda>n. parseOperand n ?us) (arg, kw '')'' # rest)"
    using SizeNode.prems by (intro SizeNode.IH) simp_all
  have "settles (\<lambda>n. parseOperands n ''Invalid function call'' ?us) ([arg], rest)"
    by (rule settles_Suc [OF settles_pbind [OF arg]]) auto
  moreover have "\<not> peek '')'' ?us"
    using SizeNode.prems printOperand_hd [of arg] by (auto simp: plainWord_def)
  ultimately have "settles (\<lambda>n. parseFunction n (kw ''('' # ?us)) ([arg], rest)"
    by - (rule settles_Suc, auto)
  then have s: "settles (\<lambda>n. pbind (parseFunction n (kw ''('' # ?us)) (\<lambda>args rest'. case args of
      [arg] \<Rightarrow> Some (Inr (SizeNode arg, rest'))
    | _ \<Rightarrow> perror ''Invalid ConditionExpression: Incorrect number of operands for operator or function; operator or function: size''))
    (SizeNode arg, rest)"
    by (rule settles_pbind) simp
  show ?case by (rule settles_Suc [OF s]) (simp add: word_def equalFold_def)
qed auto

lemma operands_settles:
  "list_all operandOK args \<Longrightarrow> args \<noteq> [] \<Longrightarrow>
    settles (\<lambda>n. parseOperands n msg (printOperands args @ kw '')'' # rest)) (args, rest)"
proof (induction args rule: printOperands.induct)
  case (2 a)
  have "settles (\<lambda>n. parseOperand n (printOperand a @ kw '')'' # rest)) (a, kw '')'' # rest)"
    using 2 by (intro operand_settles) auto
  then show ?case by - (rule settles_Suc [OF settles_pbind], auto)
next
  case (3 a b as)
  have a: "settles (\<lambda>n. parseOperand n (printOperand a @ kw '','' # printOperands (b # as) @ kw '')'' # rest))
      (a, kw '','' # printOperands (b # as) @ kw '')'' # rest)"
    using 3 by (intro operand_settles) auto
  have "settles (\<lambda>n. pbind (parseOperands n msg (printOperands (b # as) @ kw '')'' # rest))
      (\<lambda>args rest'. Some (Inr (a # args, rest')))) (a # b # as, rest)"
    using 3 by (intro settles_pbind [where v = "b # as"]) auto
  then show ?case by - (rule settles_Suc [OF settles_pbind [OF a]], auto)
qed simp

lemma printOperands_not_close: "list_all operandOK args \<Longrightarrow> args \<noteq> [] \<Longrightarrow> \<not> peek '')'' (printOperands args @ rest)"
proof (induction args rule: printOperands.induct)
  case (2 a)
  then show ?case using printOperand_hd [of a] by (auto simp: plainWord_def)
next
  case (3 a b as)
  then show ?case using printOperand_hd [of a] by (auto simp: plainWord_def)
qed simp

lemma function_settles:
  assumes "list_all operandOK args"
  shows "settles (\<lambda>n. parseFunction n (kw ''('' # printOperands args @ kw '')'' # rest)) (args, rest)"
proof (cases "args = []")
  case True
  then show ?thesis by - (rule settles_Suc [OF settles_const], simp)
next
  case False
  from settles_Suc [OF operands_settles [OF assms False, of "''Invalid function call''" rest]]
    printOperands_not_close [OF assms False, of "kw '')'' # rest"]
  show ?thesis by simp
qed

lemma operand_tail_settles:
  assumes "operandOK a" and "\<not> peek ''('' ts" and "settles (\<lambda>n. parseTail n a ts) r"
  shows "settles (\<lambda>n. parsePrimary n (printOperand a @ ts)) r"
proof -
  have "\<not> peek ''('' (printOperand a @ ts)" using printOperand_hd [OF assms(1)] by (auto simp: plainWord_def)
  moreover have "settles (\<lambda>n. pbind (parseOperand n (printOperand a @ ts)) (parseTail n)) r"
    by (rule settles_pbind [OF operand_settles [OF assms(1,2)], of parseTail, OF assms(3)])
  ultimately show ?thesis by - (rule settles_Suc, auto)
qed

text \<open>Comparisons, ranges, lists, functions and operands.\<close>

lemma atom_settles:
  assumes "nodeOK node" and "level node = 3" and "\<not> continues rest"
  shows "settles (\<lambda>n. parsePrimary n (printNode node @ rest)) (node, rest)"
proof (cases node)
  case (CompareNode op l r)
  have "settles (\<lambda>n. parseOperand n (printOperand r @ rest)) (r, rest)"
    using assms CompareNode by (intro operand_settles) (auto simp: continues_def)
  from settles_pbind [OF this, of "\<lambda>n right rest. Some (Inr (CompareNode op l right, rest))"]
  have "settles (\<lambda>n. parseTail n l (\<lparr>tok_kind = ''op'', tok_text = op\<rparr> # printOperand r @ rest)) (node, rest)"
    using assms CompareNode by (auto simp: parseTail_def)
  from operand_tail_settles [OF _ _ this] show ?thesis using assms CompareNode by auto
next
  case (BetweenNode t l h)
  have h: "settles (\<lambda>n. parseOperand n (printOperand h @ rest)) (h, rest)"
    using assms BetweenNode by (intro operand_settles) (auto simp: continues_def)
  have l: "settles (\<lambda>n. parseOperand n (printOperand l @ kw ''AND'' # printOperand h @ rest)) (l, kw ''AND'' # printOperand h @ rest)"
    using assms BetweenNode by (intro operand_settles) auto
  have "settles (\<lambda>n. pbind (parseOperand n (printOperand h @ rest)) (\<lambda>high rest'. Some (Inr (BetweenNode t l high, rest')))) (node, rest)"
    using settles_pbind [OF h, of "\<lambda>n high rest'. Some (Inr (BetweenNode t l high, rest'))"] BetweenNode by simp
  then have "settles (\<lambda>n. parseTail n t (kw ''BETWEEN'' # printOperand l @ kw ''AND'' # printOperand h @ rest)) (node, rest)"
    using settles_pbind [OF l, of "\<lambda>n low rest. if \<not> peek ''AND'' rest then perror ''Invalid BETWEEN expression''
        else pbind (parseOperand n (tl rest)) (\<lambda>high rest'. Some (Inr (BetweenNode t low high, rest')))"]
    by (simp add: parseTail_def)
  from operand_tail_settles [OF _ _ this] show ?thesis using assms BetweenNode by auto
next
  case (InNode t vs)
  then have "settles (\<lambda>n. parseOperands n ''Invalid IN expression'' (printOperands vs @ kw '')'' # rest)) (vs, rest)"
    using assms by (intro operands_settles) auto
  from settles_pbind [OF this, of "\<lambda>n values rest. Some (Inr (InNode t values, rest))"]
  have "settles (\<lambda>n. parseTail n t (kw ''IN'' # kw ''('' # printOperands vs @ kw '')'' # rest)) (node, rest)"
    using InNode by (simp add: parseTail_def)
  from operand_tail_settles [OF _ _ this] show ?thesis using assms InNode by auto
next
  case (FunctionNode name args)
  let ?ts = "kw ''('' # printOperands args @ kw '')'' # rest"
  have "settles (\<lambda>n. parseFunction n ?ts) (args, rest)" using assms FunctionNode by (intro function_settles) simp
  from settles_pbind [OF this, of "\<lambda>n args rest. Some (Inr (FunctionNode name args, rest))"]
  have t: "settles (\<lambda>n. parseTail n (OperandNode name (hasPrefix name '':'')) ?ts) (node, rest)"
    using FunctionNode by (simp add: parseTail_def)
  have "settles (\<lambda>n. parseOperand n (word name # ?ts)) (OperandNode name (hasPrefix name '':''), ?ts)"
    using assms FunctionNode by - (rule settles_Suc [OF settles_const], auto simp: word_def)
  from settles_pbind [OF this, of parseTail, OF t]
  have "settles (\<lambda>n. pbind (parseOperand n (word name # ?ts)) (parseTail n)) (node, rest)" .
  then show ?thesis using assms FunctionNode by - (rule settles_Suc, auto simp: plainWord_def)
next
  case (OperandNode raw v)
  then show ?thesis using operand_tail_settles [of node rest "(node, rest)"] assms
    by (auto simp: parseTail_def continues_def)
next
  case (SizeNode arg)
  then show ?thesis using operand_tail_settles [of node rest "(node, rest)"] assms
    by (auto simp: parseTail_def continues_def)
qed (use assms in \<open>auto split: if_splits\<close>)

text \<open>What each level of the parser makes of a printed node.\<close>

definition primaryReads :: "exprNode \<Rightarrow> bool" where
  "primaryReads node \<longleftrightarrow> (\<forall>rest. \<not> continues rest \<longrightarrow> settles (\<lambda>n. parsePrimary n (printAt 3 node @ rest)) (node, rest))"

definition notReads :: "exprNode \<Rightarrow> bool" where
  "notReads node \<longleftrightarrow> (\<forall>rest. \<not> continues rest \<longrightarrow> settles (\<lambda>n. parseNot n (printAt 2 node @ rest)) (node, rest))"

definition andReads :: "exprNode \<Rightarrow> bool" where
  "andReads node \<longleftrightarrow> (\<forall>rest r. \<not> continues rest \<longrightarrow> settles (\<lambda>n. andLoop n node rest) r \<longrightarrow>
     settles (\<lambda>n. parseAnd n (printAt 1 node @ rest)) r)"

definition orReads :: "exprNode \<Rightarrow> bool" where
  "orReads node \<longleftrightarrow> (\<forall>rest r. \<not> continues rest \<longrightarrow> \<not> peek ''AND'' rest \<longrightarrow> settles (\<lambda>n. orLoop n node rest) r \<longrightarrow>
     settles (\<lambda>n. parseOr n (printNode node @ rest)) r)"

lemma loops_settle:
  "\<not> peek ''OR'' rest \<Longrightarrow> settles (\<lambda>n. orLoop n node rest) (node, rest)"
  "\<not> peek ''AND'' rest \<Longrightarrow> settles (\<lambda>n. andLoop n node rest) (node, rest)"
  by (rule settles_Suc [OF settles_const], simp)+

lemma atom_hd: "nodeOK node \<Longrightarrow> level node = 3 \<Longrightarrow> \<exists>s ts. printNode node = word s # ts \<and> plainWord s"
proof (cases node)
  case (SizeNode arg)
  assume "nodeOK node"
  with SizeNode show ?thesis using printOperand_hd [of node] by simp
qed (auto dest!: printOperand_hd split: if_splits)

lemma or_to_primary:
  assumes "orReads node" and "level node < 3"
  shows "primaryReads node"
  unfolding primaryReads_def
proof (intro allI impI)
  fix rest
  have "settles (\<lambda>n. parseOr n (printNode node @ kw '')'' # rest)) (node, kw '')'' # rest)"
    using assms(1) loops_settle(1) [of "kw '')'' # rest" node] by (simp add: orReads_def continues_def)
  from settles_pbind [OF this, of "\<lambda>n node rest. if peek '')'' rest then Some (Inr (node, tl rest)) else perror ''Invalid expression''"]
  have "settles (\<lambda>n. pbind (parseOr n (printNode node @ kw '')'' # rest)) (\<lambda>node rest.
      if peek '')'' rest then Some (Inr (node, tl rest)) else perror ''Invalid expression'')) (node, rest)" by simp
  then show "settles (\<lambda>n. parsePrimary n (printAt 3 node @ rest)) (node, rest)"
    using assms(2) by - (rule settles_Suc, auto simp: paren_def)
qed

lemma primary_to_not:
  assumes "primaryReads node" and "level node \<noteq> 2" and "nodeOK node"
  shows "notReads node"
  unfolding notReads_def
proof (intro allI impI)
  fix rest
  assume "\<not> continues rest"
  with assms(1) have s: "settles (\<lambda>n. parsePrimary n (printAt 3 node @ rest)) (node, rest)" by (simp add: primaryReads_def)
  have lv: "level node < 2 \<or> level node = 3" using assms(2) by (cases node) (auto split: if_splits)
  then have eq: "printAt 2 node = printAt 3 node" by (auto simp: paren_def)
  have "\<not> peek ''NOT'' (printAt 3 node @ rest)"
    using lv atom_hd [OF assms(3)] by (auto simp: paren_def plainWord_def)
  then show "settles (\<lambda>n. parseNot n (printAt 2 node @ rest)) (node, rest)"
    unfolding eq using s by - (rule settles_Suc, auto)
qed

lemma not_to_and:
  assumes "notReads node" and "level node \<noteq> 1"
  shows "andReads node"
  unfolding andReads_def
proof (intro allI impI)
  fix rest r
  assume "\<not> continues rest" and loop: "settles (\<lambda>n. andLoop n node rest) r"
  with assms(1) have s: "settles (\<lambda>n. parseNot n (printAt 2 node @ rest)) (node, rest)" by (simp add: notReads_def)
  have eq: "printAt 1 node = printAt 2 node" using assms(2) by (auto simp: paren_def)
  from settles_pbind [OF s, of andLoop, OF loop]
  show "settles (\<lambda>n. parseAnd n (printAt 1 node @ rest)) r"
    unfolding eq by - (rule settles_Suc, auto)
qed

lemma and_to_or:
  assumes "andReads node" and "level node \<noteq> 0"
  shows "orReads node"
  unfolding orReads_def
proof (intro allI impI)
  fix rest r
  assume "\<not> continues rest" "\<not> peek ''AND'' rest" and loop: "settles (\<lambda>n. orLoop n node rest) r"
  with assms(1) loops_settle(2) have s: "settles (\<lambda>n. parseAnd n (printAt 1 node @ rest)) (node, rest)"
    by (simp add: andReads_def)
  have eq: "printAt 1 node = printNode node" using assms(2) by (auto simp: paren_def)
  from settles_pbind [OF s [unfolded eq], of orLoop, OF loop]
  show "settles (\<lambda>n. parseOr n (printNode node @ rest)) r" by - (rule settles_Suc, auto)
qed

lemma or_node_reads:
  assumes "orReads l" and "andReads r"
  shows "orReads (LogicalNode ''OR'' l r)"
  unfolding orReads_def
proof (intro allI impI)
  fix rest q
  assume f: "\<not> continues rest" "\<not> peek ''AND'' rest" and loop: "settles (\<lambda>n. orLoop n (LogicalNode ''OR'' l r) rest) q"
  let ?rest = "kw ''OR'' # printAt 1 r @ rest"
  have "settles (\<lambda>n. parseAnd n (printAt 1 r @ rest)) (r, rest)"
    using assms(2) f loops_settle(2) by (simp add: andReads_def)
  from settles_pbind [OF this, of "\<lambda>n right. orLoop n (LogicalNode ''OR'' l right)", OF loop]
  have "settles (\<lambda>n. orLoop n l ?rest) q" by - (rule settles_Suc, auto)
  then have "settles (\<lambda>n. parseOr n (printNode l @ ?rest)) q"
    using assms(1) [unfolded orReads_def, rule_format, of ?rest q] by (simp add: continues_def)
  then show "settles (\<lambda>n. parseOr n (printNode (LogicalNode ''OR'' l r) @ rest)) q" by (simp add: paren_def)
qed

lemma and_node_reads:
  assumes "andReads l" and "notReads r"
  shows "andReads (LogicalNode ''AND'' l r)"
  unfolding andReads_def
proof (intro allI impI)
  fix rest q
  assume f: "\<not> continues rest" and loop: "settles (\<lambda>n. andLoop n (LogicalNode ''AND'' l r) rest) q"
  let ?rest = "kw ''AND'' # printAt 2 r @ rest"
  have "settles (\<lambda>n. parseNot n (printAt 2 r @ rest)) (r, rest)" using assms(2) f by (simp add: notReads_def)
  from settles_pbind [OF this, of "\<lambda>n right. andLoop n (LogicalNode ''AND'' l right)", OF loop]
  have "settles (\<lambda>n. andLoop n l ?rest) q" by - (rule settles_Suc, auto)
  then have "settles (\<lambda>n. parseAnd n (printAt 1 l @ ?rest)) q"
    using assms(1) [unfolded andReads_def, rule_format, of ?rest q] by (simp add: continues_def)
  then show "settles (\<lambda>n. parseAnd n (printAt 1 (LogicalNode ''AND'' l r) @ rest)) q"
    by (simp add: paren_def numeral_2_eq_2)
qed

lemma not_node_reads:
  assumes "primaryReads c"
  shows "notReads (NotNode c)"
  unfolding notReads_def
proof (intro allI impI)
  fix rest
  assume "\<not> continues rest"
  with assms have "settles (\<lambda>n. parsePrimary n (printAt 3 c @ rest)) (c, rest)" by (simp add: primaryReads_def)
  from settles_pbind [OF this, of "\<lambda>n child rest. Some (Inr (NotNode child, rest))"]
  have "settles (\<lambda>n. pbind (parsePrimary n (printAt 3 c @ rest)) (\<lambda>child rest. Some (Inr (NotNode child, rest)))) (NotNode c, rest)"
    by simp
  then show "settles (\<lambda>n. parseNot n (printAt 2 (NotNode c) @ rest)) (NotNode c, rest)"
    by - (rule settles_Suc, auto simp: paren_def)
qed

lemma atom_reads:
  assumes "nodeOK node" and "level node = 3"
  shows "primaryReads node \<and> notReads node \<and> andReads node \<and> orReads node"
proof -
  have p: "primaryReads node" using atom_settles [OF assms] assms(2) by (simp add: primaryReads_def paren_def)
  have n: "notReads node" by (rule primary_to_not [OF p]) (use assms in simp_all)
  have a: "andReads node" by (rule not_to_and [OF n]) (use assms in simp)
  have "orReads node" by (rule and_to_or [OF a]) (use assms in simp)
  with p n a show ?thesis by blast
qed

lemma node_reads: "nodeOK node \<Longrightarrow> primaryReads node \<and> notReads node \<and> andReads node \<and> orReads node"
proof (induction node)
  case (LogicalNode op l r)
  then have sub: "andReads l" "orReads l" "notReads r" "andReads r" by auto
  let ?n = "LogicalNode op l r"
  show ?case
  proof (cases "op = ''OR''")
    case True
    then have "orReads ?n" using or_node_reads sub by simp
    with True LogicalNode.prems show ?thesis
      using or_to_primary [of ?n] primary_to_not [of ?n] not_to_and [of ?n] by simp
  next
    case False
    then have "andReads ?n" using and_node_reads sub LogicalNode.prems by simp
    with False LogicalNode.prems show ?thesis
      using and_to_or [of ?n] or_to_primary [of ?n] primary_to_not [of ?n] by simp
  qed
next
  case (NotNode c)
  then have "notReads (NotNode c)" using not_node_reads by simp
  then show ?case using not_to_and [of "NotNode c"] and_to_or [of "NotNode c"] or_to_primary [of "NotNode c"] by simp
qed (rule atom_reads, simp_all)+

section \<open>Fuel\<close>

text \<open>More fuel never changes what a parser returns.\<close>

lemma pbind_mono:
  "pbind p f = Some r \<Longrightarrow> (\<And>x. p = Some x \<Longrightarrow> p' = Some x) \<Longrightarrow> (\<And>v rest x. f v rest = Some x \<Longrightarrow> f' v rest = Some x) \<Longrightarrow>
    pbind p' f' = Some r"
  by (cases p) (auto simp: pbind_def split: sum.splits)

lemma operand_mono:
  "parseOperand n ts = Some r1 \<Longrightarrow> parseOperand (Suc n) ts = Some r1"
  "parseFunction n ts = Some r2 \<Longrightarrow> parseFunction (Suc n) ts = Some r2"
  "parseOperands n msg ts = Some r2 \<Longrightarrow> parseOperands (Suc n) msg ts = Some r2"
proof (induction n ts and n ts and n msg ts arbitrary: r1 and r2 and r2 rule: parseOperand_parseFunction_parseOperands.induct)
  case (2 n ts)
  show ?case
  proof (cases ts)
    case (Cons tok rest)
    show ?thesis
    proof (cases "tok_kind tok = ''word'' \<and> equalFold (tok_text tok) ''size'' \<and> peek ''('' rest")
      case True
      with 2 Cons show ?thesis by (auto elim!: pbind_mono simp del: parseFunction.simps)
    next
      case False
      with 2 Cons show ?thesis by (auto split: if_splits)
    qed
  qed (use 2 in simp)
next
  case (4 n ts)
  then show ?case by (auto split: if_splits simp del: parseOperands.simps)
next
  case (6 n msg ts)
  have "pbind (parseOperand n ts) (\<lambda>arg rest.
     if peek '')'' rest then Some (Inr ([arg], tl rest))
     else if \<not> peek '','' rest then perror msg
     else pbind (parseOperands n msg (tl rest)) (\<lambda>args rest'. Some (Inr (arg # args, rest')))) = Some r2"
    using "6.prems" by simp
  then have "pbind (parseOperand (Suc n) ts) (\<lambda>arg rest.
     if peek '')'' rest then Some (Inr ([arg], tl rest))
     else if \<not> peek '','' rest then perror msg
     else pbind (parseOperands (Suc n) msg (tl rest)) (\<lambda>args rest'. Some (Inr (arg # args, rest')))) = Some r2"
    by (rule pbind_mono) (auto simp del: parseOperand.simps parseOperands.simps split: if_splits
        intro: "6.IH" elim!: pbind_mono)
  then show ?case by (simp only: parseOperands.simps)
qed simp_all

lemma parseTail_mono: "parseTail n left ts = Some r \<Longrightarrow> parseTail (Suc n) left ts = Some r"
  unfolding parseTail_def
  by (auto simp del: parseOperand.simps parseFunction.simps parseOperands.simps split: if_splits
      elim!: pbind_mono intro: operand_mono)

lemma parser_mono:
  "parseOr n ts = Some r \<Longrightarrow> parseOr (Suc n) ts = Some r"
  "orLoop n left ts = Some r \<Longrightarrow> orLoop (Suc n) left ts = Some r"
  "parseAnd n ts = Some r \<Longrightarrow> parseAnd (Suc n) ts = Some r"
  "andLoop n left ts = Some r \<Longrightarrow> andLoop (Suc n) left ts = Some r"
  "parseNot n ts = Some r \<Longrightarrow> parseNot (Suc n) ts = Some r"
  "parsePrimary n ts = Some r \<Longrightarrow> parsePrimary (Suc n) ts = Some r"
proof (induction n ts and n left ts and n ts and n left ts and n ts and n ts arbitrary: r and r and r and r and r and r
    rule: parseOr_orLoop_parseAnd_andLoop_parseNot_parsePrimary.induct)
  case (2 n ts)
  from "2.prems" have "pbind (parseAnd n ts) (orLoop n) = Some r" by simp
  then have "pbind (parseAnd (Suc n) ts) (orLoop (Suc n)) = Some r"
    by (rule pbind_mono) (fact "2.IH")+
  then show ?case by (simp only: parseOr.simps)
next
  case (4 n left ts)
  show ?case
  proof (cases "peek ''OR'' ts")
    case True
    with "4.prems" have "pbind (parseAnd n (tl ts)) (\<lambda>right. orLoop n (LogicalNode ''OR'' left right)) = Some r" by simp
    then have "pbind (parseAnd (Suc n) (tl ts)) (\<lambda>right. orLoop (Suc n) (LogicalNode ''OR'' left right)) = Some r"
      by (rule pbind_mono) (use "4.IH" True in blast)+
    with True show ?thesis by (simp only: orLoop.simps if_True)
  qed (use "4.prems" in simp)
next
  case (6 n ts)
  from "6.prems" have "pbind (parseNot n ts) (andLoop n) = Some r" by simp
  then have "pbind (parseNot (Suc n) ts) (andLoop (Suc n)) = Some r"
    by (rule pbind_mono) (fact "6.IH")+
  then show ?case by (simp only: parseAnd.simps)
next
  case (8 n left ts)
  show ?case
  proof (cases "peek ''AND'' ts")
    case True
    with "8.prems" have "pbind (parseNot n (tl ts)) (\<lambda>right. andLoop n (LogicalNode ''AND'' left right)) = Some r" by simp
    then have "pbind (parseNot (Suc n) (tl ts)) (\<lambda>right. andLoop (Suc n) (LogicalNode ''AND'' left right)) = Some r"
      by (rule pbind_mono) (use "8.IH" True in blast)+
    with True show ?thesis by (simp only: andLoop.simps if_True)
  qed (use "8.prems" in simp)
next
  case (10 n ts)
  show ?case
  proof (cases "peek ''NOT'' ts")
    case True
    with "10.prems" have "pbind (parsePrimary n (tl ts)) (\<lambda>child rest. Some (Inr (NotNode child, rest))) = Some r" by simp
    then have "pbind (parsePrimary (Suc n) (tl ts)) (\<lambda>child rest. Some (Inr (NotNode child, rest))) = Some r"
      by (rule pbind_mono) (use "10.IH" True in blast)+
    with True show ?thesis by (simp only: parseNot.simps if_True)
  next
    case False
    with 10 show ?thesis by (simp del: parsePrimary.simps)
  qed
next
  case (12 n ts)
  show ?case
  proof (cases "peek ''('' ts")
    case True
    let ?f = "\<lambda>node rest. if peek '')'' rest then Some (Inr (node, tl rest)) else perror ''Invalid expression''"
    from True "12.prems" have "pbind (parseOr n (tl ts)) ?f = Some r" by simp
    then have "pbind (parseOr (Suc n) (tl ts)) ?f = Some r"
      by (rule pbind_mono) (use "12.IH" True in blast)+
    with True show ?thesis by (simp only: parsePrimary.simps if_True)
  next
    case False
    with "12.prems" have "pbind (parseOperand n ts) (parseTail n) = Some r" by simp
    then have "pbind (parseOperand (Suc n) ts) (parseTail (Suc n)) = Some r"
      by (rule pbind_mono) (use operand_mono(1) parseTail_mono in blast)+
    with False show ?thesis by (simp only: parsePrimary.simps if_False)
  qed
qed simp_all

lemma parseOr_more: "parseOr n ts = Some r \<Longrightarrow> n \<le> m \<Longrightarrow> parseOr m ts = Some r"
proof (induction m)
  case (Suc m)
  then show ?case using parser_mono(1) by (cases "n = Suc m") (auto simp del: parseOr.simps)
qed simp

lemma parseExpression_settles:
  assumes "settles (\<lambda>n. parseOr n ts) (node, rest)"
  shows "parseExpression ts = Inr (node, rest)"
proof -
  from assms obtain N where N: "\<forall>n \<ge> N. parseOr n ts = Some (Inr (node, rest))" unfolding settles_def ..
  obtain r where r: "parseOr (parseFuel ts) ts = Some r" using parse_total by blast
  from parseOr_more [OF r, of "max N (parseFuel ts)"] N have "r = Inr (node, rest)" by simp
  with r show ?thesis by (simp add: parseExpression_def)
qed

text \<open>C35: The parser reads every expression back from its printed form: OR binds weakest, then AND, then NOT, both
  associate to the left, and parentheses are needed nowhere else.\<close>

theorem parse_printed:
  assumes "nodeOK node"
  shows "parseExpression (printNode node) = Inr (node, [])"
proof (rule parseExpression_settles)
  have "settles (\<lambda>n. orLoop n node []) (node, [])" using loops_settle(1) by simp
  then show "settles (\<lambda>n. parseOr n (printNode node)) (node, [])"
    using node_reads [OF assms] unfolding orReads_def by (auto simp: continues_def dest: spec [where x = "[]"])
qed

theorem parse_printed_witness:
  "parseExpression [word ''a'', kw ''OR'', kw ''NOT'', word ''b'', kw ''AND'', kw ''('', word ''c'', kw ''OR'', word '':d'', kw '')''] =
     Inr (LogicalNode ''OR'' (OperandNode ''a'' False)
       (LogicalNode ''AND'' (NotNode (OperandNode ''b'' False))
          (LogicalNode ''OR'' (OperandNode ''c'' False) (OperandNode '':d'' True))), [])"
  using parse_printed [of "LogicalNode ''OR'' (OperandNode ''a'' False)
       (LogicalNode ''AND'' (NotNode (OperandNode ''b'' False))
          (LogicalNode ''OR'' (OperandNode ''c'' False) (OperandNode '':d'' True)))"]
  by (simp add: plainWord_def hasPrefix_def paren_def)

end
