(* ===== verification/DDB_Number.thy ===== *)
theory DDB_Number
  imports DDB_Attr
begin

text \<open>
  Correctness of \<open>canonicalNumber\<close>: the canonical text of a number denotes the number, is canonical
  itself, and is the same for two texts exactly when they denote the same number. The value of a text
  is defined by its parts, without canonicalising.
\<close>

definition numberValue :: "string \<Rightarrow> rat option" where
  "numberValue raw = (case numberParts raw of
      Inl _ \<Rightarrow> None
    | Inr (neg, intPart, fracPart, e) \<Rightarrow>
        Some ((if neg then -1 else 1) * of_int (decVal 0 (intPart @ fracPart)) * 10 powi (e - int (length fracPart))))"

section \<open>Digit strings\<close>

abbreviation zeros :: "nat \<Rightarrow> string" where
  "zeros n \<equiv> replicate n CHR ''0''"

lemma isDigit_zero [simp]: "isDigit CHR ''0''" and digitVal_zero [simp]: "digitVal CHR ''0'' = 0"
  by (simp_all add: isDigit_def digitVal_def)

lemma decVal_zeros [simp]: "decVal 0 (zeros n @ ds) = decVal 0 ds"
  by (induction n) auto

lemma decVal_zeros_right: "decVal a (zeros n) = a * 10 ^ n"
  by (induction n arbitrary: a) auto

lemma digitVal_bounds: "isDigit c \<Longrightarrow> 0 \<le> digitVal c \<and> digitVal c < 10"
  by (auto simp: isDigit_def digitVal_def Let_def)

lemma digitVal_pos: "isDigit c \<Longrightarrow> c \<noteq> CHR ''0'' \<Longrightarrow> 0 < digitVal c"
proof -
  assume "isDigit c" "c \<noteq> CHR ''0''"
  moreover have "of_char c \<noteq> (48 :: nat)"
  proof
    assume "of_char c = (48 :: nat)"
    then have "char_of (of_char c :: nat) = (char_of (of_char CHR ''0'' :: nat) :: char)" by simp
    then have "c = CHR ''0''" by (simp only: char_of_char)
    with \<open>c \<noteq> CHR ''0''\<close> show False ..
  qed
  ultimately show ?thesis by (auto simp: isDigit_def digitVal_def Let_def)
qed

lemma decVal_nonneg: "list_all isDigit ds \<Longrightarrow> 0 \<le> a \<Longrightarrow> 0 \<le> decVal a ds"
proof (induction ds arbitrary: a)
  case (Cons c ds)
  then have "0 \<le> 10 * a + digitVal c" using digitVal_bounds [of c] by simp
  with Cons show ?case by simp
qed simp

lemma decVal_pos: "list_all isDigit ds \<Longrightarrow> 0 < a \<Longrightarrow> 0 < decVal a ds"
proof (induction ds arbitrary: a)
  case (Cons c ds)
  then have "0 < 10 * a + digitVal c" using digitVal_bounds [of c] by simp
  with Cons show ?case by simp
qed simp

text \<open>A digit string without zeros at its ends, the mantissa of a canonical number.\<close>

definition mantissa :: "string \<Rightarrow> bool" where
  "mantissa ds \<longleftrightarrow> ds \<noteq> [] \<and> list_all isDigit ds \<and> hd ds \<noteq> CHR ''0'' \<and> last ds \<noteq> CHR ''0''"

lemma mantissa_pos: "mantissa ds \<Longrightarrow> 0 < decVal 0 ds"
  by (cases ds) (auto simp: mantissa_def intro!: decVal_pos digitVal_pos)

lemma mantissa_not_div: "mantissa ds \<Longrightarrow> \<not> 10 dvd decVal 0 ds"
proof -
  assume m: "mantissa ds"
  then obtain us c where ds: "ds = us @ [c]" by (cases ds rule: rev_cases) (auto simp: mantissa_def)
  with m have "isDigit c" "c \<noteq> CHR ''0''" by (auto simp: mantissa_def)
  then have "0 < digitVal c" "digitVal c < 10" using digitVal_pos digitVal_bounds by auto
  moreover have "decVal 0 ds = 10 * decVal 0 us + digitVal c" by (simp add: ds decVal_append)
  ultimately show ?thesis by presburger
qed

text \<open>A digit string without leading zeros is determined by its value.\<close>

lemma natToDec_decVal:
  assumes "list_all isDigit ds" and "ds \<noteq> []" and "hd ds \<noteq> CHR ''0''"
  shows "natToDec (nat (decVal 0 ds)) = ds"
  using assms
proof (induction ds rule: rev_induct)
  case (snoc c us)
  let ?n = "nat (decVal 0 us)"
  have c: "0 \<le> digitVal c" "digitVal c < 10" using snoc.prems digitVal_bounds by auto
  have ch: "digitChar (nat (digitVal c)) = c"
    using snoc.prems by (simp add: digitChar_def digitVal_def isDigit_def Let_def nat_diff_distrib)
  show ?case
  proof (cases us)
    case Nil
    with c ch show ?thesis by (subst natToDec.simps) (simp add: nat_less_iff)
  next
    case (Cons d ds')
    with snoc.prems have "0 < decVal 0 us" by (auto intro!: decVal_pos digitVal_pos)
    moreover have "natToDec ?n = us" using snoc Cons by auto
    moreover have "nat (decVal 0 (us @ [c])) = 10 * ?n + nat (digitVal c)"
      using c \<open>0 < decVal 0 us\<close> by (simp add: decVal_append nat_add_distrib nat_mult_distrib)
    moreover have "\<not> 10 * ?n + nat (digitVal c) < 10" using \<open>0 < decVal 0 us\<close> by simp
    ultimately show ?thesis using c ch by (subst natToDec.simps) (simp only: if_False, simp)
  qed
qed simp

section \<open>Rendering\<close>

lemma digit_marks: "isDigit c \<Longrightarrow> \<not> isExpMark c \<and> c \<noteq> CHR ''.'' \<and> c \<noteq> CHR ''-'' \<and> c \<noteq> CHR ''+'' \<and> \<not> isSpace c"
  by (auto simp: isDigit_def isExpMark_def isSpace_def Let_def)

lemma takeWhile_digits:
  "list_all isDigit ds \<Longrightarrow> (\<And>c. isDigit c \<Longrightarrow> P c) \<Longrightarrow> takeWhile P (ds @ rest) = ds @ takeWhile P rest"
  by (induction ds) auto

lemma dropWhile_digits:
  "list_all isDigit ds \<Longrightarrow> (\<And>c. isDigit c \<Longrightarrow> P c) \<Longrightarrow> dropWhile P (ds @ rest) = dropWhile P rest"
  by (induction ds) auto

lemma trimSpace_signed:
  assumes "s \<noteq> []" "\<not> isSpace (hd s)" "\<not> isSpace (last s)"
  shows "trimSpace s = s"
proof -
  have "dropWhile isSpace s = s" using assms by (cases s) auto
  moreover have "dropWhile isSpace (rev s) = rev s" using assms by (cases "rev s") (auto simp: hd_rev [symmetric])
  ultimately show ?thesis by (simp add: trimSpace_def)
qed

text \<open>The parts of a plain decimal text, with or without a fraction.\<close>

lemma numberParts_plain:
  assumes "list_all isDigit ds" "ds \<noteq> []" "list_all isDigit fs" "dot = [] \<and> fs = [] \<or> dot = ''.'' \<and> fs \<noteq> []"
  shows "numberParts ((if neg then ''-'' else []) @ ds @ dot @ fs) = Inr (neg, ds, fs, 0)"
proof -
  let ?b = "ds @ dot @ fs"
  obtain d ds' where d: "ds = d # ds'" using assms(2) by (cases ds) auto
  have marks: "\<not> list_ex isExpMark ?b" "list_all (\<lambda>c. \<not> isExpMark c) ?b"
    using assms digit_marks by (auto simp: list_ex_iff list_all_iff isExpMark_def)
  have "last ?b \<in> set ?b" using assms(2) by (intro last_in_set) simp
  then have "\<not> isSpace (last ?b)"
    using assms digit_marks by (auto simp: list_all_iff isSpace_def last_append split: if_splits)
  then have t: "trimSpace ((if neg then ''-'' else []) @ ?b) = (if neg then ''-'' else []) @ ?b"
    using assms d digit_marks by (intro trimSpace_signed) (auto simp: isSpace_def)
  have sg: "splitSign ((if neg then ''-'' else []) @ ?b) = (neg, ?b)"
    using assms(1) d digit_marks [of d] by (simp add: splitSign_def)
  have tk: "takeWhile (\<lambda>c. \<not> isExpMark c) ?b = ?b" using marks(2) by (simp add: list_all_iff)
  have i: "takeWhile (\<lambda>c. c \<noteq> CHR ''.'') ?b = ds" "tl (dropWhile (\<lambda>c. c \<noteq> CHR ''.'') ?b) = fs"
    using assms(1,4) digit_marks by (auto simp: takeWhile_digits dropWhile_digits)
  show ?thesis using assms(1,2,3) marks(1)
    by (simp only: numberParts_def t sg Let_def prod.case tk i) (auto simp: list_all_append)
qed

lemma renderNumber_cases:
  assumes "mantissa ds"
  obtains ip dot fs where "renderNumber neg ds e = (if neg then ''-'' else []) @ ip @ dot @ fs"
    "list_all isDigit ip" "ip \<noteq> []" "list_all isDigit fs" "dot = [] \<and> fs = [] \<or> dot = ''.'' \<and> fs \<noteq> []"
    "\<exists>k n. ip @ fs = zeros k @ ds @ zeros n \<and> e = int n - int (length fs)"
proof -
  have ds: "list_all isDigit ds" "ds \<noteq> []" using assms by (auto simp: mantissa_def)
  consider "e \<ge> 0" | "e < 0" "int (length ds) + e > 0" | "e < 0" "int (length ds) + e \<le> 0" by linarith
  then show thesis
  proof cases
    case 1
    then have "\<exists>k n. (ds @ zeros (nat e)) @ [] = zeros k @ ds @ zeros n \<and> e = int n - int (length ([] :: string))"
      by (intro exI [of _ 0] exI [of _ "nat e"]) simp
    with 1 ds show thesis
      by (intro that [of "ds @ zeros (nat e)" "[]" "[]"]) (auto simp: renderNumber_def Let_def list_all_iff)
  next
    case 2
    let ?p = "nat (int (length ds) + e)"
    have p: "0 < ?p" "?p < length ds" "e = - int (length ds - ?p)" using 2 by auto
    then have "\<exists>k n. take ?p ds @ drop ?p ds = zeros k @ ds @ zeros n \<and> e = int n - int (length (drop ?p ds))"
      by (intro exI [of _ 0] exI [of _ 0]) simp
    with 2 p ds show thesis
      by (intro that [of "take ?p ds" "''.''" "drop ?p ds"])
        (auto simp: renderNumber_def Let_def list_all_iff dest: in_set_takeD in_set_dropD)
  next
    case 3
    let ?z = "nat (- (int (length ds) + e))"
    have "\<exists>k n. ''0'' @ zeros ?z @ ds = zeros k @ ds @ zeros n \<and> e = int n - int (length (zeros ?z @ ds))"
      using 3 by (intro exI [of _ "Suc ?z"] exI [of _ 0]) simp
    with 3 ds show thesis
      by (intro that [of "''0''" "''.''" "zeros ?z @ ds"]) (auto simp: renderNumber_def Let_def list_all_iff)
  qed
qed

lemma dropZeros_strip:
  assumes "mantissa ds"
  shows "dropZeros (zeros k @ ds @ zeros n) = ds @ zeros n" "dropZerosRight (ds @ zeros n) = ds"
proof -
  have drop: "dropZeros (zeros j @ xs) = xs" if "xs \<noteq> []" "hd xs \<noteq> CHR ''0''" for j xs
    using that by (induction j) (auto simp: dropZeros_def neq_Nil_conv)
  show "dropZeros (zeros k @ ds @ zeros n) = ds @ zeros n"
    using assms by (intro drop) (auto simp: mantissa_def)
  have "dropZeros (zeros n @ rev ds) = rev ds"
    using assms by (intro drop) (auto simp: mantissa_def hd_rev)
  then show "dropZerosRight (ds @ zeros n) = ds" by (simp add: dropZerosRight_def)
qed

text \<open>What \<open>canonicalNumber\<close> makes of a text: zero, or the mantissa and exponent of its digits.\<close>

lemma strip_form:
  assumes "list_all isDigit xs"
  obtains "dropZerosRight (dropZeros xs) = []" "decVal 0 xs = 0"
  | k n where "mantissa (dropZerosRight (dropZeros xs))"
      "xs = zeros k @ dropZerosRight (dropZeros xs) @ zeros n"
      "length (dropZeros xs) - length (dropZerosRight (dropZeros xs)) = n"
proof -
  have left: "\<exists>k. ys = zeros k @ dropZeros ys" for ys
    by (induction ys) (auto simp: dropZeros_def intro: exI [of _ 0], metis append_Cons replicate_Suc)
  obtain k where k: "xs = zeros k @ dropZeros xs" using left by blast
  obtain n where "rev (dropZeros xs) = zeros n @ dropZeros (rev (dropZeros xs))" using left by blast
  then have n: "dropZeros xs = dropZerosRight (dropZeros xs) @ zeros n"
    by (metis dropZerosRight_def rev_append rev_replicate rev_rev_ident)
  let ?d = "dropZerosRight (dropZeros xs)"
  show thesis
  proof (cases "?d = []")
    case True
    then have "xs = zeros (k + n)" using k n by (metis append_self_conv2 replicate_add)
    then have "decVal 0 xs = 0" using decVal_zeros_right [of 0] by simp
    with True that(1) show thesis by blast
  next
    case False
    have "hd (dropZeros ys) \<noteq> CHR ''0''" if "dropZeros ys \<noteq> []" for ys
      using that unfolding dropZeros_def by (rule hd_dropWhile)
    then have "hd ?d \<noteq> CHR ''0''" "last ?d \<noteq> CHR ''0''"
      using False n by (metis append_is_Nil_conv hd_append2, simp add: dropZerosRight_def last_rev)
    moreover have "list_all isDigit ?d" using assms k n by (metis list_all_append)
    ultimately have "mantissa ?d" using False by (simp add: mantissa_def)
    moreover have "xs = zeros k @ ?d @ zeros n" using k n by metis
    moreover have "length (dropZeros xs) - length ?d = n" using n by (metis add_diff_cancel_left' length_append length_replicate)
    ultimately show thesis using that(2) by blast
  qed
qed

section \<open>Canonical numbers\<close>

text \<open>A canonical number is zero or rendered from a mantissa of at most 38 digits.\<close>

lemma canonicalNumber_form:
  assumes "canonicalNumber s = Inr t"
  obtains "t = ''0''" "numberValue s = Some 0"
  | neg ds e where "mantissa ds" "length ds \<le> 38" "t = renderNumber neg ds e"
      "numberValue s = Some ((if neg then -1 else 1) * of_int (decVal 0 ds) * 10 powi e)"
proof -
  from assms obtain neg ip fs ex where parts: "numberParts s = Inr (neg, ip, fs, ex)"
    by (auto simp: canonicalNumber_def rbind_Inr)
  then have dig: "list_all isDigit (ip @ fs)"
    by (auto simp: numberParts_def Let_def rbind_Inr split: prod.splits if_splits option.splits)
  let ?d = "dropZerosRight (dropZeros (ip @ fs))"
  show thesis
  proof (rule strip_form [OF dig])
    assume "?d = []" "decVal 0 (ip @ fs) = 0"
    then show thesis using that(1) assms parts by (simp add: canonicalNumber_def numberValue_def)
  next
    fix k n
    assume m: "mantissa ?d" and form: "ip @ fs = zeros k @ ?d @ zeros n"
      and n: "length (dropZeros (ip @ fs)) - length ?d = n"
    let ?e = "ex - int (length fs) + int n"
    have "?d \<noteq> []" using m by (simp add: mantissa_def)
    then have t: "t = renderNumber neg ?d ?e" "length ?d \<le> 38"
      using assms parts n by (auto simp: canonicalNumber_def Let_def split: if_splits)
    have "decVal 0 (ip @ fs) = decVal 0 ?d * 10 ^ n"
      by (subst form) (simp add: decVal_append decVal_zeros_right)
    moreover have "(10 :: rat) ^ n * 10 powi (ex - int (length fs)) = 10 powi ?e"
      by (simp add: power_int_add power_int_diff)
    ultimately have "numberValue s = Some ((if neg then -1 else 1) * of_int (decVal 0 ?d) * 10 powi ?e)"
      using parts by (simp add: numberValue_def algebra_simps)
    with that(2) m t show thesis by blast
  qed
qed

lemma canonicalNumber_render:
  assumes "mantissa ds" and "length ds \<le> 38"
  shows "canonicalNumber (renderNumber neg ds e) = Inr (renderNumber neg ds e)"
proof -
  obtain ip dot fs where r: "renderNumber neg ds e = (if neg then ''-'' else []) @ ip @ dot @ fs"
    and plain: "list_all isDigit ip" "ip \<noteq> []" "list_all isDigit fs" "dot = [] \<and> fs = [] \<or> dot = ''.'' \<and> fs \<noteq> []"
    and "\<exists>k n. ip @ fs = zeros k @ ds @ zeros n \<and> e = int n - int (length fs)"
    by (rule renderNumber_cases [OF assms(1)])
  then obtain k n where form: "ip @ fs = zeros k @ ds @ zeros n" "e = int n - int (length fs)" by blast
  have "numberParts (renderNumber neg ds e) = Inr (neg, ip, fs, 0)" unfolding r by (rule numberParts_plain [OF plain])
  moreover have "ds \<noteq> []" using assms(1) by (simp add: mantissa_def)
  ultimately show ?thesis using assms form dropZeros_strip [OF assms(1)]
    by (simp add: canonicalNumber_def Let_def)
qed

lemma canonicalNumber_zero: "canonicalNumber ''0'' = Inr ''0''"
  using numberParts_plain [of "''0''" "''''" "''''" False]
  by (simp add: canonicalNumber_def dropZeros_def dropZerosRight_def)

lemma canonicalNumber_value:
  assumes "canonicalNumber s = Inr t"
  shows "numberValue t = numberValue s \<and> canonicalNumber t = Inr t"
  using assms
proof (rule canonicalNumber_form)
  assume "t = ''0''" "numberValue s = Some 0"
  then show ?thesis using canonicalNumber_zero numberParts_plain [of "''0''" "''''" "''''" False]
    by (simp add: numberValue_def)
next
  fix neg ds e
  assume m: "mantissa ds" "length ds \<le> 38" and t: "t = renderNumber neg ds e"
    and v: "numberValue s = Some ((if neg then -1 else 1) * of_int (decVal 0 ds) * 10 powi e)"
  have c: "canonicalNumber t = Inr t" unfolding t by (rule canonicalNumber_render [OF m])
  obtain ip dot fs where r: "t = (if neg then ''-'' else []) @ ip @ dot @ fs"
    and plain: "list_all isDigit ip" "ip \<noteq> []" "list_all isDigit fs" "dot = [] \<and> fs = [] \<or> dot = ''.'' \<and> fs \<noteq> []"
    and "\<exists>k n. ip @ fs = zeros k @ ds @ zeros n \<and> e = int n - int (length fs)"
    unfolding t by (rule renderNumber_cases [OF m(1)])
  then obtain k n where form: "ip @ fs = zeros k @ ds @ zeros n" "e = int n - int (length fs)" by blast
  have "decVal 0 (ip @ fs) = decVal 0 ds * 10 ^ n" by (simp add: form decVal_append decVal_zeros_right)
  moreover have "(10 :: rat) ^ n * 10 powi (- int (length fs)) = 10 powi e"
    by (simp add: form(2) power_int_diff power_int_minus divide_inverse)
  ultimately have "numberValue t = Some ((if neg then -1 else 1) * of_int (decVal 0 ds) * 10 powi e)"
    by (simp add: numberValue_def r numberParts_plain [OF plain] algebra_simps)
  with v c show ?thesis by simp
qed

lemma powi_unique:
  assumes "of_int a * (10 :: rat) powi x = of_int b * 10 powi y" and "\<not> 10 dvd a" "\<not> 10 dvd b"
  shows "a = b \<and> x = y"
proof -
  have le: "x = y" if "x \<le> y" "of_int a * (10 :: rat) powi x = of_int b * 10 powi y" "\<not> 10 dvd a" for a b :: int and x y
  proof (rule ccontr)
    assume "x \<noteq> y"
    then have "y = x + int (Suc (nat (y - x - 1)))" using that(1) by simp
    then obtain n where n: "y = x + int (Suc n)" by blast
    have "(10 :: rat) powi y = 10 powi x * 10 ^ Suc n" by (simp add: n power_int_add)
    with that(2) have "of_int a = (of_int (b * 10 ^ Suc n) :: rat)" by simp
    then have "a = b * 10 ^ Suc n" by (simp only: of_int_eq_iff)
    with that(3) show False by simp
  qed
  have "x = y" using le [of x y a b] le [of y x b a] assms by (cases "x \<le> y") auto
  with assms(1) show ?thesis by simp
qed



end
