(* ===== verification/DDB_Updates.thy ===== *)
theory DDB_Updates
  imports DDB_Language DDB_Number
begin

text \<open>
  Properties of update expressions: a value written at a document path is read back there and nothing
  else at the top level changes; ADD and DELETE on sets are union and difference; sums that end in
  zeros lose them; and what follows a complete condition is ignored.
\<close>

section \<open>Document paths\<close>

lemma nestedMap_putNested [simp]: "nestedMap (putNested ''M'' (JObj m) cur) = Some m"
  by (simp add: putNested_def)

lemma nestedList_putNested [simp]: "nestedList (putNested ''L'' (JArr l) cur) = Some l"
  by (simp add: putNested_def)

text \<open>A path that ends in a name ends in a map, not in an attribute of another kind.\<close>

fun docPath :: "json \<Rightarrow> pathSegment list \<Rightarrow> bool" where
  "docPath current [] = False"
| "docPath current [seg] = (seg_isIndex seg \<or> nestedMap current \<noteq> None)"
| "docPath current (seg # nxt # segs) =
     (if \<not> seg_isIndex seg then
        (case nestedMap current of
           None \<Rightarrow> False
         | Some nested \<Rightarrow> (case childOrNew (map_of nested (seg_name seg)) nxt of
               Inl _ \<Rightarrow> False
             | Inr child \<Rightarrow> docPath child (nxt # segs)))
      else (case nestedList current of
           None \<Rightarrow> False
         | Some list \<Rightarrow> inRange (seg_index seg) list \<and> docPath (list ! nat (seg_index seg)) (nxt # segs)))"

lemma inRange_update: "inRange i (list[j := v]) = inRange i list"
  by (simp add: inRange_def)

lemma assignNested_get:
  "assignNested current path w = Inr current' \<Longrightarrow> docPath current path \<Longrightarrow> getNested current' path = Some w"
proof (induction current path w arbitrary: current' rule: assignNested.induct)
  case (2 current seg w)
  then show ?case by (auto simp: badPath_def inRange_update split: if_splits option.splits) (auto simp: inRange_def)
next
  case (3 current seg nxt segs w)
  show ?case
  proof (cases "seg_isIndex seg")
    case True
    with "3.prems" obtain list child' where l: "nestedList current = Some list" "inRange (seg_index seg) list"
      "assignNested (list ! nat (seg_index seg)) (nxt # segs) w = Inr child'" "docPath (list ! nat (seg_index seg)) (nxt # segs)"
      "current' = putNested ''L'' (JArr (list[nat (seg_index seg) := child'])) current"
      by (auto simp: badPath_def rbind_Inr split: if_splits option.splits)
    from "3.IH"(2) True l have "getNested child' (nxt # segs) = Some w" by auto
    with True l show ?thesis by (auto simp: inRange_update) (auto simp: inRange_def)
  next
    case False
    with "3.prems" obtain nested child child' where l: "nestedMap current = Some nested"
      "childOrNew (map_of nested (seg_name seg)) nxt = Inr child"
      "assignNested child (nxt # segs) w = Inr child'" "docPath child (nxt # segs)"
      "current' = putNested ''M'' (JObj (AList.update (seg_name seg) child' nested)) current"
      by (auto simp: badPath_def rbind_Inr split: if_splits option.splits)
    from "3.IH"(1) False l have "getNested child' (nxt # segs) = Some w" by auto
    with False l show ?thesis by auto
  qed
qed (simp_all add: badPath_def)

definition rootPath :: "json_object \<Rightarrow> pathSegment list \<Rightarrow> bool" where
  "rootPath item path \<longleftrightarrow> (case path of
      [] \<Rightarrow> False
    | [seg] \<Rightarrow> \<not> seg_isIndex seg
    | seg # nxt # segs \<Rightarrow> \<not> seg_isIndex seg \<and> (case childOrNew (map_of item (seg_name seg)) nxt of
         Inl _ \<Rightarrow> False
       | Inr child \<Rightarrow> docPath child (nxt # segs)))"

text \<open>A value assigned at a document path that runs through maps and lists is what the path then selects,
  missing maps on the way are created, and every other attribute of the item keeps its value.\<close>

theorem assign_then_get:
  assumes "assignPathValue item path value = Inr item'" and "rootPath item path"
  shows "getPathValue item' path = Some value \<and>
    (\<forall>name. name = seg_name (hd path) \<or> map_of item' name = map_of item name)"
proof (cases path)
  case (Cons seg rest)
  show ?thesis
  proof (cases rest)
    case Nil
    with assms Cons show ?thesis by (auto simp: assignPathValue_def rootPath_def getPathValue_def split: if_splits)
  next
    case rest: (Cons nxt segs)
    with assms Cons obtain child child' where "childOrNew (map_of item (seg_name seg)) nxt = Inr child"
      and c: "assignNested child (nxt # segs) value = Inr child'" "docPath child (nxt # segs)" "\<not> seg_isIndex seg"
        "item' = AList.update (seg_name seg) child' item"
      by (auto simp: assignPathValue_def rootPath_def rbind_Inr split: sum.splits)
    with assignNested_get [OF c(1,2)] Cons rest show ?thesis by (auto simp: getPathValue_def simp del: getNested.simps split: if_splits)
  qed
qed (use assms in \<open>simp add: rootPath_def\<close>)

theorem assign_then_get_witness:
  "getPathValue [(''a'', JObj [(''M'', JObj [(''b'', JObj [(''S'', JStr ''x'')])])]), (''c'', JObj [(''BOOL'', JBool True)])]
     [nameSeg ''a'', nameSeg ''b''] = Some (JObj [(''S'', JStr ''x'')])"
proof -
  let ?item = "[(''a'', JObj [(''M'', JObj [])]), (''c'', JObj [(''BOOL'', JBool True)])]"
  have a: "assignPathValue ?item [nameSeg ''a'', nameSeg ''b''] (JObj [(''S'', JStr ''x'')]) =
      Inr [(''a'', JObj [(''M'', JObj [(''b'', JObj [(''S'', JStr ''x'')])])]), (''c'', JObj [(''BOOL'', JBool True)])]"
    by (simp add: assignPathValue_def nameSeg_def childOrNew_def putNested_def)
  have "rootPath ?item [nameSeg ''a'', nameSeg ''b'']" by (simp add: rootPath_def nameSeg_def childOrNew_def)
  with assign_then_get [OF a] show ?thesis by simp
qed

section \<open>Sets\<close>

abbreviation setAttr :: "string \<Rightarrow> string list \<Rightarrow> json" where
  "setAttr kind xs \<equiv> JObj [(kind, JArr (map JStr xs))]"

lemma fold_seen:
  "map fst (fold (\<lambda>entry m. AList.update (sprintMember E entry) entry m) (map JStr xs) m) =
     map fst (fold (\<lambda>x m. AList.update x (JStr x) m) xs m)"
  "fold (\<lambda>entry m. AList.update (sprintMember E entry) entry m) (map JStr xs) m = fold (\<lambda>x m. AList.update x (JStr x) m) xs m"
  by (induction xs arbitrary: m) auto

lemma fold_seen_props:
  "distinct (map fst m) \<Longrightarrow> distinct (map fst (fold (\<lambda>x m. AList.update x (JStr x) m) xs m))"
  "map_of (fold (\<lambda>x m. AList.update x (JStr x) m) xs m) k = (if k \<in> set xs then Some (JStr k) else map_of m k)"
proof -
  show "distinct (map fst m) \<Longrightarrow> distinct (map fst (fold (\<lambda>x m. AList.update x (JStr x) m) xs m))"
    by (induction xs arbitrary: m) simp_all
  show "map_of (fold (\<lambda>x m. AList.update x (JStr x) m) xs m) k = (if k \<in> set xs then Some (JStr k) else map_of m k)"
    by (induction xs arbitrary: m) simp_all
qed

text \<open>ADD on two string, number or binary sets gives their union, sorted and without duplicates; DELETE gives
  what the existing set has and the operand has not, in the existing order, and nothing when that is empty.\<close>

theorem set_updates:
  assumes "kind = ''SS'' \<or> kind = ''NS'' \<or> kind = ''BS''"
  shows "addAttribute E (setAttr kind xs) (setAttr kind ys) = Inr (setAttr kind (sorted_list_of_set (set xs \<union> set ys))) \<and>
    deleteFromSet E (setAttr kind xs) (setAttr kind ys) =
      Inr (let out = filter (\<lambda>x. x \<notin> set ys) xs in if out = [] then None else Some (setAttr kind out))"
proof -
  let ?seen = "fold (\<lambda>x m. AList.update x (JStr x) m) (xs @ ys) []"
  have p: "distinct (map fst ?seen)" "map_of ?seen k = (if k \<in> set (xs @ ys) then Some (JStr k) else None)" for k
    using fold_seen_props(1) [of "[]" "xs @ ys"] fold_seen_props(2) [of "xs @ ys" "[]"] by simp_all
  have dom: "set (map fst ?seen) = set xs \<union> set ys"
  proof (rule set_eqI)
    fix k
    have "k \<in> set (map fst ?seen) \<longleftrightarrow> map_of ?seen k \<noteq> None" by (auto simp: map_of_eq_None_iff image_iff)
    then show "k \<in> set (map fst ?seen) \<longleftrightarrow> k \<in> set xs \<union> set ys" using p(2) [of k] by (auto split: if_splits)
  qed
  have sorted: "sort (map fst ?seen) = sorted_list_of_set (set xs \<union> set ys)"
    using p(1) dom by (metis distinct_remdups_id sorted_list_of_set_sort_remdups)
  have "map (\<lambda>key. the (map_of ?seen key)) (sort (map fst ?seen)) = map JStr (sort (map fst ?seen))"
    using dom p(2) by (intro map_cong) auto
  then have a: "addAttribute E (setAttr kind xs) (setAttr kind ys) = Inr (setAttr kind (sorted_list_of_set (set xs \<union> set ys)))"
    using assms by (auto simp: addAttribute_def Let_def fold_seen(2) sorted simp flip: map_append fold_append)
  have f: "filter (\<lambda>entry. sprintMember E entry \<notin> set (map (sprintMember E) (map JStr ys))) (map JStr xs) =
      map JStr (filter (\<lambda>x. x \<notin> set ys) xs)"
    by (induction xs) (auto simp: image_iff)
  show ?thesis using assms a by (auto simp: deleteFromSet_def Let_def f simp del: set_map map_map)
qed

definition demoDdb :: ddb_env where
  "demoDdb = \<lparr>Marshal = (\<lambda>v. ''''), SprintAny = (\<lambda>v. ''''), ParseBig = (\<lambda>s. map_option of_int (atoi s)),
     AddBig = (\<lambda>a b. a + b), SubBig = (\<lambda>a b. a - b), TextBig = (\<lambda>v. itoa \<lfloor>v\<rfloor>)\<rparr>"

theorem set_updates_witness:
  "addAttribute demoDdb (setAttr ''SS'' [''b'', ''a'']) (setAttr ''SS'' [''c'', ''b'']) = Inr (setAttr ''SS'' [''a'', ''b'', ''c'']) \<and>
    deleteFromSet demoDdb (setAttr ''SS'' [''b'', ''a'']) (setAttr ''SS'' [''c'', ''b'']) = Inr (Some (setAttr ''SS'' [''a'']))"
proof -
  have "sorted_list_of_set (set [''b'', ''a''] \<union> set [''c'', ''b'']) = [''a'', ''b'', ''c'']"
  proof -
    have "sort (remdups ([''b'', ''a''] @ [''c'', ''b''])) = [''a'', ''b'', ''c'']" by code_simp
    then show ?thesis by (simp only: sorted_list_of_set_sort_remdups flip: set_append)
  qed
  with set_updates [of "''SS''" demoDdb "[''b'', ''a'']" "[''c'', ''b'']"] show ?thesis by (simp add: Let_def)
qed

section \<open>Arithmetic\<close>

lemma trimRightChar_split: "\<exists>k. s = trimRightChar c s @ replicate k c"
proof -
  have "\<exists>k. us = replicate k c @ dropWhile (\<lambda>x. x = c) us" for us
  proof -
    let ?p = "takeWhile (\<lambda>x. x = c) us"
    have "?p @ dropWhile (\<lambda>x. x = c) us = us" by (rule takeWhile_dropWhile_id)
    moreover have "replicate (length ?p) c = ?p" by (rule replicate_length_same) (auto dest: set_takeWhileD)
    ultimately have "us = replicate (length ?p) c @ dropWhile (\<lambda>x. x = c) us" by presburger
    then show ?thesis ..
  qed
  then obtain k where "rev s = replicate k c @ dropWhile (\<lambda>x. x = c) (rev s)" by blast
  then have "s = rev (dropWhile (\<lambda>x. x = c) (rev s)) @ replicate k c"
    by (metis rev_append rev_replicate rev_rev_ident)
  then show ?thesis unfolding trimRightChar_def by blast
qed

lemma trimRightChar_id: "c \<notin> set s \<Longrightarrow> trimRightChar c s = s"
proof -
  assume "c \<notin> set s"
  then have "dropWhile (\<lambda>x. x = c) (rev s) = rev s"
    unfolding dropWhile_eq_self_iff by (cases s rule: rev_cases) auto
  then show ?thesis by (simp add: trimRightChar_def)
qed

text \<open>A sum that is a multiple of ten is stored without its trailing zeros, so as a smaller number: the code
  strips zeros from the text of the sum also when it has no decimal point.\<close>

theorem sum_loses_trailing_zeros:
  assumes "asNumber E left = Some a" and "asNumber E right = Some b"
    and "TextBig E (AddBig E a b) = natToDec (10 * n)" and "0 < n"
  shows "\<exists>t. arithmeticAttribute E left right ''+'' = Inr (JObj [(''N'', JStr t)]) \<and> decVal 0 t < int (10 * n)"
proof -
  let ?s = "natToDec (10 * n)"
  let ?t = "trimRightChar CHR ''0'' ?s"
  have "digitChar 0 = CHR ''0''" by code_simp
  then have s: "?s = natToDec n @ ''0''" using assms(4) by (subst natToDec.simps) simp
  obtain k where k: "natToDec n @ ''0'' = trimRightChar CHR ''0'' (natToDec n @ ''0'') @ zeros k"
    using trimRightChar_split by blast
  have "natToDec n = ?t @ zeros (k - 1) \<and> 0 < k"
  proof (cases k)
    case 0
    have "length (trimRightChar CHR ''0'' (natToDec n @ ''0'')) \<le> length (natToDec n)"
      by (simp add: trimRightChar_def) (metis length_dropWhile_le length_rev)
    moreover have "length (natToDec n @ ''0'') = length (trimRightChar CHR ''0'' (natToDec n @ ''0''))"
      using arg_cong [OF k, of length] 0 by simp
    ultimately show ?thesis by simp
  next
    case (Suc j)
    then have "natToDec n @ ''0'' = (?t @ zeros j) @ ''0''" using k s by (simp add: replicate_append_same)
    with Suc show ?thesis by simp
  qed
  then have n: "natToDec n = ?t @ zeros (k - 1)" ..
  have v: "int n = decVal 0 ?t * 10 ^ (k - 1)"
    using arg_cong [OF n, of "decVal 0"] by (simp add: decVal_natToDec decVal_append decVal_zeros_right)
  have dig: "list_all isDigit ?t" using natToDec_digits [of n] n by (metis list_all_append)
  have ne: "?t \<noteq> []" using v assms(4) by (cases "?t = []") auto
  have pos: "0 \<le> decVal 0 ?t" using dig by (rule decVal_nonneg) simp
  then have "decVal 0 ?t * 1 \<le> decVal 0 ?t * 10 ^ (k - 1)" by (intro mult_left_mono) simp_all
  then have "decVal 0 ?t < int (10 * n)" using v assms(4) by simp
  moreover have "CHR ''.'' \<notin> set ?t" "?t \<noteq> ''-''" using dig by (auto simp: list_all_iff isDigit_def)
  ultimately show ?thesis using assms ne trimRightChar_id [of "CHR ''.''" ?t] by (simp add: arithmeticAttribute_def Let_def)
qed

theorem sum_loses_trailing_zeros_witness:
  "\<exists>t. arithmeticAttribute demoDdb (JObj [(''N'', JStr ''9'')]) (JObj [(''N'', JStr ''1'')]) ''+'' = Inr (JObj [(''N'', JStr t)]) \<and>
     decVal 0 t < 10"
proof -
  have "asNumber demoDdb (JObj [(''N'', JStr ''9'')]) = Some 9" "asNumber demoDdb (JObj [(''N'', JStr ''1'')]) = Some 1"
    by (simp_all add: demoDdb_def atoi_def splitSign_def isDigit_def digitVal_def signed64_def in_int64_def Let_def)
  moreover have "TextBig demoDdb (AddBig demoDdb 9 1) = natToDec (10 * 1)" by (simp add: demoDdb_def itoa_def)
  ultimately show ?thesis using sum_loses_trailing_zeros [of demoDdb _ 9 _ 1 1] by fastforce
qed

section \<open>Text after a condition\<close>

text \<open>A condition is accepted with anything after it that does not continue it, and only its first expression
  counts: no error reports the words left over.\<close>

theorem trailing_text_ignored:
  assumes "tokenizeExpression expr = Some (printNode node @ word s # leftover)" and "trimSpace expr \<noteq> ''''"
    and "nodeOK node" and "plainWord s"
  shows "evaluateConditionExpression E expr item names values =
    Some (rbind (evalNode E item names values node) (\<lambda>(v, _). Inr (asBool v)))"
proof -
  let ?rest = "word s # leftover"
  have "\<not> continues ?rest" "\<not> peek ''AND'' ?rest" "\<not> peek ''OR'' ?rest"
    using assms(4) by (auto simp: continues_def plainWord_def)
  then have "settles (\<lambda>n. parseOr n (printNode node @ ?rest)) (node, ?rest)"
    using node_reads [OF assms(3)] loops_settle(1) unfolding orReads_def by blast
  from parseExpression_settles [OF this] show ?thesis
    using assms(1,2) by (simp add: evaluateConditionExpression_def)
qed

theorem trailing_text_ignored_witness:
  "evaluateConditionExpression demoDdb ''attribute_exists(a) attribute_exists(b)'' [(''a'', JObj [(''BOOL'', JBool True)])] [] [] =
     Some (Inr True)"
proof -
  let ?n = "FunctionNode ''attribute_exists'' [OperandNode ''a'' False]"
  have t: "tokenizeExpression ''attribute_exists(a) attribute_exists(b)'' =
      Some (printNode ?n @ word ''attribute_exists'' # [kw ''('', word ''b'', kw '')''])"
    by (simp add: tokenizeExpression.simps isBlank_def isExprChar_def wordToken_def toUpper_def upperChar_def word_def kw_def)
  have ok: "nodeOK ?n" by (simp add: plainWord_def equalFold_def toLower_def lowerChar_def hasPrefix_def)
  show ?thesis
    by (subst trailing_text_ignored [OF t _ ok])
      (simp_all add: plainWord_def trimSpace_def isSpace_def evalOperand_def resolvePath_def resolvePart_def stripIndexes.simps
        getPathValue_def nameSeg_def toLower_def lowerChar_def truth_def asBool_def)
qed

section \<open>A path below an attribute that is not a map\<close>

text \<open>Assigning to \<open>a.L\<close> where \<open>a\<close> is a list replaces the content of the list, and the item that is stored has
  an empty list: the last step of \<open>assignPathValue\<close> writes into the attribute value itself.\<close>

lemma assign_below_list_empties_it:
  "assignPathValue [(a, JObj [(''L'', JArr xs)])] [nameSeg a, nameSeg ''L''] (JObj m) = Inr [(a, JObj [(''L'', JObj m)])] \<and>
    canonicalizeItem E [(a, JObj [(''L'', JObj m)])] = Inr [(a, JObj [(''L'', JArr [])])]"
  by (simp add: assignPathValue_def nameSeg_def childOrNew_def)

end
