(* ===== verification/DDB_Table.thy ===== *)
theory DDB_Table
  imports DDB_Expr
begin

text \<open>
  DynamoDB tables (\<open>pkg/types/dynamodb.go\<close>, \<open>internal/dynamodb/store.go\<close>, \<open>table.go\<close> and the key
  functions of \<open>attr.go\<close>): definitions, keys and indexes, the state of a table with its items and its
  stream, and the rules keys and items are checked against. Times are in nanoseconds; the creation
  time of a stream record is in whole seconds, as the code sets it. The type of a closed channel is
  left out: \<open>ddb_wakes\<close> holds the number of the channel the readers of a stream wait on.
\<close>

section \<open>Definitions of tables\<close>

record DynamoDBAttributeDefinition =
  def_AttributeName :: string
  def_AttributeType :: string

record DynamoDBKeySchemaElement =
  key_AttributeName :: string
  key_KeyType :: string

record DynamoDBProjection =
  ProjectionType :: string
  NonKeyAttributes :: "string list"

record DynamoDBProvisionedThroughput =
  ReadCapacityUnits :: int
  WriteCapacityUnits :: int
  NumberOfDecreasesToday :: int

record DynamoDBWarmThroughput =
  ReadUnitsPerSecond :: int
  warm_Status :: string
  WriteUnitsPerSecond :: int

record DynamoDBLocalSecondaryIndex =
  lsi_IndexName :: string
  lsi_KeySchema :: "DynamoDBKeySchemaElement list"
  lsi_Projection :: DynamoDBProjection
  lsi_IndexArn :: string
  lsi_ItemCount :: int
  lsi_IndexSizeBytes :: int

record DynamoDBGlobalSecondaryIndex =
  gsi_IndexName :: string
  gsi_KeySchema :: "DynamoDBKeySchemaElement list"
  gsi_Projection :: DynamoDBProjection
  gsi_ProvisionedThroughput :: "DynamoDBProvisionedThroughput option"
  gsi_IndexStatus :: string
  gsi_WarmThroughput :: "DynamoDBWarmThroughput option"
  gsi_IndexArn :: string
  gsi_ItemCount :: int
  gsi_IndexSizeBytes :: int

record DynamoDBStreamSpecification =
  StreamEnabled :: bool
  spec_StreamViewType :: string

record DynamoDBTag =
  tag_Key :: string
  tag_Value :: string

record DynamoDBSSESpecification =
  sse_Enabled :: "bool option"
  sse_SSEType :: string
  sse_KMSMasterKeyId :: string

record DynamoDBSSEDescription =
  ssed_Status :: string
  ssed_SSEType :: string
  ssed_KMSMasterKeyArn :: string

record DynamoDBTable =
  TableName :: string
  TableArn :: string
  TableId :: string
  TableStatus :: string
  CreationDateTime :: rat
  AttributeDefinitions :: "DynamoDBAttributeDefinition list"
  KeySchema :: "DynamoDBKeySchemaElement list"
  BillingModeSummary :: "string option"
  TableClassSummary :: "string option"
  ProvisionedThroughput :: "DynamoDBProvisionedThroughput option"
  LocalSecondaryIndexes :: "DynamoDBLocalSecondaryIndex list"
  GlobalSecondaryIndexes :: "DynamoDBGlobalSecondaryIndex list"
  StreamSpecification :: "DynamoDBStreamSpecification option"
  LatestStreamArn :: string
  LatestStreamLabel :: string
  Tags :: "DynamoDBTag list"
  ItemCount :: int
  TableSizeBytes :: int
  WarmThroughput :: "DynamoDBWarmThroughput option"
  DeletionProtectionEnabled :: bool
  SSEDescription :: "DynamoDBSSEDescription option"
  SSESpecification :: "DynamoDBSSESpecification option"

section \<open>The state of a table and of the store\<close>

record StreamRecord =
  EventID :: string
  EventName :: string
  EventVersion :: string
  EventSource :: string
  AwsRegion :: string
  EventSourceARN :: string
  ApproximateCreationDateTime :: int
  Keys :: json_object
  NewImage :: "json_object option"
  OldImage :: "json_object option"
  SequenceNumber :: string
  SizeBytes :: int
  rec_StreamViewType :: string
  UserIdentity :: "(string \<times> string) option"

record streamState =
  stream_ARN :: string
  stream_Label :: string
  stream_ViewType :: string
  NextSeq :: int
  Records :: "StreamRecord list"
  LastPruned :: "int option"

record ttlState =
  ttl_AttributeName :: string
  ttl_Status :: string

record tableState =
  Table :: DynamoDBTable
  Items :: "(string \<times> json_object) list"
  Stream :: "streamState option"
  TTL :: "ttlState option"

record ddbStore =
  cfg_Region :: string
  cfg_AccountID :: string
  tables :: "(string \<times> tableState) list"
  ddb_wakes :: "(string \<times> nat) list"
  ddb_chans :: nat
  ddb_dirty :: bool
  mu_held :: bool

definition notFoundError :: "string \<Rightarrow> ddb_error" where
  "notFoundError msg = ServiceError ''ResourceNotFoundException'' msg None []"

definition normalizeTableIdentifier :: "string \<Rightarrow> string" where
  "normalizeTableIdentifier v =
     (let trimmed = trimSpace v in
      if trimmed = '''' then ''''
      else if \<not> hasPrefix trimmed ''arn:aws:dynamodb:'' then trimmed
      else (case indexOf trimmed ''table/'' of
          None \<Rightarrow> trimmed
        | Some idx \<Rightarrow> takeWhile (\<lambda>c. c \<noteq> CHR ''/'') (drop (idx + 6) trimmed)))"

definition getTableLocked :: "ddbStore \<Rightarrow> string \<Rightarrow> (string \<times> tableState) ddb_result" where
  "getTableLocked s name =
     (let key = normalizeTableIdentifier name in
      case map_of (tables s) key of
        None \<Rightarrow> Inl (notFoundError (''Requested resource not found: Table: '' @ name @ '' not found''))
      | Some state \<Rightarrow> Inr (key, state))"

section \<open>Keys\<close>

definition attributeTypeMap :: "DynamoDBAttributeDefinition list \<Rightarrow> (string \<times> string) list" where
  "attributeTypeMap defs = fold (\<lambda>d m. AList.update (def_AttributeName d) (def_AttributeType d) m) defs []"

definition typeOf :: "(string \<times> string) list \<Rightarrow> string \<Rightarrow> string" where
  "typeOf defined name = (case map_of defined name of None \<Rightarrow> '''' | Some t \<Rightarrow> t)"

fun buildKeyMap :: "json_object \<Rightarrow> DynamoDBKeySchemaElement list \<Rightarrow> json_object ddb_result" where
  "buildKeyMap item [] = Inr []"
| "buildKeyMap item (part # schema) = (case map_of item (key_AttributeName part) of
      None \<Rightarrow> Inl (validationError (''Missing key attribute '' @ key_AttributeName part))
    | Some v \<Rightarrow> rbind (buildKeyMap item schema) (\<lambda>out. Inr ((key_AttributeName part, v) # out)))"

fun keyParts :: "ddb_env \<Rightarrow> json_object \<Rightarrow> DynamoDBKeySchemaElement list \<Rightarrow> string list ddb_result" where
  "keyParts E key [] = Inr []"
| "keyParts E key (part # schema) = (case map_of key (key_AttributeName part) of
      None \<Rightarrow> Inl (validationError (''Missing key attribute '' @ key_AttributeName part))
    | Some v \<Rightarrow> rbind (keyParts E key schema) (\<lambda>parts. Inr ((key_AttributeName part @ ''='' @ Marshal E v) # parts)))"

fun joinBar :: "string list \<Rightarrow> string" where
  "joinBar [] = ''''"
| "joinBar [p] = p"
| "joinBar (p # ps) = p @ ''|'' @ joinBar ps"

definition serializeKey :: "ddb_env \<Rightarrow> json_object \<Rightarrow> DynamoDBKeySchemaElement list \<Rightarrow> string ddb_result" where
  "serializeKey E key schema = rbind (keyParts E key schema) (\<lambda>parts. Inr (joinBar parts))"

definition checkKeyType :: "string \<Rightarrow> string \<Rightarrow> json \<Rightarrow> string \<Rightarrow> ddb_error option" where
  "checkKeyType name want v index =
     (let got = attributeKind v in
      if want \<noteq> '''' \<and> got \<noteq> want then
        (if index \<noteq> '''' then
           Some (validationError (''One or more parameter values were invalid: Type mismatch for Index Key '' @ name @
             '' Expected: '' @ want @ '' Actual: '' @ got @ '' IndexName: '' @ index))
         else
           Some (validationError (''One or more parameter values were invalid: Type mismatch for key '' @ name @
             '' expected: '' @ want @ '' actual: '' @ got)))
      else (case v of
          JObj attr \<Rightarrow>
            if map_of attr ''S'' = Some (JStr '''') \<or> map_of attr ''B'' = Some (JStr '''') then
              Some (validationError (''One or more parameter values are not valid. The AttributeValue for a key attribute cannot contain an empty string value. Key: '' @ name))
            else None
        | _ \<Rightarrow> None))"

fun checkTableKeys :: "(string \<times> string) list \<Rightarrow> json_object \<Rightarrow> DynamoDBKeySchemaElement list \<Rightarrow> ddb_error option" where
  "checkTableKeys defined item [] = None"
| "checkTableKeys defined item (part # schema) =
     (let name = key_AttributeName part in
      case map_of item name of
        None \<Rightarrow> Some (validationError (''One or more parameter values were invalid: Missing the key '' @ name @ '' in the item''))
      | Some v \<Rightarrow>
          if v = JNull then Some (validationError (''One or more parameter values were invalid: Missing the key '' @ name @ '' in the item''))
          else (case checkKeyType name (typeOf defined name) v '''' of
              Some e \<Rightarrow> Some e
            | None \<Rightarrow> checkTableKeys defined item schema))"

fun checkIndexKeys ::
    "(string \<times> string) list \<Rightarrow> json_object \<Rightarrow> string \<Rightarrow> DynamoDBKeySchemaElement list \<Rightarrow> ddb_error option" where
  "checkIndexKeys defined item index [] = None"
| "checkIndexKeys defined item index (part # schema) =
     (let name = key_AttributeName part in
      case map_of item name of
        None \<Rightarrow> checkIndexKeys defined item index schema
      | Some v \<Rightarrow> (case checkKeyType name (typeOf defined name) v index of
            Some e \<Rightarrow> Some e
          | None \<Rightarrow> checkIndexKeys defined item index schema))"

fun firstError :: "ddb_error option list \<Rightarrow> ddb_error option" where
  "firstError [] = None"
| "firstError (Some e # es) = Some e"
| "firstError (None # es) = firstError es"

definition validateItem :: "DynamoDBTable \<Rightarrow> json_object \<Rightarrow> ddb_error option" where
  "validateItem table item =
     (let defined = attributeTypeMap (AttributeDefinitions table) in
      firstError
        (checkTableKeys defined item (KeySchema table) #
         map (\<lambda>idx. checkIndexKeys defined item (gsi_IndexName idx) (gsi_KeySchema idx)) (GlobalSecondaryIndexes table) @
         map (\<lambda>idx. checkIndexKeys defined item (lsi_IndexName idx) (lsi_KeySchema idx)) (LocalSecondaryIndexes table) @
         [if itemSize item > maxItemBytes then Some (validationError ''Item size has exceeded the maximum allowed size'') else None]))"

definition canonicalKey :: "ddb_env \<Rightarrow> DynamoDBTable \<Rightarrow> json_object \<Rightarrow> json_object ddb_result" where
  "canonicalKey E table key =
     (let mismatch = validationError ''The provided key element does not match the schema'' in
      if length key \<noteq> length (KeySchema table) then Inl mismatch
      else rbind (canonicalizeItem E key) (\<lambda>out.
        let defined = attributeTypeMap (AttributeDefinitions table) in
        if list_all (\<lambda>part. case map_of out (key_AttributeName part) of
               None \<Rightarrow> False
             | Some v \<Rightarrow> attributeKind v = typeOf defined (key_AttributeName part)) (KeySchema table)
        then Inr out else Inl mismatch))"

section \<open>Streams\<close>

definition maxStreamRecords :: nat where "maxStreamRecords = 10000"

definition evictOldStreamRecordsLocked :: "streamState \<Rightarrow> streamState" where
  "evictOldStreamRecordsLocked st = st\<lparr>Records := drop (length (Records st) - maxStreamRecords) (Records st)\<rparr>"

definition prunedRecently :: "int \<Rightarrow> streamState \<Rightarrow> bool" where
  "prunedRecently now st \<longleftrightarrow> (case LastPruned st of None \<Rightarrow> False | Some p \<Rightarrow> now - p < 60 * 1000000000)"

definition pruneStreamLocked :: "int \<Rightarrow> streamState \<Rightarrow> streamState" where
  "pruneStreamLocked now st =
     (if prunedRecently now st then st
      else (evictOldStreamRecordsLocked (st\<lparr>Records := filter (\<lambda>r.
              now - ApproximateCreationDateTime r * 1000000000 \<le> 24 * 3600 * 1000000000) (Records st)\<rparr>))\<lparr>LastPruned := Some now\<rparr>)"

definition signalStreamLocked :: "string \<Rightarrow> ddbStore \<Rightarrow> ddbStore" where
  "signalStreamLocked arn s = s\<lparr>ddb_wakes := AList.delete arn (ddb_wakes s)\<rparr>"

text \<open>\<open>streamWaitChanLocked\<close> returns the number of the channel and the store that holds it.\<close>

definition streamWaitChanLocked :: "string \<Rightarrow> ddbStore \<Rightarrow> nat \<times> ddbStore" where
  "streamWaitChanLocked arn s = (case map_of (ddb_wakes s) arn of
      Some c \<Rightarrow> (c, s)
    | None \<Rightarrow> (ddb_chans s, s\<lparr>ddb_wakes := AList.update arn (ddb_chans s) (ddb_wakes s), ddb_chans := Suc (ddb_chans s)\<rparr>))"

text \<open>The record \<open>appendStreamRecordLocked\<close> makes: the images it holds depend on the view type.\<close>

definition streamRecord :: "string \<Rightarrow> streamState \<Rightarrow> string \<Rightarrow> json_object \<Rightarrow> json_object option \<Rightarrow> json_object option
      \<Rightarrow> int \<Rightarrow> (string \<times> string) option \<Rightarrow> StreamRecord" where
  "streamRecord region st eventName key oldImage newImage now identity =
     (let seq = itoa (NextSeq st);
          newI = (if stream_ViewType st = ''NEW_IMAGE'' \<or> stream_ViewType st = ''NEW_AND_OLD_IMAGES'' then newImage else None);
          oldI = (if stream_ViewType st = ''OLD_IMAGE'' \<or> stream_ViewType st = ''NEW_AND_OLD_IMAGES'' then oldImage else None);
          sz = (\<lambda>image. case image of None \<Rightarrow> 0 | Some m \<Rightarrow> itemSize m) in
      \<lparr>EventID = seq, EventName = eventName, EventVersion = ''1.1'', EventSource = ''aws:dynamodb'', AwsRegion = region,
       EventSourceARN = stream_ARN st, ApproximateCreationDateTime = now div 1000000000, Keys = key,
       NewImage = newI, OldImage = oldI, SequenceNumber = seq,
       SizeBytes = itemSize key + sz newI + sz oldI, rec_StreamViewType = stream_ViewType st, UserIdentity = identity\<rparr>)"

definition appendRecord :: "string \<Rightarrow> string \<Rightarrow> json_object \<Rightarrow> json_object option \<Rightarrow> json_object option
      \<Rightarrow> int \<Rightarrow> (string \<times> string) option \<Rightarrow> streamState \<Rightarrow> streamState" where
  "appendRecord region eventName key oldImage newImage now identity st0 =
     (let st = st0\<lparr>NextSeq := NextSeq st0 + 1\<rparr> in
      evictOldStreamRecordsLocked
        (st\<lparr>Records := Records st @ [streamRecord region st eventName key oldImage newImage now identity]\<rparr>))"

text \<open>\<open>appendStreamRecordLocked\<close> on the table under the given name, with the signal at its end.\<close>

definition appendStreamRecordLocked :: "string \<Rightarrow> string \<Rightarrow> json_object \<Rightarrow> json_object option \<Rightarrow> json_object option
      \<Rightarrow> int \<Rightarrow> (string \<times> string) option \<Rightarrow> ddbStore \<Rightarrow> ddbStore" where
  "appendStreamRecordLocked name eventName key oldImage newImage now identity s =
     (case map_of (tables s) name of
        None \<Rightarrow> s
      | Some state \<Rightarrow> (case Stream state of
          None \<Rightarrow> s
        | Some st \<Rightarrow>
            let st' = appendRecord (cfg_Region s) eventName key oldImage newImage now identity st in
            signalStreamLocked (stream_ARN st)
              (s\<lparr>tables := AList.update name (state\<lparr>Stream := Some st'\<rparr>) (tables s)\<rparr>)))"

end
