(* ===== verification/DDB_Write.thy ===== *)
theory DDB_Write
  imports DDB_Table
begin

text \<open>
  Writing and reading single items (\<open>internal/dynamodb/write.go\<close>, \<open>ttl.go\<close>, \<open>diffItemAttributes\<close> of
  \<open>store.go\<close> and the error constructors of \<open>errors.go\<close>): planning a write against the state, committing
  it, the single-item operations, batches, transactions and the removal of expired items.

  An operation returns \<open>None\<close> when the code does not return: the tokenizer of a condition loops, or the
  mutex of the store is held by a call that ended in a panic. The functions that unlock without
  \<open>defer\<close> leave it held when planning panics; \<open>mu_held\<close> says so. A planned write names its table where
  the code points to its state, and maps are walked in the order of their association list.
\<close>

record pendingWrite =
  pw_table :: string
  pw_keyID :: string
  pw_key :: json_object
  pw_old :: "json_object option"
  pw_new :: "json_object option"

record WriteInput =
  in_TableName :: string
  in_Item :: json_object
  in_Key :: json_object
  UpdateExpression :: string
  ConditionExpression :: string
  ExpressionAttributeNames :: "(string \<times> string) list"
  ExpressionAttributeValues :: json_object
  ReturnValues :: string
  ReturnValuesOnConditionCheckFailure :: string

definition emptyInput :: WriteInput where
  "emptyInput = \<lparr>in_TableName = '''', in_Item = [], in_Key = [], UpdateExpression = '''', ConditionExpression = '''',
     ExpressionAttributeNames = [], ExpressionAttributeValues = [], ReturnValues = '''', ReturnValuesOnConditionCheckFailure = ''''\<rparr>"

datatype writeKind = WritePut | WriteUpdate | WriteDelete | WriteCheck

definition conditionalCheckFailed :: "string \<Rightarrow> json_object option \<Rightarrow> ddb_error" where
  "conditionalCheckFailed msg item = ServiceError ''ConditionalCheckFailedException'' msg item []"

fun joinComma :: "string list \<Rightarrow> string" where
  "joinComma [] = ''''"
| "joinComma [p] = p"
| "joinComma (p # ps) = p @ '', '' @ joinComma ps"

definition transactionCanceled :: "CancellationReason list \<Rightarrow> ddb_error" where
  "transactionCanceled reasons = ServiceError ''TransactionCanceledException''
     (''Transaction cancelled, please refer cancellation reasons for specific reasons ['' @ joinComma (map reason_Code reasons) @ '']'')
     None reasons"

section \<open>Planning\<close>

definition guard :: "ddb_error option \<Rightarrow> 'a ddb_result \<Rightarrow> 'a ddb_result" where
  "guard e r = (case e of None \<Rightarrow> r | Some err \<Rightarrow> Inl err)"

text \<open>The key and, for a put, the new item a request asks for.\<close>

definition plannedKey ::
    "ddb_env \<Rightarrow> DynamoDBTable \<Rightarrow> writeKind \<Rightarrow> WriteInput \<Rightarrow> (json_object option \<times> json_object) ddb_result" where
  "plannedKey E table kind inp =
     (if kind = WritePut then
        rbind (canonicalizeItem E (in_Item inp)) (\<lambda>item.
        guard (validateItem table item)
          (rbind (buildKeyMap item (KeySchema table)) (\<lambda>key. Inr (Some item, key))))
      else rbind (canonicalKey E table (in_Key inp)) (\<lambda>key. Inr (None, key)))"

text \<open>An update keeps the attributes of the key.\<close>

fun keyChanged :: "ddb_env \<Rightarrow> json_object \<Rightarrow> json_object \<Rightarrow> ddb_error option" where
  "keyChanged E new [] = None"
| "keyChanged E new ((name, v) # key) =
     (if \<not> attributeValueEqual E (fst (indexMap new name)) v then
        Some (validationError (''One or more parameter values were invalid: Cannot update attribute '' @ name @
          ''. This attribute is part of the key''))
      else keyChanged E new key)"

definition updatedItem ::
    "ddb_env \<Rightarrow> DynamoDBTable \<Rightarrow> WriteInput \<Rightarrow> json_object \<Rightarrow> json_object \<Rightarrow> json_object option \<Rightarrow> json_object ddb_result" where
  "updatedItem E table inp values key old =
     rbind (applyUpdateExpression E (case old of None \<Rightarrow> key | Some item \<Rightarrow> item) (UpdateExpression inp)
       (ExpressionAttributeNames inp) values) (\<lambda>new.
     guard (keyChanged E new key)
       (rbind (canonicalizeItem E new) (\<lambda>new'. guard (validateItem table new') (Inr new'))))"

text \<open>The new item of a write whose condition holds.\<close>

definition plannedItem :: "ddb_env \<Rightarrow> DynamoDBTable \<Rightarrow> writeKind \<Rightarrow> WriteInput \<Rightarrow> json_object \<Rightarrow> json_object \<Rightarrow> json_object option
      \<Rightarrow> json_object option \<Rightarrow> json_object option ddb_result" where
  "plannedItem E table kind inp values key old new =
     (case kind of
        WritePut \<Rightarrow> Inr new
      | WriteUpdate \<Rightarrow> rbind (updatedItem E table inp values key old) (\<lambda>item. Inr (Some item))
      | WriteDelete \<Rightarrow> Inr None
      | WriteCheck \<Rightarrow> Inr None)"

definition planLocked :: "ddb_env \<Rightarrow> ddbStore \<Rightarrow> writeKind \<Rightarrow> WriteInput \<Rightarrow> pendingWrite ddb_result option" where
  "planLocked E s kind inp =
     (case getTableLocked s (in_TableName inp) of
        Inl e \<Rightarrow> Some (Inl e)
      | Inr (name, state) \<Rightarrow>
     (case canonicalizeItem E (ExpressionAttributeValues inp) of
        Inl e \<Rightarrow> Some (Inl e)
      | Inr values \<Rightarrow>
     (case plannedKey E (Table state) kind inp of
        Inl e \<Rightarrow> Some (Inl e)
      | Inr (new, key) \<Rightarrow>
     (case serializeKey E key (KeySchema (Table state)) of
        Inl e \<Rightarrow> Some (Inl e)
      | Inr keyID \<Rightarrow>
          let old = map_of (Items state) keyID in
          map_option (\<lambda>holds. rbind holds (\<lambda>ok.
            if \<not> ok then
              Inl (conditionalCheckFailed ''The conditional request failed''
                (if equalFold (ReturnValuesOnConditionCheckFailure inp) ''ALL_OLD'' then old else None))
            else rbind (plannedItem E (Table state) kind inp values key old new) (\<lambda>item.
              Inr \<lparr>pw_table = name, pw_keyID = keyID, pw_key = key, pw_old = old, pw_new = item\<rparr>)))
          (evaluateConditionExpression E (ConditionExpression inp) (case old of None \<Rightarrow> [] | Some item \<Rightarrow> item)
            (ExpressionAttributeNames inp) values)))))"

section \<open>Committing\<close>

definition updateTable :: "string \<Rightarrow> (tableState \<Rightarrow> tableState) \<Rightarrow> ddbStore \<Rightarrow> ddbStore" where
  "updateTable name f s = (case map_of (tables s) name of
      None \<Rightarrow> s
    | Some state \<Rightarrow> s\<lparr>tables := AList.update name (f state) (tables s)\<rparr>)"

definition pruneTable :: "int \<Rightarrow> tableState \<Rightarrow> tableState" where
  "pruneTable now state = state\<lparr>Stream := map_option (pruneStreamLocked now) (Stream state)\<rparr>"

definition countItems :: "tableState \<Rightarrow> tableState" where
  "countItems state = state\<lparr>Table := (Table state)\<lparr>ItemCount := int (length (Items state))\<rparr>\<rparr>"

definition commitLocked :: "ddb_env \<Rightarrow> pendingWrite \<Rightarrow> int \<Rightarrow> (string \<times> string) option \<Rightarrow> ddbStore \<Rightarrow> ddbStore" where
  "commitLocked E w now identity s =
     (let name = pw_table w; s0 = updateTable name (pruneTable now) s in
      case (pw_new w, pw_old w) of
        (None, None) \<Rightarrow> s0
      | (None, Some old) \<Rightarrow>
          updateTable name countItems
            (appendStreamRecordLocked name ''REMOVE'' (pw_key w) (Some old) None now identity
              (updateTable name (\<lambda>t. t\<lparr>Items := AList.delete (pw_keyID w) (Items t)\<rparr>) s0))
      | (Some new, old) \<Rightarrow>
          let s1 = updateTable name (\<lambda>t. t\<lparr>Items := AList.update (pw_keyID w) new (Items t)\<rparr>) s0;
              s2 = (case old of
                  None \<Rightarrow> appendStreamRecordLocked name ''INSERT'' (pw_key w) None (Some new) now identity s1
                | Some o' \<Rightarrow>
                    if \<not> attributeValueEqual E (JObj [(''M'', JObj o')]) (JObj [(''M'', JObj new)])
                    then appendStreamRecordLocked name ''MODIFY'' (pw_key w) (Some o') (Some new) now identity s1
                    else s1) in
          updateTable name countItems s2)"

definition persist :: "ddbStore \<Rightarrow> ddbStore" where
  "persist s = s\<lparr>ddb_dirty := True\<rparr>"

text \<open>What a failed plan leaves behind: a panic leaves the mutex locked.\<close>

definition abandon :: "ddb_error \<Rightarrow> ddbStore \<Rightarrow> 'a ddb_result \<times> ddbStore" where
  "abandon e s = (Inl e, if e = GoPanic then s\<lparr>mu_held := True\<rparr> else s)"

section \<open>Single items\<close>

definition writeOne :: "ddb_env \<Rightarrow> int \<Rightarrow> writeKind \<Rightarrow> WriteInput \<Rightarrow> ddbStore \<Rightarrow> (pendingWrite ddb_result \<times> ddbStore) option" where
  "writeOne E now kind inp s =
     (if mu_held s then None
      else map_option (\<lambda>plan. case plan of
          Inl e \<Rightarrow> abandon e s
        | Inr w \<Rightarrow> (Inr w, persist (commitLocked E w now None s))) (planLocked E s kind inp))"

definition checkReturnValues :: "string \<Rightarrow> string list \<Rightarrow> ddb_error option" where
  "checkReturnValues value allowed =
     (if value = '''' \<or> value \<in> set allowed then None
      else Some (validationError (''ReturnValues can only be '' @ joinComma allowed)))"

definition diffItemAttributes :: "ddb_env \<Rightarrow> json_object option \<Rightarrow> json_object option \<Rightarrow> json_object option" where
  "diffItemAttributes E base target = map_option (\<lambda>t.
     filter (\<lambda>(key, value). \<not> attributeValueEqual E (fst (indexMap (case base of None \<Rightarrow> [] | Some b \<Rightarrow> b) key)) value) t) target"

definition emptyToNil :: "json_object option \<Rightarrow> json_object option" where
  "emptyToNil m = (if m = Some [] then None else m)"

definition returnedAttributes :: "ddb_env \<Rightarrow> string \<Rightarrow> pendingWrite \<Rightarrow> json_object option" where
  "returnedAttributes E mode w =
     (if mode = ''ALL_OLD'' then pw_old w
      else if mode = ''ALL_NEW'' then pw_new w
      else if mode = ''UPDATED_NEW'' then emptyToNil (diffItemAttributes E (pw_old w) (pw_new w))
      else if mode = ''UPDATED_OLD'' then emptyToNil (diffItemAttributes E (pw_new w) (pw_old w))
      else None)"

text \<open>The three operations check the return values asked for, write and return the attributes.\<close>

definition writeItem ::
    "ddb_env \<Rightarrow> int \<Rightarrow> writeKind \<Rightarrow> string list \<Rightarrow> WriteInput \<Rightarrow> ddbStore \<Rightarrow> (json_object option ddb_result \<times> ddbStore) option" where
  "writeItem E now kind allowed inp s =
     (case checkReturnValues (ReturnValues inp) allowed of
        Some e \<Rightarrow> Some (Inl e, s)
      | None \<Rightarrow> map_option (\<lambda>(r, s'). (rbind r (\<lambda>w. Inr (returnedAttributes E (ReturnValues inp) w)), s'))
          (writeOne E now kind inp s))"

definition PutItem :: "ddb_env \<Rightarrow> int \<Rightarrow> WriteInput \<Rightarrow> ddbStore \<Rightarrow> (json_object option ddb_result \<times> ddbStore) option" where
  "PutItem E now = writeItem E now WritePut [''NONE'', ''ALL_OLD'']"

definition UpdateItem :: "ddb_env \<Rightarrow> int \<Rightarrow> WriteInput \<Rightarrow> ddbStore \<Rightarrow> (json_object option ddb_result \<times> ddbStore) option" where
  "UpdateItem E now = writeItem E now WriteUpdate [''NONE'', ''ALL_OLD'', ''ALL_NEW'', ''UPDATED_OLD'', ''UPDATED_NEW'']"

definition DeleteItem :: "ddb_env \<Rightarrow> int \<Rightarrow> WriteInput \<Rightarrow> ddbStore \<Rightarrow> (json_object option ddb_result \<times> ddbStore) option" where
  "DeleteItem E now = writeItem E now WriteDelete [''NONE'', ''ALL_OLD'']"

definition readTable :: "string \<Rightarrow> (tableState \<Rightarrow> 'a ddb_result) \<Rightarrow> ddbStore \<Rightarrow> 'a ddb_result option" where
  "readTable name f s =
     (if mu_held s then None else Some (rbind (getTableLocked s name) (\<lambda>(_, state). f state)))"

definition getItemLocked :: "ddb_env \<Rightarrow> tableState \<Rightarrow> json_object \<Rightarrow> (json_object option \<times> string) ddb_result" where
  "getItemLocked E state key =
     rbind (canonicalKey E (Table state) key) (\<lambda>canonical.
     rbind (serializeKey E canonical (KeySchema (Table state))) (\<lambda>keyID.
       Inr (map_of (Items state) keyID, keyID)))"

definition projected :: "string \<Rightarrow> (string \<times> string) list \<Rightarrow> json_object option \<Rightarrow> json_object option ddb_result" where
  "projected projection names out = (case out of
      Some item \<Rightarrow> if projection = '''' then Inr out
                   else rbind (applyProjectionExpression item projection names) (\<lambda>p. Inr (Some p))
    | None \<Rightarrow> Inr None)"

definition GetItem ::
    "ddb_env \<Rightarrow> string \<Rightarrow> json_object \<Rightarrow> string \<Rightarrow> (string \<times> string) list \<Rightarrow> ddbStore \<Rightarrow> json_object option ddb_result option" where
  "GetItem E tableName key projection names s =
     map_option (\<lambda>r. rbind r (projected projection names))
       (readTable tableName (\<lambda>state. rbind (getItemLocked E state key) (\<lambda>(out, _). Inr out)) s)"

end
