(* ===== verification/DDB_Batch.thy ===== *)
theory DDB_Batch
  imports DDB_Write
begin

text \<open>
  Batches and transactions (\<open>internal/dynamodb/write.go\<close> from \<open>BatchWriteItem\<close> on) and the sweep of
  expired items (\<open>ttl.go\<close>). The planned writes of a request are a list; a condition check plans nothing,
  where the code keeps a nil. Requests per table come as an association list in the order the map is
  walked; the keys of \<open>markSeen\<close> are pairs of the table and the item.
\<close>

section \<open>Batches\<close>

record BatchWriteRequest =
  PutRequest :: "json_object option"
  DeleteRequest :: "json_object option"

definition markSeen :: "(string \<times> string) list \<Rightarrow> pendingWrite \<Rightarrow> bool" where
  "markSeen seen w \<longleftrightarrow> (pw_table w, pw_keyID w) \<in> set seen"

definition commitAll :: "ddb_env \<Rightarrow> int \<Rightarrow> pendingWrite list \<Rightarrow> ddbStore \<Rightarrow> ddbStore" where
  "commitAll E now plans s = fold (\<lambda>w. commitLocked E w now None) plans s"

definition planRequest :: "ddb_env \<Rightarrow> ddbStore \<Rightarrow> string \<Rightarrow> BatchWriteRequest \<Rightarrow> pendingWrite ddb_result option" where
  "planRequest E s table req =
     (case (PutRequest req, DeleteRequest req) of
        (Some item, None) \<Rightarrow> planLocked E s WritePut (emptyInput\<lparr>in_TableName := table, in_Item := item\<rparr>)
      | (None, Some key) \<Rightarrow> planLocked E s WriteDelete (emptyInput\<lparr>in_TableName := table, in_Key := key\<rparr>)
      | _ \<Rightarrow> Some (Inl (validationError ''Supplied AttributeValue has more than one or no request set'')))"

text \<open>The two nested loops as one over the requests, each with its table.\<close>

fun planBatch :: "ddb_env \<Rightarrow> ddbStore \<Rightarrow> (string \<times> string) list \<Rightarrow> (string \<times> BatchWriteRequest) list
      \<Rightarrow> pendingWrite list ddb_result option" where
  "planBatch E s seen [] = Some (Inr [])"
| "planBatch E s seen ((table, req) # reqs) = (case planRequest E s table req of
      None \<Rightarrow> None
    | Some (Inl e) \<Rightarrow> Some (Inl e)
    | Some (Inr w) \<Rightarrow>
        if markSeen seen w then Some (Inl (validationError ''Provided list of item keys contains duplicates''))
        else map_option (\<lambda>r. rbind r (\<lambda>ws. Inr (w # ws))) (planBatch E s ((pw_table w, pw_keyID w) # seen) reqs))"

definition BatchWriteItem ::
    "ddb_env \<Rightarrow> int \<Rightarrow> (string \<times> BatchWriteRequest list) list \<Rightarrow> ddbStore \<Rightarrow> (unit ddb_result \<times> ddbStore) option" where
  "BatchWriteItem E now requests s =
     (let reqs = concat (map (\<lambda>(table, list). map (Pair table) list) requests) in
      if length reqs = 0 \<or> length reqs > 25 then
        Some (Inl (validationError ''Too many items requested for the BatchWriteItem call''), s)
      else if mu_held s then None
      else map_option (\<lambda>plan. case plan of
          Inl e \<Rightarrow> abandon e s
        | Inr plans \<Rightarrow> (Inr (), persist (commitAll E now plans s))) (planBatch E s [] reqs))"

record KeysAndAttributes =
  ka_Keys :: "json_object list"
  ka_ProjectionExpression :: string
  ka_ExpressionAttributeNames :: "(string \<times> string) list"

fun batchGet :: "ddb_env \<Rightarrow> tableState \<Rightarrow> KeysAndAttributes \<Rightarrow> string list \<Rightarrow> json_object list \<Rightarrow> json_object list ddb_result" where
  "batchGet E state req seen [] = Inr []"
| "batchGet E state req seen (key # keys) = rbind (getItemLocked E state key) (\<lambda>(item, id).
     if id \<in> set seen then Inl (validationError ''Provided list of item keys contains duplicates'')
     else rbind (projected (ka_ProjectionExpression req) (ka_ExpressionAttributeNames req) item) (\<lambda>out.
       rbind (batchGet E state req (id # seen) keys) (\<lambda>items.
         Inr (case out of None \<Rightarrow> items | Some i \<Rightarrow> i # items))))"

fun batchGetTables :: "ddb_env \<Rightarrow> ddbStore \<Rightarrow> (string \<times> KeysAndAttributes) list \<Rightarrow> (string \<times> json_object list) list ddb_result" where
  "batchGetTables E s [] = Inr []"
| "batchGetTables E s ((table, req) # requests) = rbind (getTableLocked s table) (\<lambda>(_, state).
     rbind (batchGet E state req [] (ka_Keys req)) (\<lambda>items.
     rbind (batchGetTables E s requests) (\<lambda>out. Inr ((table, items) # out))))"

definition BatchGetItem ::
    "ddb_env \<Rightarrow> (string \<times> KeysAndAttributes) list \<Rightarrow> ddbStore \<Rightarrow> (string \<times> json_object list) list ddb_result option" where
  "BatchGetItem E requests s =
     (let total = (\<Sum>(_, req) \<leftarrow> requests. length (ka_Keys req)) in
      if total = 0 \<or> total > 100 then Some (Inl (validationError ''Too many items requested for the BatchGetItem call''))
      else if mu_held s then None else Some (batchGetTables E s requests))"

section \<open>Transactions\<close>

record TransactWriteItem =
  act_ConditionCheck :: "WriteInput option"
  act_Put :: "WriteInput option"
  act_Update :: "WriteInput option"
  act_Delete :: "WriteInput option"

definition unpack :: "TransactWriteItem \<Rightarrow> (writeKind \<times> WriteInput) ddb_result" where
  "unpack a =
     (case List.map_filter (\<lambda>(k, c). map_option (Pair k) c)
         [(WriteCheck, act_ConditionCheck a), (WritePut, act_Put a), (WriteUpdate, act_Update a), (WriteDelete, act_Delete a)] of
        [(kind, inp)] \<Rightarrow>
          if kind = WriteCheck \<and> ConditionExpression inp = ''''
          then Inl (validationError ''The expression can not be empty;'') else Inr (kind, inp)
      | _ \<Rightarrow> Inl (validationError ''TransactItems can only contain one of Check, Put, Update or Delete''))"

definition isConditionFailure :: "ddb_error \<Rightarrow> bool" where
  "isConditionFailure e \<longleftrightarrow> (case e of ServiceError code _ _ _ \<Rightarrow> code = ''ConditionalCheckFailedException'' | GoPanic \<Rightarrow> False)"

definition failureReason :: "ddb_error \<Rightarrow> CancellationReason" where
  "failureReason e = (case e of
      ServiceError _ msg item _ \<Rightarrow> \<lparr>reason_Code = ''ConditionalCheckFailed'', reason_Message = msg, reason_Item = item\<rparr>
    | GoPanic \<Rightarrow> \<lparr>reason_Code = '''', reason_Message = '''', reason_Item = None\<rparr>)"

definition noReason :: CancellationReason where
  "noReason = \<lparr>reason_Code = ''None'', reason_Message = '''', reason_Item = None\<rparr>"

text \<open>The loop over the actions: the reasons and the planned writes, a condition check planning none.\<close>

fun planActions :: "ddb_env \<Rightarrow> ddbStore \<Rightarrow> (string \<times> string) list \<Rightarrow> TransactWriteItem list
      \<Rightarrow> (CancellationReason list \<times> pendingWrite list) ddb_result option" where
  "planActions E s seen [] = Some (Inr ([], []))"
| "planActions E s seen (action # actions) = (case unpack action of
      Inl e \<Rightarrow> Some (Inl e)
    | Inr (kind, inp) \<Rightarrow> (case planLocked E s kind inp of
          None \<Rightarrow> None
        | Some (Inl e) \<Rightarrow>
            if isConditionFailure e
            then map_option (\<lambda>r. rbind r (\<lambda>(reasons, ws). Inr (failureReason e # reasons, ws))) (planActions E s seen actions)
            else Some (Inl e)
        | Some (Inr w) \<Rightarrow>
            if markSeen seen w then Some (Inl (validationError ''Transaction request cannot include multiple operations on one item''))
            else map_option (\<lambda>r. rbind r (\<lambda>(reasons, ws). Inr (noReason # reasons, if kind = WriteCheck then ws else w # ws)))
              (planActions E s ((pw_table w, pw_keyID w) # seen) actions)))"

definition cancelled :: "CancellationReason list \<Rightarrow> bool" where
  "cancelled reasons \<longleftrightarrow> list_ex (\<lambda>r. reason_Code r \<noteq> ''None'') reasons"

definition TransactWriteItems ::
    "ddb_env \<Rightarrow> int \<Rightarrow> TransactWriteItem list \<Rightarrow> ddbStore \<Rightarrow> (unit ddb_result \<times> ddbStore) option" where
  "TransactWriteItems E now actions s =
     (if actions = [] \<or> length actions > 100 then
        Some (Inl (validationError ''Member must have length less than or equal to 100''), s)
      else if mu_held s then None
      else map_option (\<lambda>plan. case plan of
          Inl e \<Rightarrow> abandon e s
        | Inr (reasons, plans) \<Rightarrow>
            if cancelled reasons then (Inl (transactionCanceled reasons), s)
            else (Inr (), persist (commitAll E now plans s))) (planActions E s [] actions))"

record TransactGetItem =
  get_TableName :: string
  get_Key :: json_object
  get_ProjectionExpression :: string
  get_ExpressionAttributeNames :: "(string \<times> string) list"

text \<open>An action is \<open>None\<close> when its \<open>Get\<close> is missing.\<close>

fun transactGet :: "ddb_env \<Rightarrow> ddbStore \<Rightarrow> TransactGetItem option list \<Rightarrow> json_object option list ddb_result" where
  "transactGet E s [] = Inr []"
| "transactGet E s (None # actions) = Inl (validationError ''TransactItems must contain Get'')"
| "transactGet E s (Some g # actions) = rbind (getTableLocked s (get_TableName g)) (\<lambda>(_, state).
     rbind (getItemLocked E state (get_Key g)) (\<lambda>(item, _).
     rbind (projected (get_ProjectionExpression g) (get_ExpressionAttributeNames g) item) (\<lambda>out.
     rbind (transactGet E s actions) (\<lambda>outs. Inr (out # outs)))))"

definition TransactGetItems ::
    "ddb_env \<Rightarrow> TransactGetItem option list \<Rightarrow> ddbStore \<Rightarrow> json_object option list ddb_result option" where
  "TransactGetItems E actions s =
     (if actions = [] \<or> length actions > 100 then
        Some (Inl (validationError ''Member must have length less than or equal to 100''))
      else if mu_held s then None else Some (transactGet E s actions))"

section \<open>Expired items\<close>

definition ttlIdentity :: "string \<times> string" where
  "ttlIdentity = (''Service'', ''dynamodb.amazonaws.com'')"

text \<open>\<open>nowSec\<close> is the instant in whole seconds.\<close>

definition ttlExpired :: "ddb_env \<Rightarrow> json_object \<Rightarrow> string \<Rightarrow> int \<Rightarrow> bool" where
  "ttlExpired E item ttlAttr nowSec \<longleftrightarrow> (case map_of item ttlAttr of
      None \<Rightarrow> False
    | Some raw \<Rightarrow> (case asNumber E raw of None \<Rightarrow> False | Some epoch \<Rightarrow> epoch \<le> of_int nowSec))"

text \<open>The writes that remove the expired items of a table, in the order its items are walked.\<close>

definition expiredWrites :: "ddb_env \<Rightarrow> int \<Rightarrow> string \<Rightarrow> tableState \<Rightarrow> pendingWrite list" where
  "expiredWrites E now name state = (case TTL state of
      None \<Rightarrow> []
    | Some ttl \<Rightarrow>
        if ttl_Status ttl \<noteq> ''ENABLED'' \<or> ttl_AttributeName ttl = '''' then []
        else List.map_filter (\<lambda>(keyID, item).
          if \<not> ttlExpired E item (ttl_AttributeName ttl) (now div 1000000000) then None
          else (case buildKeyMap item (KeySchema (Table state)) of
              Inl _ \<Rightarrow> None
            | Inr key \<Rightarrow> Some \<lparr>pw_table = name, pw_keyID = keyID, pw_key = key, pw_old = Some item, pw_new = None\<rparr>)) (Items state))"

definition sweepExpired :: "ddb_env \<Rightarrow> int \<Rightarrow> ddbStore \<Rightarrow> (nat \<times> ddbStore) option" where
  "sweepExpired E now s =
     (if mu_held s then None
      else
        let ws = concat (map (\<lambda>(name, state). expiredWrites E now name state) (tables s));
            s' = fold (\<lambda>w. commitLocked E w now (Some ttlIdentity)) ws s in
        Some (length ws, if ws = [] then s' else persist s'))"

end
