(* ===== verification/DDB_Canonical.thy ===== *)
theory DDB_Canonical
  imports DDB_Number "HOL-Library.Multiset"
begin

text \<open>
  The canonical form of attribute values is stable: making a canonical value canonical again changes
  nothing. Two spellings of one value therefore have one stored form, and the check that an update
  keeps the key compares stored forms.
\<close>

section \<open>The order of set members\<close>

lemma cmpOrd_asym: "cmpOrd a b < 0 \<Longrightarrow> \<not> cmpOrd b a < 0"
  by (auto simp: cmpOrd_def split: if_splits)

lemma compareSetMembers_asym:
  assumes "compareSetMembers E kind a b < 0"
  shows "\<not> compareSetMembers E kind b a < 0"
  using assms cmpOrd_asym [of a b]
  by (auto simp: compareSetMembers_def compareAttributeValues_def cmpOrd_def split: option.splits if_splits)

abbreviation inOrder :: "ddb_env \<Rightarrow> string \<Rightarrow> string list \<Rightarrow> bool" where
  "inOrder E kind \<equiv> successively (\<lambda>a b. \<not> compareSetMembers E kind b a < 0)"

lemma sinkMember_mset [simp]: "mset (sinkMember E kind x ys) = add_mset x (mset ys)"
  by (induction ys) auto

lemma sortMembers_mset [simp]: "mset (sortMembers E kind xs) = mset xs"
  by (induction xs) (auto simp: sortMembers_def)

lemma sortMembers_set [simp]: "set (sortMembers E kind xs) = set xs"
  by (metis set_mset_mset sortMembers_mset)

lemma sinkMember_inOrder: "inOrder E kind ys \<Longrightarrow> inOrder E kind (sinkMember E kind x ys)"
proof (induction ys)
  case (Cons y ys)
  then show ?case by (cases ys) (auto simp: successively_Cons dest: compareSetMembers_asym)
qed simp

lemma sortMembers_inOrder: "inOrder E kind (sortMembers E kind xs)"
  by (induction xs) (auto simp: sortMembers_def intro: sinkMember_inOrder)

lemma sinkMember_head: "inOrder E kind (x # ys) \<Longrightarrow> sinkMember E kind x ys = x # ys"
  by (cases ys) (auto simp: successively_Cons)

lemma sortMembers_id: "inOrder E kind xs \<Longrightarrow> sortMembers E kind xs = xs"
proof (induction xs)
  case (Cons x xs)
  then have "sortMembers E kind xs = xs" by (auto simp: successively_Cons)
  with sinkMember_head [OF Cons.prems] show ?case by (simp add: sortMembers_def)
qed (simp add: sortMembers_def)

section \<open>Sets\<close>

definition memberCanonical :: "string \<Rightarrow> string \<Rightarrow> bool" where
  "memberCanonical kind member \<longleftrightarrow> kind = ''NS'' \<longrightarrow> canonicalNumber member = Inr member"

lemma canonicalMembers_props:
  "canonicalMembers kind seen xs = Inr out \<Longrightarrow>
     length out = length xs \<and> distinct out \<and> set out \<inter> set seen = {} \<and> list_all (memberCanonical kind) out"
proof (induction kind seen xs arbitrary: out rule: canonicalMembers.induct)
  case (2 kind seen entry list)
  then obtain member rest where t: "(if kind = ''NS'' then canonicalNumber (asString entry) else Inr (asString entry)) = Inr member"
    and fresh: "member \<notin> set seen" and rest: "canonicalMembers kind (member # seen) list = Inr rest" "out = member # rest"
    by (auto simp: rbind_Inr split: if_splits)
  have "memberCanonical kind member"
    using t canonicalNumber_value unfolding memberCanonical_def by (auto split: if_splits)
  with "2.IH" [OF fresh rest(1)] fresh rest(2) show ?case by auto
qed simp

lemma canonicalMembers_canonical:
  "list_all (memberCanonical kind) xs \<Longrightarrow> distinct xs \<Longrightarrow> set xs \<inter> set seen = {} \<Longrightarrow>
     canonicalMembers kind seen (map JStr xs) = Inr xs"
  by (induction xs arbitrary: seen) (auto simp: memberCanonical_def)

lemma canonicalSet_stable:
  assumes "canonicalSet E kind list = Inr v"
  shows "\<exists>members. v = JObj [(kind, JArr members)] \<and> canonicalSet E kind members = Inr v"
proof -
  from assms obtain out where out: "canonicalMembers kind [] list = Inr out" "list \<noteq> []"
    and v: "v = JObj [(kind, JArr (map JStr (sortMembers E kind out)))]"
    by (auto simp: canonicalSet_def rbind_Inr split: if_splits)
  let ?s = "sortMembers E kind out"
  note p = canonicalMembers_props [OF out(1)]
  have "distinct ?s" using p by (metis mset_eq_imp_distinct_iff sortMembers_mset)
  moreover have "list_all (memberCanonical kind) ?s" using p by (simp add: list_all_iff)
  moreover note d = calculation
  have "?s \<noteq> []" using p out(2) by (metis length_0_conv mset_zero_iff sortMembers_mset)
  moreover have "sortMembers E kind ?s = ?s" by (rule sortMembers_id) (rule sortMembers_inOrder)
  ultimately show ?thesis using v by (simp add: canonicalSet_def canonicalMembers_canonical)
qed

section \<open>Attribute values\<close>

lemma canonicalize_stable:
  "canonicalizeAttr E v = Inr c \<Longrightarrow> canonicalizeAttr E c = Inr c"
  "canonicalizeList E l = Inr l' \<Longrightarrow> canonicalizeList E l' = Inr l'"
  "canonicalizeItem E m = Inr m' \<Longrightarrow> canonicalizeItem E m' = Inr m'"
proof (induction E v and E l and E m arbitrary: c and l' and m' rule: canonicalizeAttr_canonicalizeList_canonicalizeItem.induct)
  case (1 E kind raw)
  show ?case
  proof (cases "kind = ''SS'' \<or> kind = ''NS'' \<or> kind = ''BS''")
    case True
    then have "canonicalSet E kind (asList raw) = Inr c" using "1.prems" by auto
    with canonicalSet_stable True show ?thesis by fastforce
  next
    case False
    with "1.prems" "1.IH" show ?thesis
      by (auto simp: rbind_Inr dest: canonicalNumber_value split: if_splits json.splits)
  qed
qed (auto simp: rbind_Inr)

text \<open>Making a value canonical is idempotent, for single values and for whole items, so an item read back and
  written again keeps its stored form.\<close>

theorem canonical_form_stable:
  assumes "canonicalizeItem E item = Inr stored"
  shows "canonicalizeItem E stored = Inr stored \<and> map fst stored = map fst item"
proof
  show "canonicalizeItem E stored = Inr stored" using assms by (rule canonicalize_stable)
  show "map fst stored = map fst item" using assms
    by (induction item arbitrary: stored) (auto simp: rbind_Inr)
qed

theorem canonical_form_stable_witness:
  "canonicalizeItem E [(''n'', JObj [(''N'', JStr ''01.50'')])] = Inr [(''n'', JObj [(''N'', JStr ''1.5'')])] \<and>
    canonicalizeItem E [(''n'', JObj [(''N'', JStr ''1.5'')])] = Inr [(''n'', JObj [(''N'', JStr ''1.5'')])]"
proof -
  have "canonicalNumber ''01.50'' = Inr ''1.5''" by code_simp
  then have "canonicalizeItem E [(''n'', JObj [(''N'', JStr ''01.50'')])] = Inr [(''n'', JObj [(''N'', JStr ''1.5'')])]" by simp
  with canonical_form_stable [OF this] show ?thesis by blast
qed

lemma canonicalizeItem_lookup:
  assumes "canonicalizeItem E item = Inr stored"
  shows "map_of stored name = None \<longleftrightarrow> map_of item name = None"
    and "map_of item name = Some v \<Longrightarrow> \<exists>c. canonicalizeAttr E v = Inr c \<and> map_of stored name = Some c"
  using assms by (induction item arbitrary: stored) (auto simp: rbind_Inr split: if_splits)

lemma canonicalizeItem_member:
  "canonicalizeItem E item = Inr stored \<Longrightarrow> (name, c) \<in> set stored \<Longrightarrow> canonicalizeAttr E c = Inr c"
  by (induction item arbitrary: stored) (auto simp: rbind_Inr canonicalize_stable(1))

lemma attributeValueEqual_canonical:
  "attributeValueEqual E a b \<longleftrightarrow> (\<exists>l r. canonicalizeAttr E a = Inr l \<and> canonicalizeAttr E b = Inr r \<and> Marshal E l = Marshal E r)"
  by (auto simp: attributeValueEqual_def split: sum.splits)

end
