(* ===== verification/DDB_Integrity.thy ===== *)
theory DDB_Integrity
  imports DDB_Batch DDB_Canonical Tarn_Interfaces
begin

text \<open>
  The effect of the write path on the content of the store: what a commit changes, what a plan is made
  of, and a small store the witnesses of the theorems run on.
\<close>

section \<open>The content of the store after a commit\<close>

definition itemAt :: "ddbStore \<Rightarrow> string \<Rightarrow> string \<Rightarrow> json_object option" where
  "itemAt s name keyID = Option.bind (map_of (tables s) name) (\<lambda>state. map_of (Items state) keyID)"

text \<open>A planned write fits a store when its table exists and its old item is the one stored there.\<close>

definition fits :: "ddbStore \<Rightarrow> pendingWrite \<Rightarrow> bool" where
  "fits s w \<longleftrightarrow> map_of (tables s) (pw_table w) \<noteq> None \<and> pw_old w = itemAt s (pw_table w) (pw_keyID w)"

lemma map_of_updateTable [simp]:
  "map_of (tables (updateTable name f s)) t = (if t = name then map_option f (map_of (tables s) t) else map_of (tables s) t)"
  by (auto simp: updateTable_def split: option.splits)

lemma signalStreamLocked_tables [simp]: "tables (signalStreamLocked arn s) = tables s"
  by (simp add: signalStreamLocked_def)

text \<open>The state of a table after a record was appended to its stream.\<close>

definition appendTable :: "string \<Rightarrow> string \<Rightarrow> json_object \<Rightarrow> json_object option \<Rightarrow> json_object option
      \<Rightarrow> int \<Rightarrow> (string \<times> string) option \<Rightarrow> tableState \<Rightarrow> tableState" where
  "appendTable region eventName key oldImage newImage now identity state =
     state\<lparr>Stream := map_option (appendRecord region eventName key oldImage newImage now identity) (Stream state)\<rparr>"

lemma map_of_appendStreamRecordLocked [simp]:
  "map_of (tables (appendStreamRecordLocked name ev key old new now identity s)) t =
     (if t = name then map_option (appendTable (cfg_Region s) ev key old new now identity) (map_of (tables s) t)
      else map_of (tables s) t)"
proof -
  have "Stream state = None \<Longrightarrow> appendTable r ev key old new now identity state = state" for r state
    by (simp add: appendTable_def)
  then show ?thesis
    by (auto simp: appendStreamRecordLocked_def appendTable_def Let_def split: option.splits)
qed

lemma cfg_Region_simps [simp]:
  "cfg_Region (updateTable name f s) = cfg_Region s"
  "cfg_Region (appendStreamRecordLocked name ev key old new now identity s) = cfg_Region s"
  "mu_held (updateTable name f s) = mu_held s"
  "mu_held (appendStreamRecordLocked name ev key old new now identity s) = mu_held s"
  by (auto simp: updateTable_def appendStreamRecordLocked_def signalStreamLocked_def Let_def split: option.splits)

text \<open>The change of its table a commit makes.\<close>

definition changeEvent :: "ddb_env \<Rightarrow> pendingWrite \<Rightarrow> string option" where
  "changeEvent E w = (case (pw_old w, pw_new w) of
      (None, None) \<Rightarrow> None
    | (Some _, None) \<Rightarrow> Some ''REMOVE''
    | (None, Some _) \<Rightarrow> Some ''INSERT''
    | (Some old, Some new) \<Rightarrow>
        if attributeValueEqual E (JObj [(''M'', JObj old)]) (JObj [(''M'', JObj new)]) then None else Some ''MODIFY'')"

definition commitTable :: "ddb_env \<Rightarrow> string \<Rightarrow> pendingWrite \<Rightarrow> int \<Rightarrow> (string \<times> string) option \<Rightarrow> tableState \<Rightarrow> tableState" where
  "commitTable E region w now identity state =
     (let t0 = pruneTable now state;
          t1 = (case pw_new w of
              Some new \<Rightarrow> t0\<lparr>Items := AList.update (pw_keyID w) new (Items t0)\<rparr>
            | None \<Rightarrow> if pw_old w = None then t0 else t0\<lparr>Items := AList.delete (pw_keyID w) (Items t0)\<rparr>);
          t2 = (case changeEvent E w of
              None \<Rightarrow> t1
            | Some ev \<Rightarrow> appendTable region ev (pw_key w) (pw_old w) (pw_new w) now identity t1)
      in if pw_new w = None \<and> pw_old w = None then t2 else countItems t2)"

lemma map_of_commitLocked [simp]:
  "map_of (tables (commitLocked E w now identity s)) t =
     (if t = pw_table w then map_option (commitTable E (cfg_Region s) w now identity) (map_of (tables s) t)
      else map_of (tables s) t)"
  by (auto simp: commitLocked_def commitTable_def changeEvent_def Let_def option.map_comp comp_def intro!: option.map_cong split: option.splits)

lemma commitLocked_env [simp]:
  "cfg_Region (commitLocked E w now identity s) = cfg_Region s" "mu_held (commitLocked E w now identity s) = mu_held s"
  by (auto simp: commitLocked_def Let_def split: option.splits)

lemma commitTable_simps:
  "Items (commitTable E region w now identity state) = (case pw_new w of
      Some new \<Rightarrow> AList.update (pw_keyID w) new (Items state)
    | None \<Rightarrow> if pw_old w = None then Items state else AList.delete (pw_keyID w) (Items state))"
  "KeySchema (Table (commitTable E region w now identity state)) = KeySchema (Table state)"
  "TTL (commitTable E region w now identity state) = TTL state"
  by (auto simp: commitTable_def pruneTable_def appendTable_def countItems_def Let_def split: option.splits)

lemma commit_itemAt:
  assumes "fits s w"
  shows "itemAt (commitLocked E w now identity s) name keyID =
    (if name = pw_table w \<and> keyID = pw_keyID w then pw_new w else itemAt s name keyID)"
  using assms by (auto simp: itemAt_def fits_def commitTable_simps split: option.splits)

lemma commit_fits:
  assumes "fits s w'" and "(pw_table w', pw_keyID w') \<noteq> (pw_table w, pw_keyID w)" and "fits s w"
  shows "fits (commitLocked E w now identity s) w'"
  using assms by (auto simp: fits_def [of _ w'] commit_itemAt [OF assms(3)])

section \<open>Several writes\<close>

abbreviation target :: "pendingWrite \<Rightarrow> string \<times> string" where
  "target w \<equiv> (pw_table w, pw_keyID w)"

lemma fold_commit_itemAt:
  assumes "distinct (map target ws)" and "list_all (fits s) ws"
  shows "itemAt (fold (\<lambda>w. commitLocked E w now identity) ws s) name keyID =
    (case find (\<lambda>w. target w = (name, keyID)) ws of Some w \<Rightarrow> pw_new w | None \<Rightarrow> itemAt s name keyID)"
  using assms
proof (induction ws arbitrary: s)
  case (Cons w ws)
  have ne: "target w' \<noteq> target w" if "w' \<in> set ws" for w'
    using Cons.prems(1) imageI [OF that, of target] by auto
  with Cons.prems(2) have w: "fits s w" and rest: "list_all (fits (commitLocked E w now identity s)) ws"
    by (auto simp: list_all_iff intro!: commit_fits)
  have "find (\<lambda>w. target w = (name, keyID)) ws = None" if "target w = (name, keyID)"
    using ne that by (force simp: find_None_iff)
  then show ?case using Cons.IH [OF _ rest] Cons.prems(1) w by (auto simp: commit_itemAt split: option.splits)
qed simp

lemma fold_commit_env [simp]:
  "mu_held (fold (\<lambda>w. commitLocked E w now identity) ws s) = mu_held s"
  "cfg_Region (fold (\<lambda>w. commitLocked E w now identity) ws s) = cfg_Region s"
  by (induction ws arbitrary: s) auto

lemma persist_simps [simp]:
  "tables (persist s) = tables s" "mu_held (persist s) = mu_held s" "itemAt (persist s) = itemAt s" "cfg_Region (persist s) = cfg_Region s"
  by (auto simp: persist_def itemAt_def fun_eq_iff)

section \<open>Planned writes\<close>

lemma planLocked_Inr:
  assumes "planLocked E s kind inp = Some (Inr w)"
  obtains state vals new where "getTableLocked s (in_TableName inp) = Inr (pw_table w, state)"
    and "canonicalizeItem E (ExpressionAttributeValues inp) = Inr vals"
    and "plannedKey E (Table state) kind inp = Inr (new, pw_key w)"
    and "serializeKey E (pw_key w) (KeySchema (Table state)) = Inr (pw_keyID w)"
    and "pw_old w = map_of (Items state) (pw_keyID w)"
    and "evaluateConditionExpression E (ConditionExpression inp) (case pw_old w of None \<Rightarrow> [] | Some item \<Rightarrow> item)
      (ExpressionAttributeNames inp) vals = Some (Inr True)"
    and "plannedItem E (Table state) kind inp vals (pw_key w) (pw_old w) new = Inr (pw_new w)"
  using assms by (auto simp: planLocked_def Let_def rbind_Inr split: sum.splits prod.splits if_splits)

lemma getTableLocked_Inr: "getTableLocked s name = Inr (key, state) \<longleftrightarrow>
    key = normalizeTableIdentifier name \<and> map_of (tables s) key = Some state"
  by (auto simp: getTableLocked_def Let_def split: option.splits)

lemma planLocked_fits: "planLocked E s kind inp = Some (Inr w) \<Longrightarrow> fits s w"
  by (erule planLocked_Inr) (auto simp: fits_def itemAt_def getTableLocked_Inr)

section \<open>Single items\<close>

lemma writeOne_cases:
  assumes "writeOne E now kind inp s = Some (r, s')"
  obtains (failed) e where "planLocked E s kind inp = Some (Inl e)" "abandon e s = (r, s')"
  | (written) w where "planLocked E s kind inp = Some (Inr w)" "r = Inr w" "s' = persist (commitLocked E w now None s)"
proof -
  from assms obtain plan where p: "planLocked E s kind inp = Some plan"
    and r: "(case plan of Inl e \<Rightarrow> abandon e s | Inr w \<Rightarrow> (Inr w, persist (commitLocked E w now None s))) = (r, s')"
    by (auto simp: writeOne_def split: if_splits)
  then show ?thesis using failed written by (cases plan) auto
qed

lemma writeItem_cases:
  assumes "writeItem E now kind allowed inp s = Some (r, s')"
  obtains (refused) e where "r = Inl e" "s' = s"
  | (failed) e where "planLocked E s kind inp = Some (Inl e)" "r = Inl e" "s' = snd (abandon e s :: unit ddb_result \<times> ddbStore)"
  | (written) w where "planLocked E s kind inp = Some (Inr w)" "r = Inr (returnedAttributes E (ReturnValues inp) w)"
      "s' = persist (commitLocked E w now None s)"
proof (cases "checkReturnValues (ReturnValues inp) allowed")
  case None
  with assms obtain p where "writeOne E now kind inp s = Some (p, s')"
    and "r = rbind p (\<lambda>w. Inr (returnedAttributes E (ReturnValues inp) w))"
    by (auto simp: writeItem_def)
  then show ?thesis using failed written by (cases rule: writeOne_cases) (auto simp: abandon_def)
next
  case (Some e)
  with assms have "r = Inl e" "s' = s" by (auto simp: writeItem_def)
  then show ?thesis by (rule refused)
qed

lemma keyParts_cong:
  "(\<And>part. part \<in> set schema \<Longrightarrow> map_of k1 (key_AttributeName part) = map_of k2 (key_AttributeName part)) \<Longrightarrow>
     keyParts E k1 schema = keyParts E k2 schema"
  by (induction schema) (auto split: option.splits)

lemma buildKeyMap_lookup:
  "buildKeyMap item schema = Inr key \<Longrightarrow> part \<in> set schema \<Longrightarrow>
     map_of key (key_AttributeName part) = map_of item (key_AttributeName part) \<and> map_of item (key_AttributeName part) \<noteq> None"
  by (induction schema arbitrary: key) (auto simp: rbind_Inr split: option.splits if_splits)

lemma serializeKey_buildKeyMap: "buildKeyMap item schema = Inr key \<Longrightarrow> serializeKey E key schema = serializeKey E item schema"
  unfolding serializeKey_def using buildKeyMap_lookup by (metis (no_types, lifting) keyParts_cong)

text \<open>A put plans the canonical item under the key it has.\<close>

lemma plan_put:
  assumes "planLocked E s WritePut inp = Some (Inr w)"
  obtains state stored where "getTableLocked s (in_TableName inp) = Inr (pw_table w, state)"
    and "canonicalizeItem E (in_Item inp) = Inr stored" and "pw_new w = Some stored"
    and "validateItem (Table state) stored = None"
    and "buildKeyMap stored (KeySchema (Table state)) = Inr (pw_key w)"
    and "serializeKey E stored (KeySchema (Table state)) = Inr (pw_keyID w)"
proof -
  from assms obtain state vals new where p: "getTableLocked s (in_TableName inp) = Inr (pw_table w, state)"
    "plannedKey E (Table state) WritePut inp = Inr (new, pw_key w)"
    "serializeKey E (pw_key w) (KeySchema (Table state)) = Inr (pw_keyID w)" "pw_new w = new"
    by (rule planLocked_Inr) (auto simp: plannedItem_def)
  then obtain stored where i: "canonicalizeItem E (in_Item inp) = Inr stored" "new = Some stored"
    "validateItem (Table state) stored = None" "buildKeyMap stored (KeySchema (Table state)) = Inr (pw_key w)"
    by (auto simp: plannedKey_def rbind_Inr guard_def split: option.splits)
  with p that serializeKey_buildKeyMap [OF i(4)] show ?thesis by simp
qed

section \<open>A small store\<close>

definition demoEnv :: ddb_env where
  "demoEnv = \<lparr>Marshal = (\<lambda>v. case v of JObj [(k, JStr x)] \<Rightarrow> k @ '':'' @ x | _ \<Rightarrow> ''''), SprintAny = (\<lambda>v. ''''),
     ParseBig = (\<lambda>s. map_option of_int (atoi s)), AddBig = (\<lambda>a b. a + b), SubBig = (\<lambda>a b. a - b), TextBig = (\<lambda>v. itoa \<lfloor>v\<rfloor>)\<rparr>"

definition demoTable :: DynamoDBTable where
  "demoTable = \<lparr>TableName = ''t'', TableArn = '''', TableId = '''', TableStatus = ''ACTIVE'', CreationDateTime = 0,
     AttributeDefinitions = [\<lparr>def_AttributeName = ''id'', def_AttributeType = ''S''\<rparr>],
     KeySchema = [\<lparr>key_AttributeName = ''id'', key_KeyType = ''HASH''\<rparr>],
     BillingModeSummary = None, TableClassSummary = None, ProvisionedThroughput = None, LocalSecondaryIndexes = [],
     GlobalSecondaryIndexes = [], StreamSpecification = None, LatestStreamArn = '''', LatestStreamLabel = '''', Tags = [],
     ItemCount = 0, TableSizeBytes = 0, WarmThroughput = None, DeletionProtectionEnabled = False, SSEDescription = None,
     SSESpecification = None\<rparr>"

definition demoStream :: streamState where
  "demoStream = \<lparr>stream_ARN = ''arn'', stream_Label = ''l'', stream_ViewType = ''NEW_AND_OLD_IMAGES'', NextSeq = 0, Records = [],
     LastPruned = None\<rparr>"

definition demoState :: tableState where
  "demoState = \<lparr>Table = demoTable, Items = [], Stream = Some demoStream, TTL = None\<rparr>"

definition demoStore :: ddbStore where
  "demoStore = \<lparr>cfg_Region = ''r'', cfg_AccountID = ''1'', tables = [(''t'', demoState)], ddb_wakes = [], ddb_chans = 0,
     ddb_dirty = False, mu_held = False\<rparr>"

definition strAttr :: "string \<Rightarrow> json" where "strAttr x = JObj [(''S'', JStr x)]"

definition demoItem :: json_object where
  "demoItem = [(''id'', strAttr ''a''), (''v'', strAttr ''x'')]"

definition demoPut :: WriteInput where
  "demoPut = emptyInput\<lparr>in_TableName := ''t'', in_Item := demoItem\<rparr>"

lemmas demo_defs = demoEnv_def demoTable_def demoStream_def demoState_def demoStore_def strAttr_def demoItem_def demoPut_def emptyInput_def

definition demoWrite :: pendingWrite where
  "demoWrite = \<lparr>pw_table = ''t'', pw_keyID = ''id=S:a'', pw_key = [(''id'', strAttr ''a'')], pw_old = None, pw_new = Some demoItem\<rparr>"

lemma demo_plan: "planLocked demoEnv demoStore WritePut demoPut = Some (Inr demoWrite)"
  by code_simp


end
