(* ===== verification/DDB_Admin.thy ===== *)
theory DDB_Admin
  imports DDB_Write
begin

text \<open>
  Tables and their settings (\<open>internal/dynamodb/table.go\<close>, \<open>sse.go\<close> and the table, tag and TTL operations
  of \<open>store.go\<close>). The clock and its text form are arguments: \<open>now\<close> in nanoseconds and \<open>label\<close>, what
  \<open>now.Format\<close> gives. An operation that changes the store returns \<open>None\<close> when the mutex is held for good.
\<close>

section \<open>Validation\<close>

definition resourceInUseError :: "string \<Rightarrow> ddb_error" where
  "resourceInUseError msg = ServiceError ''ResourceInUseException'' msg None []"

definition sortedAttrNames :: "(string \<times> string) list \<Rightarrow> string list" where
  "sortedAttrNames m = sort (map fst m)"

fun joinSpace :: "string list \<Rightarrow> string" where
  "joinSpace [] = ''''"
| "joinSpace [p] = p"
| "joinSpace (p # ps) = p @ '' '' @ joinSpace ps"

text \<open>The loop over the parts of a schema with its two counters.\<close>

fun countKeys :: "(string \<times> string) list \<Rightarrow> DynamoDBKeySchemaElement list \<Rightarrow> nat \<Rightarrow> nat \<Rightarrow> (nat \<times> nat) ddb_result" where
  "countKeys attrTypes [] h r = Inr (h, r)"
| "countKeys attrTypes (part # schema) h r =
     (if map_of attrTypes (key_AttributeName part) = None then
        Inl (validationError (''One or more parameter values were invalid: Some index key attributes are not defined in AttributeDefinitions. Keys: [''
          @ key_AttributeName part @ ''], AttributeDefinitions: ['' @ joinSpace (sortedAttrNames attrTypes) @ '']''))
      else if key_KeyType part = ''HASH'' then countKeys attrTypes schema (Suc h) r
      else if key_KeyType part = ''RANGE'' then countKeys attrTypes schema h (Suc r)
      else Inl (validationError (''Invalid KeyType: '' @ key_KeyType part)))"

definition validateKeySchema :: "DynamoDBKeySchemaElement list \<Rightarrow> (string \<times> string) list \<Rightarrow> ddb_error option" where
  "validateKeySchema schema attrTypes =
     (if length schema = 0 \<or> length schema > 2 then Some (validationError ''KeySchema has invalid length'')
      else (case countKeys attrTypes schema 0 0 of
          Inl e \<Rightarrow> Some e
        | Inr (h, r) \<Rightarrow> if h \<noteq> 1 \<or> r > 1 then Some (validationError ''KeySchema is invalid'') else None))"

definition hashKey :: "DynamoDBKeySchemaElement list \<Rightarrow> string" where
  "hashKey schema = (case find (\<lambda>part. key_KeyType part = ''HASH'') schema of
      Some part \<Rightarrow> key_AttributeName part
    | None \<Rightarrow> '''')"

text \<open>\<open>checkIndex\<close> with the names of the indexes before it.\<close>

definition checkIndex :: "(string \<times> string) list \<Rightarrow> string list \<Rightarrow> string \<Rightarrow> DynamoDBKeySchemaElement list \<Rightarrow> DynamoDBProjection
      \<Rightarrow> ddb_error option" where
  "checkIndex attrTypes names name schema projection =
     (if name \<in> set names \<or> name = '''' then
        Some (validationError (''One or more parameter values were invalid: Duplicate index name: '' @ name))
      else (case validateKeySchema schema attrTypes of
          Some e \<Rightarrow> Some e
        | None \<Rightarrow>
            if (ProjectionType projection = ''INCLUDE'') \<noteq> (NonKeyAttributes projection \<noteq> []) then
              Some (validationError ''One or more parameter values were invalid: NonKeyAttributes must be specified only with ProjectionType INCLUDE'')
            else None))"

fun checkLocalIndexes :: "(string \<times> string) list \<Rightarrow> DynamoDBKeySchemaElement list \<Rightarrow> string list
      \<Rightarrow> DynamoDBLocalSecondaryIndex list \<Rightarrow> ddb_error option" where
  "checkLocalIndexes attrTypes tableKeys names [] = None"
| "checkLocalIndexes attrTypes tableKeys names (idx # idxs) =
     (case checkIndex attrTypes names (lsi_IndexName idx) (lsi_KeySchema idx) (lsi_Projection idx) of
        Some e \<Rightarrow> Some e
      | None \<Rightarrow>
          if length tableKeys \<noteq> 2 \<or> hashKey (lsi_KeySchema idx) \<noteq> hashKey tableKeys \<or> length (lsi_KeySchema idx) \<noteq> 2 then
            Some (validationError ''One or more parameter values were invalid: Table KeySchema and LocalSecondaryIndex KeySchema must have the same hash key and both must have a range key'')
          else checkLocalIndexes attrTypes tableKeys (lsi_IndexName idx # names) idxs)"

fun checkGlobalIndexes :: "(string \<times> string) list \<Rightarrow> string list \<Rightarrow> DynamoDBGlobalSecondaryIndex list \<Rightarrow> ddb_error option" where
  "checkGlobalIndexes attrTypes names [] = None"
| "checkGlobalIndexes attrTypes names (idx # idxs) =
     (case checkIndex attrTypes names (gsi_IndexName idx) (gsi_KeySchema idx) (gsi_Projection idx) of
        Some e \<Rightarrow> Some e
      | None \<Rightarrow> checkGlobalIndexes attrTypes (gsi_IndexName idx # names) idxs)"

text \<open>The attributes some key schema of the table uses, each once.\<close>

definition schemaAttributes :: "DynamoDBTable \<Rightarrow> string list" where
  "schemaAttributes table = remdups (map key_AttributeName
     (KeySchema table @ concat (map gsi_KeySchema (GlobalSecondaryIndexes table)) @ concat (map lsi_KeySchema (LocalSecondaryIndexes table))))"

definition validateTableDefinition :: "DynamoDBTable \<Rightarrow> ddb_error option" where
  "validateTableDefinition table =
     (let attrTypes = attributeTypeMap (AttributeDefinitions table) in
      case validateKeySchema (KeySchema table) attrTypes of
        Some e \<Rightarrow> Some e
      | None \<Rightarrow>
          if length (LocalSecondaryIndexes table) > 5 then
            Some (validationError ''One or more parameter values were invalid: Number of LocalSecondaryIndexes exceeds per-table limit of 5'')
          else if length (GlobalSecondaryIndexes table) > 20 then
            Some (validationError ''One or more parameter values were invalid: GlobalSecondaryIndex count exceeds the per-table limit of 20'')
          else firstError
            [checkLocalIndexes attrTypes (KeySchema table) [] (LocalSecondaryIndexes table),
             checkGlobalIndexes attrTypes (rev (map lsi_IndexName (LocalSecondaryIndexes table))) (GlobalSecondaryIndexes table),
             if length (schemaAttributes table) \<noteq> length attrTypes then
               Some (validationError ''One or more parameter values were invalid: Number of attributes in KeySchema does not exactly match number of attributes defined in AttributeDefinitions'')
             else None])"

definition kmsKeyARN :: "ddbStore \<Rightarrow> string \<Rightarrow> string" where
  "kmsKeyARN s raw =
     (let keyID = trimSpace raw;
          path = (if keyID = '''' then ''alias/aws/dynamodb'' else if \<not> hasPrefix keyID ''alias/'' then ''key/'' @ keyID else keyID) in
      if hasPrefix keyID ''arn:'' then keyID
      else ''arn:aws:kms:'' @ cfg_Region s @ '':'' @ cfg_AccountID s @ '':'' @ path)"

definition sseDescription :: "ddbStore \<Rightarrow> DynamoDBSSESpecification option \<Rightarrow> DynamoDBSSEDescription option ddb_result" where
  "sseDescription s spec = (case spec of
      None \<Rightarrow> Inr None
    | Some sp \<Rightarrow>
        if sse_Enabled sp \<noteq> Some True then
          (if sse_KMSMasterKeyId sp \<noteq> '''' then
             Inl (validationError ''One or more parameter values were invalid: KMSMasterKeyId can only be specified when SSE is enabled'')
           else Inr None)
        else if sse_SSEType sp \<noteq> '''' \<and> sse_SSEType sp \<noteq> ''KMS'' then
          Inl (validationError (''One or more parameter values were invalid: Unsupported SSEType '' @ sse_SSEType sp @ '', only KMS is supported''))
        else Inr (Some \<lparr>ssed_Status = ''ENABLED'', ssed_SSEType = ''KMS'', ssed_KMSMasterKeyArn = kmsKeyARN s (sse_KMSMasterKeyId sp)\<rparr>))"

section \<open>Tables\<close>

definition tableARN :: "ddbStore \<Rightarrow> string \<Rightarrow> string" where
  "tableARN s tableName = ''arn:aws:dynamodb:'' @ cfg_Region s @ '':'' @ cfg_AccountID s @ '':table/'' @ tableName"

definition streamARN :: "ddbStore \<Rightarrow> string \<Rightarrow> string \<Rightarrow> string" where
  "streamARN s tableName label = tableARN s tableName @ ''/stream/'' @ label"

definition activeWarm :: DynamoDBWarmThroughput where
  "activeWarm = \<lparr>ReadUnitsPerSecond = 1, warm_Status = ''ACTIVE'', WriteUnitsPerSecond = 1\<rparr>"

definition zeroThroughput :: DynamoDBProvisionedThroughput where
  "zeroThroughput = \<lparr>ReadCapacityUnits = 0, WriteCapacityUnits = 0, NumberOfDecreasesToday = 0\<rparr>"

definition normalizeTableCompatibility :: "DynamoDBTable \<Rightarrow> DynamoDBTable" where
  "normalizeTableCompatibility table = table\<lparr>
     TableClassSummary := (case TableClassSummary table of None \<Rightarrow> Some ''STANDARD'' | c \<Rightarrow> c),
     WarmThroughput := (case WarmThroughput table of None \<Rightarrow> Some activeWarm | w \<Rightarrow> w)\<rparr>"

definition prepareIndexes :: "DynamoDBTable \<Rightarrow> DynamoDBTable" where
  "prepareIndexes table = table\<lparr>
     LocalSecondaryIndexes := map (\<lambda>idx. idx\<lparr>lsi_IndexArn := TableArn table @ ''/index/'' @ lsi_IndexName idx\<rparr>) (LocalSecondaryIndexes table),
     GlobalSecondaryIndexes := map (\<lambda>idx. idx\<lparr>
       gsi_ProvisionedThroughput := (case gsi_ProvisionedThroughput idx of None \<Rightarrow> Some zeroThroughput | p \<Rightarrow> p),
       gsi_IndexStatus := ''ACTIVE'', gsi_WarmThroughput := Some activeWarm,
       gsi_IndexArn := TableArn table @ ''/index/'' @ gsi_IndexName idx\<rparr>) (GlobalSecondaryIndexes table)\<rparr>"

definition inIndex :: "DynamoDBKeySchemaElement list \<Rightarrow> json_object \<Rightarrow> bool" where
  "inIndex schema item \<longleftrightarrow> (case buildKeyMap item schema of Inr _ \<Rightarrow> True | Inl _ \<Rightarrow> False)"

definition describeLocked :: "tableState \<Rightarrow> DynamoDBTable" where
  "describeLocked state =
     (let out = normalizeTableCompatibility (Table state); items = map snd (Items state);
          covered = (\<lambda>schema. filter (inIndex schema) items); total = (\<lambda>its. \<Sum>item \<leftarrow> its. itemSize item) in
      out\<lparr>LocalSecondaryIndexes := map (\<lambda>idx. idx\<lparr>lsi_ItemCount := int (length (covered (lsi_KeySchema idx))),
            lsi_IndexSizeBytes := total (covered (lsi_KeySchema idx))\<rparr>) (LocalSecondaryIndexes out),
          GlobalSecondaryIndexes := map (\<lambda>idx. idx\<lparr>gsi_ItemCount := int (length (covered (gsi_KeySchema idx))),
            gsi_IndexSizeBytes := total (covered (gsi_KeySchema idx))\<rparr>) (GlobalSecondaryIndexes out),
          ItemCount := int (length items), TableSizeBytes := total items\<rparr>)"

definition newStream :: "string \<Rightarrow> string \<Rightarrow> string \<Rightarrow> streamState" where
  "newStream arn label view = \<lparr>stream_ARN = arn, stream_Label = label, stream_ViewType = view, NextSeq = 0, Records = [], LastPruned = None\<rparr>"

definition streamWanted :: "DynamoDBTable \<Rightarrow> DynamoDBStreamSpecification option" where
  "streamWanted table = (case StreamSpecification table of
      Some spec \<Rightarrow> if StreamEnabled spec then Some spec else None
    | None \<Rightarrow> None)"

text \<open>The table \<open>CreateTable\<close> builds from a definition it accepts.\<close>

definition newTable :: "ddbStore \<Rightarrow> int \<Rightarrow> string \<Rightarrow> DynamoDBSSEDescription option \<Rightarrow> DynamoDBTable \<Rightarrow> DynamoDBTable" where
  "newTable s now label sse input =
     (let name = TableName input; arn = tableARN s name;
          t = prepareIndexes (normalizeTableCompatibility (input\<lparr>TableArn := arn, TableId := name @ ''-'' @ itoa now, TableStatus := ''ACTIVE'',
            CreationDateTime := of_int (now div 1000000) / 1000,
            BillingModeSummary := (case BillingModeSummary input of
                Some m \<Rightarrow> Some (if m = '''' then ''PAY_PER_REQUEST'' else m)
              | None \<Rightarrow> Some ''PAY_PER_REQUEST''),
            ProvisionedThroughput := (case ProvisionedThroughput input of None \<Rightarrow> Some zeroThroughput | p \<Rightarrow> p),
            ItemCount := 0, TableSizeBytes := 0, SSEDescription := sse, SSESpecification := None\<rparr>)) in
      if streamWanted t = None then t else t\<lparr>LatestStreamArn := streamARN s name label, LatestStreamLabel := label\<rparr>)"

definition newTableState :: "DynamoDBTable \<Rightarrow> tableState" where
  "newTableState table = \<lparr>Table = table, Items = [],
     Stream = map_option (\<lambda>spec. newStream (LatestStreamArn table) (LatestStreamLabel table) (spec_StreamViewType spec)) (streamWanted table),
     TTL = None\<rparr>"

definition CreateTable :: "int \<Rightarrow> string \<Rightarrow> DynamoDBTable \<Rightarrow> ddbStore \<Rightarrow> (DynamoDBTable ddb_result \<times> ddbStore) option" where
  "CreateTable now label input s =
     (if trimSpace (TableName input) = '''' then Some (Inl (validationError ''TableName is required''), s)
      else if KeySchema input = [] then Some (Inl (validationError ''KeySchema is required''), s)
      else (case validateTableDefinition input of
          Some e \<Rightarrow> Some (Inl e, s)
        | None \<Rightarrow> (case sseDescription s (SSESpecification input) of
              Inl e \<Rightarrow> Some (Inl e, s)
            | Inr sse \<Rightarrow>
                if mu_held s then None
                else if map_of (tables s) (TableName input) \<noteq> None then
                  Some (Inl (resourceInUseError (''Table already exists: '' @ TableName input)), s)
                else
                  let state = newTableState (newTable s now label sse input) in
                  Some (Inr (describeLocked state), persist (s\<lparr>tables := AList.update (TableName input) state (tables s)\<rparr>)))))"

definition DescribeTable :: "string \<Rightarrow> ddbStore \<Rightarrow> DynamoDBTable ddb_result option" where
  "DescribeTable name s = readTable name (\<lambda>state. Inr (describeLocked state)) s"

text \<open>\<open>sort.SearchStrings\<close> and the loop after it skip the names up to \<open>exclusiveStart\<close>.\<close>

definition ListTables :: "int \<Rightarrow> string \<Rightarrow> ddbStore \<Rightarrow> (string list \<times> string) option" where
  "ListTables limit exclusiveStart s =
     (if mu_held s then None
      else
        let names = sort (map fst (tables s));
            rest = (if exclusiveStart = '''' then names else dropWhile (\<lambda>n. n \<le> exclusiveStart) names);
            n = (if limit \<le> 0 \<or> limit > 100 then 100 else nat limit) in
        Some (take n rest, if n < length rest then last (take n rest) else ''''))"

definition DeleteTable :: "string \<Rightarrow> ddbStore \<Rightarrow> (DynamoDBTable ddb_result \<times> ddbStore) option" where
  "DeleteTable name s =
     (if trimSpace name = '''' then Some (Inl (validationError ''TableName is required''), s)
      else if mu_held s then None
      else (case getTableLocked s name of
          Inl e \<Rightarrow> Some (Inl e, s)
        | Inr (_, state) \<Rightarrow>
            if DeletionProtectionEnabled (Table state) then
              Some (Inl (validationError ''Resource cannot be deleted as it is currently protected against deletion. Disable deletion protection first.''), s)
            else
              let s1 = (case Stream state of None \<Rightarrow> s | Some st \<Rightarrow> signalStreamLocked (stream_ARN st) s) in
              Some (Inr ((describeLocked state)\<lparr>TableStatus := ''DELETING''\<rparr>),
                persist (s1\<lparr>tables := AList.delete (TableName (Table state)) (tables s1)\<rparr>))))"

section \<open>Changing a table\<close>

datatype GlobalSecondaryIndexUpdate =
    GsiCreate DynamoDBGlobalSecondaryIndex
  | GsiDelete string
  | GsiUpdate string "DynamoDBProvisionedThroughput option"
  | GsiNone

record UpdateTableInput =
  ut_TableName :: string
  ut_AttributeDefinitions :: "DynamoDBAttributeDefinition list"
  ut_BillingMode :: string
  ut_ProvisionedThroughput :: "DynamoDBProvisionedThroughput option"
  ut_StreamSpecification :: "DynamoDBStreamSpecification option"
  ut_DeletionProtectionEnabled :: "bool option"
  ut_SSESpecification :: "DynamoDBSSESpecification option"
  ut_TableClass :: string
  ut_GlobalSecondaryIndexUpdates :: "GlobalSecondaryIndexUpdate list"

fun removeGSI :: "string \<Rightarrow> DynamoDBGlobalSecondaryIndex list \<Rightarrow> DynamoDBGlobalSecondaryIndex list ddb_result" where
  "removeGSI name [] = Inl (notFoundError (''Requested resource not found: Index: '' @ name))"
| "removeGSI name (idx # idxs) =
     (if gsi_IndexName idx = name then Inr idxs else rbind (removeGSI name idxs) (\<lambda>rest. Inr (idx # rest)))"

text \<open>\<open>findGSI\<close> and the assignment to the index it finds.\<close>

fun updateGSI :: "string \<Rightarrow> DynamoDBProvisionedThroughput option \<Rightarrow> DynamoDBGlobalSecondaryIndex list
      \<Rightarrow> DynamoDBGlobalSecondaryIndex list ddb_result" where
  "updateGSI name p [] = Inl (notFoundError (''Requested resource not found: Index: '' @ name))"
| "updateGSI name p (idx # idxs) =
     (if gsi_IndexName idx = name then Inr (idx\<lparr>gsi_ProvisionedThroughput := p\<rparr> # idxs)
      else rbind (updateGSI name p idxs) (\<lambda>rest. Inr (idx # rest)))"

fun applyGsiUpdates :: "GlobalSecondaryIndexUpdate list \<Rightarrow> DynamoDBGlobalSecondaryIndex list \<Rightarrow> DynamoDBGlobalSecondaryIndex list ddb_result" where
  "applyGsiUpdates [] idxs = Inr idxs"
| "applyGsiUpdates (GsiCreate idx # us) idxs = applyGsiUpdates us (idxs @ [idx])"
| "applyGsiUpdates (GsiDelete name # us) idxs = rbind (removeGSI name idxs) (applyGsiUpdates us)"
| "applyGsiUpdates (GsiUpdate name p # us) idxs = rbind (updateGSI name p idxs) (applyGsiUpdates us)"
| "applyGsiUpdates (GsiNone # us) idxs = applyGsiUpdates us idxs"

definition usedAttributeDefinitions :: "DynamoDBTable \<Rightarrow> DynamoDBAttributeDefinition list" where
  "usedAttributeDefinitions table = filter (\<lambda>d. def_AttributeName d \<in> set (schemaAttributes table)) (AttributeDefinitions table)"

text \<open>The changes to the indexes, on the copy of the table.\<close>

definition updateIndexes :: "UpdateTableInput \<Rightarrow> DynamoDBTable \<Rightarrow> DynamoDBTable ddb_result" where
  "updateIndexes inp table =
     (if ut_GlobalSecondaryIndexUpdates inp = [] then Inr table
      else
        let defined = attributeTypeMap (AttributeDefinitions table);
            added = filter (\<lambda>d. map_of defined (def_AttributeName d) = None) (ut_AttributeDefinitions inp) in
        rbind (applyGsiUpdates (ut_GlobalSecondaryIndexUpdates inp) (GlobalSecondaryIndexes table)) (\<lambda>idxs.
          let t1 = table\<lparr>AttributeDefinitions := AttributeDefinitions table @ added, GlobalSecondaryIndexes := idxs\<rparr>;
              t2 = t1\<lparr>AttributeDefinitions := usedAttributeDefinitions t1\<rparr> in
          guard (validateTableDefinition t2) (Inr (prepareIndexes t2))))"

definition updateSettings :: "UpdateTableInput \<Rightarrow> DynamoDBTable \<Rightarrow> DynamoDBTable" where
  "updateSettings inp table = table\<lparr>
     BillingModeSummary := (if ut_BillingMode inp \<noteq> '''' then Some (ut_BillingMode inp) else BillingModeSummary table),
     TableClassSummary := (if ut_TableClass inp \<noteq> '''' then Some (ut_TableClass inp) else TableClassSummary table),
     ProvisionedThroughput := (case ut_ProvisionedThroughput inp of None \<Rightarrow> ProvisionedThroughput table | p \<Rightarrow> p),
     DeletionProtectionEnabled := (case ut_DeletionProtectionEnabled inp of None \<Rightarrow> DeletionProtectionEnabled table | Some b \<Rightarrow> b)\<rparr>"

definition applyTableStreamUpdateLocked :: "ddbStore \<Rightarrow> string \<Rightarrow> DynamoDBStreamSpecification option \<Rightarrow> tableState \<Rightarrow> tableState" where
  "applyTableStreamUpdateLocked s label spec state = (case spec of
      None \<Rightarrow> state
    | Some sp \<Rightarrow>
        if \<not> StreamEnabled sp then
          state\<lparr>Table := (Table state)\<lparr>StreamSpecification := Some sp, LatestStreamArn := '''', LatestStreamLabel := ''''\<rparr>, Stream := None\<rparr>
        else
          let view = (if spec_StreamViewType sp = '''' then ''NEW_AND_OLD_IMAGES'' else spec_StreamViewType sp);
              t1 = (Table state)\<lparr>StreamSpecification := Some (sp\<lparr>spec_StreamViewType := view\<rparr>)\<rparr> in
          if (case Stream state of None \<Rightarrow> False | Some st \<Rightarrow> stream_ViewType st = view) then state\<lparr>Table := t1\<rparr>
          else
            let arn = streamARN s (TableName t1) label in
            state\<lparr>Table := t1\<lparr>LatestStreamArn := arn, LatestStreamLabel := label\<rparr>, Stream := Some (newStream arn label view)\<rparr>)"

definition streamArnOf :: "tableState \<Rightarrow> string" where
  "streamArnOf state = (case Stream state of None \<Rightarrow> '''' | Some st \<Rightarrow> stream_ARN st)"

text \<open>The end of \<open>UpdateTable\<close>: the new table is stored, the stream follows its specification and readers of a
  stream that is gone are woken.\<close>

definition finishUpdate :: "string \<Rightarrow> UpdateTableInput \<Rightarrow> string \<Rightarrow> tableState \<Rightarrow> ddbStore \<Rightarrow> DynamoDBTable \<times> ddbStore" where
  "finishUpdate label inp key state s =
     (let state' = applyTableStreamUpdateLocked s label (ut_StreamSpecification inp) state;
          retired = streamArnOf state;
          s1 = s\<lparr>tables := AList.update key state' (tables s)\<rparr>;
          s2 = (if ut_StreamSpecification inp \<noteq> None \<and> retired \<noteq> '''' \<and> (Stream state' = None \<or> streamArnOf state' \<noteq> retired)
                then signalStreamLocked retired s1 else s1) in
      (describeLocked state', persist s2))"

text \<open>The error of \<open>sseDescription\<close> is returned without unlocking the mutex.\<close>

definition UpdateTable :: "string \<Rightarrow> UpdateTableInput \<Rightarrow> ddbStore \<Rightarrow> (DynamoDBTable ddb_result \<times> ddbStore) option" where
  "UpdateTable label inp s =
     (if trimSpace (ut_TableName inp) = '''' then Some (Inl (validationError ''TableName is required''), s)
      else if mu_held s then None
      else (case getTableLocked s (ut_TableName inp) of
          Inl e \<Rightarrow> Some (Inl e, s)
        | Inr (key, state) \<Rightarrow> (case updateIndexes inp (Table state) of
              Inl e \<Rightarrow> Some (Inl e, s)
            | Inr table \<Rightarrow>
                let table1 = updateSettings inp table in
                (case ut_SSESpecification inp of
                   None \<Rightarrow> (case finishUpdate label inp key (state\<lparr>Table := table1\<rparr>) s of (t, s') \<Rightarrow> Some (Inr t, s'))
                 | Some spec \<Rightarrow> (case sseDescription s (Some spec) of
                     Inl e \<Rightarrow> Some (Inl e, s\<lparr>mu_held := True\<rparr>)
                   | Inr sse \<Rightarrow>
                       (case finishUpdate label inp key (state\<lparr>Table := table1\<lparr>SSEDescription := sse\<rparr>\<rparr>) s of (t, s') \<Rightarrow> Some (Inr t, s')))))))"

section \<open>Tags and expiry settings\<close>

definition sortTags :: "(string \<times> string) list \<Rightarrow> DynamoDBTag list" where
  "sortTags vals = map (\<lambda>k. \<lparr>tag_Key = k, tag_Value = the (map_of vals k)\<rparr>) (sort (map fst vals))"

definition addTags :: "DynamoDBTag list \<Rightarrow> (string \<times> string) list \<Rightarrow> (string \<times> string) list" where
  "addTags tags m = fold (\<lambda>t m. if trimSpace (tag_Key t) = '''' then m else AList.update (tag_Key t) (tag_Value t) m) tags m"

definition mergeTableTags :: "DynamoDBTag list \<Rightarrow> DynamoDBTag list \<Rightarrow> DynamoDBTag list" where
  "mergeTableTags existing incoming = sortTags (addTags incoming (addTags existing []))"

definition removeTableTags :: "DynamoDBTag list \<Rightarrow> string list \<Rightarrow> DynamoDBTag list" where
  "removeTableTags existing tagKeys =
     (if tagKeys = [] then existing else sortTags (fold AList.delete tagKeys (addTags existing [])))"

text \<open>The operations that find a table, change its state and persist.\<close>

definition changeTable :: "string \<Rightarrow> (tableState \<Rightarrow> tableState) \<Rightarrow> ddbStore \<Rightarrow> (tableState ddb_result \<times> ddbStore) option" where
  "changeTable name f s =
     (if mu_held s then None
      else (case getTableLocked s name of
          Inl e \<Rightarrow> Some (Inl e, s)
        | Inr (key, state) \<Rightarrow> Some (Inr (f state), persist (s\<lparr>tables := AList.update key (f state) (tables s)\<rparr>))))"

definition TagResource :: "string \<Rightarrow> DynamoDBTag list \<Rightarrow> ddbStore \<Rightarrow> (tableState ddb_result \<times> ddbStore) option" where
  "TagResource resource tags s =
     (if trimSpace resource = '''' then Some (Inl (validationError ''ResourceArn is required''), s)
      else changeTable resource (\<lambda>state. state\<lparr>Table := (Table state)\<lparr>Tags := mergeTableTags (Tags (Table state)) tags\<rparr>\<rparr>) s)"

definition UntagResource :: "string \<Rightarrow> string list \<Rightarrow> ddbStore \<Rightarrow> (tableState ddb_result \<times> ddbStore) option" where
  "UntagResource resource tagKeys s =
     (if trimSpace resource = '''' then Some (Inl (validationError ''ResourceArn is required''), s)
      else changeTable resource (\<lambda>state. state\<lparr>Table := (Table state)\<lparr>Tags := removeTableTags (Tags (Table state)) tagKeys\<rparr>\<rparr>) s)"

definition ListTagsOfResource :: "string \<Rightarrow> ddbStore \<Rightarrow> DynamoDBTag list ddb_result option" where
  "ListTagsOfResource resource s = readTable resource (\<lambda>state. Inr (Tags (Table state))) s"

definition UpdateTimeToLive :: "string \<Rightarrow> string \<Rightarrow> bool \<Rightarrow> ddbStore \<Rightarrow> (tableState ddb_result \<times> ddbStore) option" where
  "UpdateTimeToLive name attributeName enabled s =
     (if trimSpace name = '''' then Some (Inl (validationError ''TableName is required''), s)
      else if enabled \<and> trimSpace attributeName = '''' then Some (Inl (validationError ''AttributeName is required when enabling TTL''), s)
      else changeTable name (\<lambda>state. state\<lparr>TTL := Some (if enabled
          then \<lparr>ttl_AttributeName = trimSpace attributeName, ttl_Status = ''ENABLED''\<rparr>
          else \<lparr>ttl_AttributeName = '''', ttl_Status = ''DISABLED''\<rparr>)\<rparr>) s)"

end

