(* ===== verification/Tarn_Search.thy ===== *)
theory Tarn_Search
  imports Tarn_Prelude
begin

text \<open>
  Go's \<open>sort.Search\<close>, the binary search the DynamoDB store uses on sorted key lists and on streams, and
  what it finds on lists whose elements satisfy the predicate from some point on.
\<close>

section \<open>Binary search\<close>

text \<open>\<open>sort.Search\<close> on the interval from \<open>i\<close> to \<open>j\<close>.\<close>

function searchFrom :: "(nat \<Rightarrow> bool) \<Rightarrow> nat \<Rightarrow> nat \<Rightarrow> nat" where
  "searchFrom f i j =
     (if i < j then
        let h = (i + j) div 2 in if \<not> f h then searchFrom f (h + 1) j else searchFrom f i h
      else i)"
  by pat_completeness auto
termination by (relation "measure (\<lambda>(f, i, j). j - i)") auto

declare searchFrom.simps [simp del]

definition sortSearch :: "nat \<Rightarrow> (nat \<Rightarrow> bool) \<Rightarrow> nat" where
  "sortSearch n f = searchFrom f 0 n"

text \<open>A predicate that stays true once it is, and the point from which it is true.\<close>

definition upward :: "(nat \<Rightarrow> bool) \<Rightarrow> nat \<Rightarrow> nat \<Rightarrow> bool" where
  "upward f i j \<longleftrightarrow> (\<forall>a b. i \<le> a \<and> a \<le> b \<and> b < j \<and> f a \<longrightarrow> f b)"

definition firstFrom :: "(nat \<Rightarrow> bool) \<Rightarrow> nat \<Rightarrow> nat \<Rightarrow> nat \<Rightarrow> bool" where
  "firstFrom f i j r \<longleftrightarrow> i \<le> r \<and> r \<le> j \<and> (\<forall>k. i \<le> k \<and> k < r \<longrightarrow> \<not> f k) \<and> (\<forall>k. r \<le> k \<and> k < j \<longrightarrow> f k)"

lemma upward_sub: "upward f i j \<Longrightarrow> i \<le> i' \<Longrightarrow> j' \<le> j \<Longrightarrow> upward f i' j'"
  unfolding upward_def by (meson dual_order.trans order_less_le_trans)

lemma firstFrom_low:
  assumes "upward f i j" and "i \<le> h" "h < j" and "\<not> f h" and "firstFrom f (h + 1) j r"
  shows "firstFrom f i j r"
proof -
  have "\<not> f k" if "i \<le> k" "k < r" for k
    using assms that unfolding upward_def firstFrom_def by (metis Suc_eq_plus1 not_less_eq_eq)
  with assms(2,5) show ?thesis by (auto simp: firstFrom_def)
qed

lemma firstFrom_high:
  assumes "upward f i j" and "i \<le> h" "h < j" and "f h" and "firstFrom f i h r"
  shows "firstFrom f i j r"
proof -
  have "f k" if "r \<le> k" "k < j" for k
    using assms that unfolding upward_def firstFrom_def by (metis not_less)
  with assms(3,5) show ?thesis by (auto simp: firstFrom_def)
qed

lemma searchFrom_first: "upward f i j \<Longrightarrow> i \<le> j \<Longrightarrow> firstFrom f i j (searchFrom f i j)"
proof (induction f i j rule: searchFrom.induct)
  case (1 f i j)
  show ?case
  proof (cases "i < j")
    case False
    then have "searchFrom f i j = i" by (simp add: searchFrom.simps [of f i j])
    then show ?thesis using "1.prems"(2) False by (auto simp: firstFrom_def)
  next
    case True
    define h where "h = (i + j) div 2"
    have h: "i \<le> h" "h < j" using True unfolding h_def by auto
    show ?thesis
    proof (cases "f h")
      case False
      have "firstFrom f (h + 1) j (searchFrom f (h + 1) j)"
        by (rule "1.IH"(1) [OF True h_def False]) (use h "1.prems"(1) upward_sub in auto)
      from firstFrom_low [OF "1.prems"(1) h False this] True False show ?thesis
        by (simp add: searchFrom.simps [of f i j] h_def Let_def)
    next
      case fh: True
      have "firstFrom f i h (searchFrom f i h)"
        using "1.IH"(2) [OF True h_def] fh upward_sub [OF "1.prems"(1), of i h] h by simp
      from firstFrom_high [OF "1.prems"(1) h fh this] True fh show ?thesis
        by (simp add: searchFrom.simps [of f i j] h_def Let_def)
    qed
  qed
qed

text \<open>On a list whose elements satisfy a predicate from some point on, the search finds that point.\<close>

lemma sortSearch_suffix:
  assumes "sorted_wrt (\<lambda>x y. P x \<longrightarrow> P y) xs"
  shows "sortSearch (length xs) (\<lambda>i. P (xs ! i)) = length (takeWhile (\<lambda>x. \<not> P x) xs)"
proof -
  let ?r = "sortSearch (length xs) (\<lambda>i. P (xs ! i))"
  have "P (xs ! b)" if "a \<le> b" "b < length xs" "P (xs ! a)" for a b
    using assms that by (metis nat_less_le sorted_wrt_iff_nth_less)
  then have "upward (\<lambda>i. P (xs ! i)) 0 (length xs)" unfolding upward_def by blast
  then have f: "firstFrom (\<lambda>i. P (xs ! i)) 0 (length xs) ?r" unfolding sortSearch_def by (rule searchFrom_first) simp
  have r: "?r \<le> length xs" "\<And>k. k < ?r \<Longrightarrow> \<not> P (xs ! k)" "\<And>k. ?r \<le> k \<Longrightarrow> k < length xs \<Longrightarrow> P (xs ! k)"
    using f unfolding firstFrom_def by blast+
  have "takeWhile (\<lambda>x. \<not> P x) xs = take ?r xs"
  proof (rule takeWhile_eq_take_P_nth)
    show "\<not> P (xs ! i)" if "i < ?r" for i using r(2) that .
    show "\<not> \<not> P (xs ! ?r)" if "?r < length xs" using r(3) [OF order.refl that] by simp
  qed
  then have "length (takeWhile (\<lambda>x. \<not> P x) xs) = length (take ?r xs)" by (rule arg_cong)
  also have "\<dots> = ?r" by (simp only: length_take min_absorb2 [OF r(1)])
  finally show ?thesis by (rule sym)
qed

end
