(* ===== verification/DDB_Stream.thy ===== *)
theory DDB_Stream
  imports DDB_Write Tarn_Search
begin

text \<open>
  Reading streams (the stream functions of \<open>internal/dynamodb/store.go\<close>): the window after a sequence
  number, batches with a checkpoint, shard iterators and the wait for the next record. Iterators are
  text made and read by two functions the caller passes, where the code encodes JSON in base64. A
  waiting reader holds the number of the channel it waits on.
\<close>

definition streamShardID :: string where "streamShardID = ''shardId-000000000000''"

text \<open>A sequence number that is not a number counts as 0.\<close>

definition streamRecordSeq :: "StreamRecord \<Rightarrow> int" where
  "streamRecordSeq r = (case atoi (SequenceNumber r) of None \<Rightarrow> 0 | Some n \<Rightarrow> n)"

fun findStream :: "string \<Rightarrow> (string \<times> tableState) list \<Rightarrow> (string \<times> tableState \<times> streamState) option" where
  "findStream arn [] = None"
| "findStream arn ((name, state) # ts) = (case Stream state of
      Some st \<Rightarrow> if stream_ARN st = arn then Some (name, state, st) else findStream arn ts
    | None \<Rightarrow> findStream arn ts)"

definition findStreamLocked :: "ddbStore \<Rightarrow> string \<Rightarrow> (string \<times> tableState \<times> streamState) ddb_result" where
  "findStreamLocked s arn = (case findStream arn (tables s) of
      Some found \<Rightarrow> Inr found
    | None \<Rightarrow> Inl (notFoundError ''Requested resource not found''))"

text \<open>\<open>streamWindow\<close>: the records, or the channel to wait on when there are none and the caller wants to wait.\<close>

definition streamWindow :: "int \<Rightarrow> string \<Rightarrow> int \<Rightarrow> int \<Rightarrow> bool \<Rightarrow> ddbStore
      \<Rightarrow> ((StreamRecord list \<times> nat option) ddb_result \<times> ddbStore) option" where
  "streamWindow now arn startSeq limit waitForWrite s =
     (if mu_held s then None
      else (case findStreamLocked s arn of
          Inl e \<Rightarrow> Some (Inl e, s)
        | Inr (name, state, st) \<Rightarrow>
            let st1 = pruneStreamLocked now st;
                s1 = s\<lparr>tables := AList.update name (state\<lparr>Stream := Some st1\<rparr>) (tables s)\<rparr>;
                records = Records st1;
                start = sortSearch (length records) (\<lambda>i. streamRecordSeq (records ! i) \<ge> startSeq) in
            if start \<ge> length records then
              (if waitForWrite then (case streamWaitChanLocked arn s1 of (c, s2) \<Rightarrow> Some (Inr ([], Some c), s2))
               else Some (Inr ([], None), s1))
            else Some (Inr (take (nat limit) (drop start records), None), s1)))"

definition streamBatch :: "int \<Rightarrow> string \<Rightarrow> string \<Rightarrow> int \<Rightarrow> bool \<Rightarrow> ddbStore
      \<Rightarrow> ((StreamRecord list \<times> string \<times> nat option) ddb_result \<times> ddbStore) option" where
  "streamBatch now arn lastSequence limit waitForWrite s =
     (let from1 = (if trimSpace lastSequence = '''' then Some 1 else map_option (\<lambda>n. wrap64 (n + 1)) (atoi lastSequence)) in
      case from1 of
        None \<Rightarrow> Some (Inl (validationError ''Invalid checkpoint sequence''), s)
      | Some startSeq \<Rightarrow>
          map_option (\<lambda>(r, s'). (rbind r (\<lambda>(records, wake).
              Inr (records, if records = [] then '''' else SequenceNumber (last records), wake)), s'))
            (streamWindow now arn startSeq (if limit \<le> 0 then 100 else limit) waitForWrite s))"

definition StreamBatch :: "int \<Rightarrow> string \<Rightarrow> string \<Rightarrow> int \<Rightarrow> ddbStore
      \<Rightarrow> ((StreamRecord list \<times> string) ddb_result \<times> ddbStore) option" where
  "StreamBatch now arn lastSequence limit s =
     map_option (\<lambda>(r, s'). (rbind r (\<lambda>(records, nxt, _). Inr (records, nxt)), s')) (streamBatch now arn lastSequence limit False s)"

text \<open>One turn of the loop of \<open>StreamBatchUntil\<close>: the clock when the stream is read and when the rest of the
  wait is measured, what ends the wait, and what other calls did to the store before the next turn.\<close>

datatype streamEvent = StreamWoken | StreamTimer | StreamCancel

record streamTurn =
  st_now :: int
  st_clock :: int
  st_event :: streamEvent
  st_others :: "ddbStore \<Rightarrow> ddbStore"

fun streamLoop :: "string \<Rightarrow> string \<Rightarrow> int \<Rightarrow> int \<Rightarrow> streamTurn list \<Rightarrow> ddbStore
      \<Rightarrow> ((StreamRecord list \<times> string) ddb_result \<times> ddbStore) option" where
  "streamLoop arn lastSequence limit deadline [] s = None"
| "streamLoop arn lastSequence limit deadline (t # ts) s =
     (case streamBatch (st_now t) arn lastSequence limit True s of
        None \<Rightarrow> None
      | Some (Inl e, s1) \<Rightarrow> Some (Inl e, s1)
      | Some (Inr (records, nxt, wake), s1) \<Rightarrow>
          if records \<noteq> [] then Some (Inr (records, nxt), s1)
          else if deadline - st_clock t \<le> 0 then Some (Inr ([], ''''), s1)
          else (case st_event t of
              StreamWoken \<Rightarrow> streamLoop arn lastSequence limit deadline ts (st_others t s1)
            | StreamTimer \<Rightarrow> Some (Inr ([], ''''), st_others t s1)
            | StreamCancel \<Rightarrow> Some (Inr ([], ''''), st_others t s1)))"

definition StreamBatchUntil :: "string \<Rightarrow> string \<Rightarrow> int \<Rightarrow> int \<Rightarrow> int \<Rightarrow> int \<Rightarrow> streamTurn list \<Rightarrow> ddbStore
      \<Rightarrow> ((StreamRecord list \<times> string) ddb_result \<times> ddbStore) option" where
  "StreamBatchUntil arn lastSequence limit now startNs waitTimeSec turns s =
     (if waitTimeSec \<le> 0 then StreamBatch now arn lastSequence limit s
      else streamLoop arn lastSequence limit (startNs + wrap64 (waitTimeSec * 1000000000)) turns s)"

section \<open>Shard iterators\<close>

text \<open>What \<open>decodeShardIterator\<close> accepts of a decoded payload.\<close>

definition decodeShardIterator :: "(string \<Rightarrow> (string \<times> int) option) \<Rightarrow> string \<Rightarrow> (string \<times> int) option" where
  "decodeShardIterator dec token = (case dec token of
      None \<Rightarrow> None
    | Some (arn, startSeq) \<Rightarrow> if arn = '''' then None else Some (arn, if startSeq \<le> 0 then 1 else startSeq))"

definition GetShardIterator :: "(string \<Rightarrow> int \<Rightarrow> string) \<Rightarrow> string \<Rightarrow> string \<Rightarrow> string \<Rightarrow> string \<Rightarrow> ddbStore \<Rightarrow> string ddb_result option" where
  "GetShardIterator enc arn shardID iteratorType sequenceNumber s =
     (if mu_held s then None
      else Some (rbind (findStreamLocked s arn) (\<lambda>(_, _, st).
        let kind = toUpper (trimSpace iteratorType); given = atoi sequenceNumber;
            bad = Inl (validationError ''Invalid SequenceNumber'') in
        if shardID \<noteq> streamShardID then Inl (validationError ''Requested shard does not exist'')
        else if kind = ''TRIM_HORIZON'' then Inr (enc arn 1)
        else if kind = ''LATEST'' then Inr (enc arn (NextSeq st + 1))
        else if kind = ''AT_SEQUENCE_NUMBER'' then (case given of None \<Rightarrow> bad | Some n \<Rightarrow> Inr (enc arn n))
        else if kind = ''AFTER_SEQUENCE_NUMBER'' then (case given of None \<Rightarrow> bad | Some n \<Rightarrow> Inr (enc arn (wrap64 (n + 1))))
        else Inl (validationError (''Invalid ShardIteratorType: '' @ iteratorType)))))"

definition GetRecords :: "(string \<Rightarrow> (string \<times> int) option) \<Rightarrow> (string \<Rightarrow> int \<Rightarrow> string) \<Rightarrow> int \<Rightarrow> string \<Rightarrow> int \<Rightarrow> ddbStore
      \<Rightarrow> ((StreamRecord list \<times> string) ddb_result \<times> ddbStore) option" where
  "GetRecords dec enc now iterator limit s =
     (case decodeShardIterator dec iterator of
        None \<Rightarrow> Some (Inl (validationError ''Invalid ShardIterator''), s)
      | Some (arn, startSeq) \<Rightarrow>
          map_option (\<lambda>(r, s'). (rbind r (\<lambda>(records, _).
              Inr (records, enc arn (if records = [] then startSeq else wrap64 (streamRecordSeq (last records) + 1)))), s'))
            (streamWindow now arn startSeq (if limit \<le> 0 \<or> limit > 1000 then 1000 else limit) False s))"

end
