(* ===== verification/DDB_Lock.thy ===== *)
theory DDB_Lock
  imports DDB_Integrity DDB_Admin DDB_Stream DDB_Language
begin

text \<open>
  The mutex of the store: the paths that leave it locked for good, after which no operation on the
  store returns.
\<close>

section \<open>A locked store\<close>

text \<open>Nothing that takes the mutex returns.\<close>

definition blocked :: "ddbStore \<Rightarrow> bool" where
  "blocked s \<longleftrightarrow> (\<forall>E now kind inp. writeOne E now kind inp s = None) \<and>
     (\<forall>E table key names. GetItem E table key '''' names s = None) \<and>
     (\<forall>name. DescribeTable name s = None) \<and> (\<forall>limit start. ListTables limit start s = None) \<and>
     (\<forall>E now. sweepExpired E now s = None) \<and>
     (\<forall>now arn startSeq limit wait. streamWindow now arn startSeq limit wait s = None)"

lemma held_blocked: "mu_held s \<Longrightarrow> blocked s"
  by (simp add: blocked_def writeOne_def GetItem_def readTable_def DescribeTable_def ListTables_def sweepExpired_def streamWindow_def)

section \<open>Panics while planning\<close>

lemma tokens_attribute_type:
  "tokenizeExpression ''attribute_type(a, b)'' =
     Some [word ''attribute_type'', kw ''('', word ''a'', kw '','', word ''b'', kw '')'']"
  by (simp add: tokenizeExpression.simps isBlank_def isExprChar_def wordToken_def toUpper_def upperChar_def word_def kw_def)

lemma parse_attribute_type:
  "parseExpression [word ''attribute_type'', kw ''('', word ''a'', kw '','', word ''b'', kw '')''] =
     Inr (FunctionNode ''attribute_type'' [OperandNode ''a'' False, OperandNode ''b'' False], [])"
  by code_simp

lemma evalOperand_name:
  "evalOperand item [] vals ''a'' False = Inr (case map_of item ''a'' of None \<Rightarrow> (JNull, False) | Some v \<Rightarrow> (v, True))"
  "evalOperand item [] vals ''b'' False = Inr (case map_of item ''b'' of None \<Rightarrow> (JNull, False) | Some v \<Rightarrow> (v, True))"
  by (auto simp: evalOperand_def resolvePath_def resolvePart_def stripIndexes.simps getPathValue_def nameSeg_def trimSpace_def isSpace_def
      split: option.splits)

lemma attribute_type_panics:
  assumes "map_of item ''a'' = Some v" and "map_of item ''b'' = None"
  shows "evaluateConditionExpression E ''attribute_type(a, b)'' item [] vals = Some (Inl GoPanic)"
proof -
  have "trimSpace ''attribute_type(a, b)'' \<noteq> ''''" by code_simp
  moreover have "toLower ''attribute_type'' = ''attribute_type''" by code_simp
  ultimately show ?thesis using assms
    by (simp add: evaluateConditionExpression_def tokens_attribute_type parse_attribute_type evalOperand_name whenPresent_def)
qed

text \<open>C18: A condition \<open>attribute_type(a, b)\<close> on an item that has \<open>a\<close> but not \<open>b\<close> makes the write panic while it holds the
  mutex, and after that no operation on the store returns.\<close>

theorem panicking_condition_blocks_store:
  assumes "getTableLocked s (in_TableName inp) = Inr (name, state)" and "\<not> mu_held s"
    and "canonicalizeItem E (ExpressionAttributeValues inp) = Inr vals"
    and "plannedKey E (Table state) kind inp = Inr (new, key)"
    and "serializeKey E key (KeySchema (Table state)) = Inr keyID"
    and "map_of (Items state) keyID = Some item"
    and "map_of item ''a'' = Some v" and "map_of item ''b'' = None"
    and "ConditionExpression inp = ''attribute_type(a, b)''" and "ExpressionAttributeNames inp = []"
  shows "\<exists>s'. writeOne E now kind inp s = Some (Inl GoPanic, s') \<and> blocked s'"
proof -
  have "planLocked E s kind inp = Some (Inl GoPanic)"
    using assms attribute_type_panics [OF assms(7,8), of E vals] by (simp add: planLocked_def Let_def)
  then have "writeOne E now kind inp s = Some (Inl GoPanic, s\<lparr>mu_held := True\<rparr>)"
    using assms(2) by (simp add: writeOne_def abandon_def)
  then show ?thesis using held_blocked by auto
qed

definition demoConditional :: WriteInput where
  "demoConditional = demoPut\<lparr>in_Item := [(''id'', strAttr ''a'')], ConditionExpression := ''attribute_type(a, b)''\<rparr>"

definition demoFull :: ddbStore where
  "demoFull = demoStore\<lparr>tables := [(''t'', demoState\<lparr>Items := [(''id=S:a'', [(''id'', strAttr ''a''), (''a'', strAttr ''x'')])]\<rparr>)]\<rparr>"

theorem panicking_condition_blocks_store_witness:
  "\<exists>s'. writeOne demoEnv 0 WritePut demoConditional demoFull = Some (Inl GoPanic, s') \<and> blocked s'"
proof (rule panicking_condition_blocks_store)
  let ?state = "demoState\<lparr>Items := [(''id=S:a'', [(''id'', strAttr ''a''), (''a'', strAttr ''x'')])]\<rparr>"
  show "getTableLocked demoFull (in_TableName demoConditional) = Inr (''t'', ?state)" by code_simp
  show "\<not> mu_held demoFull" by code_simp
  show "canonicalizeItem demoEnv (ExpressionAttributeValues demoConditional) = Inr []" by code_simp
  show "plannedKey demoEnv (Table ?state) WritePut demoConditional = Inr (Some [(''id'', strAttr ''a'')], [(''id'', strAttr ''a'')])" by code_simp
  show "serializeKey demoEnv [(''id'', strAttr ''a'')] (KeySchema (Table ?state)) = Inr ''id=S:a''" by code_simp
  show "map_of (Items ?state) ''id=S:a'' = Some [(''id'', strAttr ''a''), (''a'', strAttr ''x'')]" by code_simp
  show "map_of [(''id'', strAttr ''a''), (''a'', strAttr ''x'')] ''a'' = Some (strAttr ''x'')" by code_simp
  show "map_of [(''id'', strAttr ''a''), (''a'', strAttr ''x'')] ''b'' = None" by code_simp
  show "ConditionExpression demoConditional = ''attribute_type(a, b)''" by code_simp
  show "ExpressionAttributeNames demoConditional = []" by code_simp
qed

section \<open>An encryption setting that is refused\<close>

text \<open>UpdateTable with an encryption specification that is refused returns the error with the mutex still locked, and
  after that no operation on the store returns.\<close>

theorem refused_encryption_blocks_store:
  assumes "trimSpace (ut_TableName inp) \<noteq> ''''" and "\<not> mu_held s"
    and "getTableLocked s (ut_TableName inp) = Inr (key, state)" and "updateIndexes inp (Table state) = Inr table"
    and "ut_SSESpecification inp = Some spec" and "sseDescription s (Some spec) = Inl e"
  shows "\<exists>s'. UpdateTable label inp s = Some (Inl e, s') \<and> tables s' = tables s \<and> blocked s'"
proof -
  have "UpdateTable label inp s = Some (Inl e, s\<lparr>mu_held := True\<rparr>)" using assms by (simp add: UpdateTable_def Let_def)
  then show ?thesis using held_blocked by auto
qed

definition demoSse :: UpdateTableInput where
  "demoSse = \<lparr>ut_TableName = ''t'', ut_AttributeDefinitions = [], ut_BillingMode = '''', ut_ProvisionedThroughput = None,
     ut_StreamSpecification = None, ut_DeletionProtectionEnabled = None,
     ut_SSESpecification = Some \<lparr>sse_Enabled = Some True, sse_SSEType = ''AES256'', sse_KMSMasterKeyId = ''''\<rparr>,
     ut_TableClass = '''', ut_GlobalSecondaryIndexUpdates = []\<rparr>"

theorem refused_encryption_blocks_store_witness:
  "\<exists>s'. UpdateTable ''l'' demoSse demoStore =
      Some (Inl (validationError ''One or more parameter values were invalid: Unsupported SSEType AES256, only KMS is supported''), s') \<and>
    tables s' = tables demoStore \<and> blocked s'"
proof (rule refused_encryption_blocks_store)
  show "trimSpace (ut_TableName demoSse) \<noteq> ''''" by code_simp
  show "\<not> mu_held demoStore" by code_simp
  show "getTableLocked demoStore (ut_TableName demoSse) = Inr (''t'', demoState)" by code_simp
  show "updateIndexes demoSse (Table demoState) = Inr demoTable" by code_simp
  show "ut_SSESpecification demoSse = Some \<lparr>sse_Enabled = Some True, sse_SSEType = ''AES256'', sse_KMSMasterKeyId = ''''\<rparr>" by code_simp
  show "sseDescription demoStore (Some \<lparr>sse_Enabled = Some True, sse_SSEType = ''AES256'', sse_KMSMasterKeyId = ''''\<rparr>) =
      Inl (validationError ''One or more parameter values were invalid: Unsupported SSEType AES256, only KMS is supported'')" by code_simp
qed

end
