(* ===== verification/DDB_ChangeLog.thy ===== *)
theory DDB_ChangeLog
  imports DDB_Integrity "HOL-Library.Sublist"
begin

text \<open>
  The stream of a table as a log of its changes: the records a run of commits appends, what is kept of
  them, and that replaying them rebuilds the table.
\<close>

section \<open>The record of a commit\<close>

definition emitted :: "ddb_env \<Rightarrow> string \<Rightarrow> (string \<times> string) option \<Rightarrow> pendingWrite \<Rightarrow> int \<Rightarrow> streamState \<Rightarrow> StreamRecord list" where
  "emitted E region identity w now st = (case changeEvent E w of
      None \<Rightarrow> []
    | Some ev \<Rightarrow> [streamRecord region (st\<lparr>NextSeq := NextSeq st + 1\<rparr>) ev (pw_key w) (pw_old w) (pw_new w) now identity])"

lemma streamRecord_cong:
  "NextSeq st = NextSeq st' \<Longrightarrow> stream_ViewType st = stream_ViewType st' \<Longrightarrow> stream_ARN st = stream_ARN st' \<Longrightarrow>
     streamRecord region st ev key old new now identity = streamRecord region st' ev key old new now identity"
  by (simp add: streamRecord_def)

definition youngAt :: "int \<Rightarrow> StreamRecord \<Rightarrow> bool" where
  "youngAt now r \<longleftrightarrow> now - ApproximateCreationDateTime r * 1000000000 \<le> 24 * 3600 * 1000000000"

lemma pruneStreamLocked_simps [simp]:
  "NextSeq (pruneStreamLocked now st) = NextSeq st" "stream_ViewType (pruneStreamLocked now st) = stream_ViewType st"
  "stream_ARN (pruneStreamLocked now st) = stream_ARN st"
  by (simp_all add: pruneStreamLocked_def evictOldStreamRecordsLocked_def)

lemma evict_simps [simp]:
  "NextSeq (evictOldStreamRecordsLocked st) = NextSeq st" "stream_ViewType (evictOldStreamRecordsLocked st) = stream_ViewType st"
  "stream_ARN (evictOldStreamRecordsLocked st) = stream_ARN st" "LastPruned (evictOldStreamRecordsLocked st) = LastPruned st"
  "length (Records (evictOldStreamRecordsLocked st)) = min (length (Records st)) maxStreamRecords"
  by (auto simp: evictOldStreamRecordsLocked_def)

lemma subseq_drop_le: "subseq (drop n xs) xs"
  by (metis append_take_drop_id list_emb_append2 subseq_order.order_refl)

lemma pruneStreamLocked_Records:
  "Records (pruneStreamLocked now st) = (let kept = filter (youngAt now) (Records st) in
     if prunedRecently now st then Records st else drop (length kept - maxStreamRecords) kept)"
  by (simp add: pruneStreamLocked_def evictOldStreamRecordsLocked_def youngAt_def [abs_def] Let_def)

lemma pruneStream_records:
  "subseq (Records (pruneStreamLocked now st)) (Records st)"
  "length (Records st) \<le> maxStreamRecords \<Longrightarrow> list_all (youngAt now) (Records st) \<Longrightarrow>
     Records (pruneStreamLocked now st) = Records st"
proof -
  have "subseq (drop n (filter (youngAt now) (Records st))) (Records st)" for n
    using subseq_drop_le subseq_filter_left subseq_order.trans by blast
  then show "subseq (Records (pruneStreamLocked now st)) (Records st)"
    by (simp add: pruneStreamLocked_Records Let_def)
  assume "length (Records st) \<le> maxStreamRecords" "list_all (youngAt now) (Records st)"
  moreover from this(2) have "filter (youngAt now) (Records st) = Records st" by (simp add: filter_id_conv list_all_iff)
  ultimately show "Records (pruneStreamLocked now st) = Records st"
    by (simp add: pruneStreamLocked_Records Let_def)
qed

text \<open>What a commit does to the stream of its table.\<close>

lemma commitTable_stream:
  assumes "Stream state = Some st"
  obtains st' where "Stream (commitTable E region w now identity state) = Some st'"
    and "NextSeq st' = NextSeq st + int (length (emitted E region identity w now st))"
    and "stream_ViewType st' = stream_ViewType st" and "stream_ARN st' = stream_ARN st"
    and "subseq (Records st') (Records st @ emitted E region identity w now st)"
    and "length (Records st @ emitted E region identity w now st) \<le> maxStreamRecords \<Longrightarrow> list_all (youngAt now) (Records st) \<Longrightarrow>
      Records st' = Records st @ emitted E region identity w now st"
proof -
  let ?p = "pruneStreamLocked now st"
  let ?st' = "case changeEvent E w of None \<Rightarrow> ?p
    | Some ev \<Rightarrow> appendRecord region ev (pw_key w) (pw_old w) (pw_new w) now identity ?p"
  let ?rec = "\<lambda>ev. streamRecord region (?p\<lparr>NextSeq := NextSeq ?p + 1\<rparr>) ev (pw_key w) (pw_old w) (pw_new w) now identity"
  have r: "emitted E region identity w now st = (case changeEvent E w of None \<Rightarrow> [] | Some ev \<Rightarrow> [?rec ev])"
    by (auto simp: emitted_def intro!: streamRecord_cong split: option.splits)
  have "Stream (commitTable E region w now identity state) = Some ?st'"
    using assms by (auto simp: commitTable_def pruneTable_def appendTable_def countItems_def Let_def split: option.splits)
  moreover have "NextSeq ?st' = NextSeq st + int (length (emitted E region identity w now st))"
    "stream_ViewType ?st' = stream_ViewType st" "stream_ARN ?st' = stream_ARN st"
    by (auto simp: r appendRecord_def Let_def split: option.splits)
  moreover have "subseq (Records ?st') (Records st @ emitted E region identity w now st)"
  proof -
    have "subseq (drop n (Records ?p @ [?rec ev])) (Records st @ [?rec ev])" for n ev
      using subseq_drop_le [of n "Records ?p @ [?rec ev]"] list_emb_append_mono [OF pruneStream_records(1), of "[?rec ev]" "[?rec ev]"]
        subseq_order.trans by blast
    then show ?thesis using pruneStream_records(1) [of now st]
      by (auto simp: r appendRecord_def evictOldStreamRecordsLocked_def Let_def simp del: drop_append split: option.splits)
  qed
  moreover have "Records ?st' = Records st @ emitted E region identity w now st"
    if "length (Records st @ emitted E region identity w now st) \<le> maxStreamRecords" "list_all (youngAt now) (Records st)"
  proof -
    have "Records ?p = Records st" using that by (intro pruneStream_records(2)) auto
    with that show ?thesis by (auto simp: r appendRecord_def evictOldStreamRecordsLocked_def Let_def split: option.splits)
  qed
  ultimately show ?thesis by (rule that)
qed

section \<open>Replaying\<close>

definition recordID :: "ddb_env \<Rightarrow> DynamoDBKeySchemaElement list \<Rightarrow> StreamRecord \<Rightarrow> string" where
  "recordID E schema r = (case serializeKey E (Keys r) schema of Inr keyID \<Rightarrow> keyID | Inl _ \<Rightarrow> '''')"

definition replay :: "ddb_env \<Rightarrow> DynamoDBKeySchemaElement list \<Rightarrow> StreamRecord \<Rightarrow> (string \<Rightarrow> json_object option) \<Rightarrow> string \<Rightarrow> json_object option" where
  "replay E schema r content = content(recordID E schema r := NewImage r)"

text \<open>Two contents agree when the items under each key are equal as attribute values.\<close>

definition sameItem :: "ddb_env \<Rightarrow> json_object \<Rightarrow> json_object \<Rightarrow> bool" where
  "sameItem E a b \<longleftrightarrow> a = b \<or> attributeValueEqual E (JObj [(''M'', JObj a)]) (JObj [(''M'', JObj b)])"

lemma sameItem_equiv:
  "sameItem E a a" "sameItem E a b \<Longrightarrow> sameItem E b a" "sameItem E a b \<Longrightarrow> sameItem E b c \<Longrightarrow> sameItem E a c"
  by (auto simp: sameItem_def attributeValueEqual_canonical)

definition agree :: "ddb_env \<Rightarrow> (string \<Rightarrow> json_object option) \<Rightarrow> (string \<Rightarrow> json_object option) \<Rightarrow> bool" where
  "agree E c d \<longleftrightarrow> (\<forall>keyID. rel_option (sameItem E) (c keyID) (d keyID))"

lemma agree_refl: "agree E c c"
  by (auto simp: agree_def sameItem_equiv intro: option.rel_refl)

lemma agree_trans: "agree E a b \<Longrightarrow> agree E b c \<Longrightarrow> agree E a c"
proof -
  assume ab: "agree E a b" and bc: "agree E b c"
  have "rel_option (sameItem E) (a k) (c k)" for k
  proof -
    have "rel_option (sameItem E) (a k) (b k)" "rel_option (sameItem E) (b k) (c k)" using ab bc by (auto simp: agree_def)
    then show ?thesis by (auto simp: option_rel_Some1 option_rel_Some2 intro: sameItem_equiv(3) elim!: option.rel_cases)
  qed
  then show "agree E a c" by (simp add: agree_def)
qed

lemma agree_replays: "agree E c d \<Longrightarrow> agree E (fold (replay E schema) rs c) (fold (replay E schema) rs d)"
proof (induction rs arbitrary: c d)
  case (Cons r rs)
  from Cons.prems have "agree E (replay E schema r c) (replay E schema r d)"
    by (auto simp: agree_def replay_def sameItem_equiv intro: option.rel_refl)
  then show ?case using Cons.IH by simp
qed simp

definition imagesKept :: "streamState \<Rightarrow> bool" where
  "imagesKept st \<longleftrightarrow> stream_ViewType st = ''NEW_IMAGE'' \<or> stream_ViewType st = ''NEW_AND_OLD_IMAGES''"

definition writeFits :: "ddb_env \<Rightarrow> tableState \<Rightarrow> pendingWrite \<Rightarrow> bool" where
  "writeFits E state w \<longleftrightarrow> pw_old w = map_of (Items state) (pw_keyID w) \<and>
     serializeKey E (pw_key w) (KeySchema (Table state)) = Inr (pw_keyID w)"

lemma commitTable_replay:
  assumes "writeFits E state w" and "imagesKept st"
  shows "agree E (fold (replay E (KeySchema (Table state))) (emitted E region identity w now st) (map_of (Items state)))
    (map_of (Items (commitTable E region w now identity state)))"
proof -
  let ?schema = "KeySchema (Table state)"
  have "map_of (Items (commitTable E region w now identity state)) = (map_of (Items state))(pw_keyID w := pw_new w)"
    using assms(1) by (auto simp: commitTable_simps writeFits_def fun_eq_iff split: option.splits)
  moreover have "fold (replay E ?schema) (emitted E region identity w now st) (map_of (Items state)) =
      (if changeEvent E w = None then map_of (Items state) else (map_of (Items state))(pw_keyID w := pw_new w))"
    using assms by (auto simp: emitted_def replay_def recordID_def streamRecord_def writeFits_def imagesKept_def Let_def split: option.splits)
  moreover have "agree E (map_of (Items state)) ((map_of (Items state))(pw_keyID w := pw_new w))" if "changeEvent E w = None"
    using assms(1) that by (auto simp: changeEvent_def writeFits_def agree_def sameItem_def sameItem_equiv split: option.splits if_splits
        intro!: option.rel_refl)
  ultimately show ?thesis by (simp add: agree_refl)
qed

section \<open>A run of writes\<close>

text \<open>Single writes one after the other, each with the instant it is made at; \<open>None\<close> when one does not return.\<close>

fun runWrites :: "ddb_env \<Rightarrow> (writeKind \<times> WriteInput \<times> int) list \<Rightarrow> ddbStore \<Rightarrow> ddbStore option" where
  "runWrites E [] s = Some s"
| "runWrites E ((kind, inp, now) # reqs) s = (case writeOne E now kind inp s of
      None \<Rightarrow> None
    | Some (_, s1) \<Rightarrow> runWrites E reqs s1)"

definition requestTimes :: "(writeKind \<times> WriteInput \<times> int) list \<Rightarrow> int list" where
  "requestTimes reqs = map (snd \<circ> snd) reqs"

text \<open>The relation of a table before and after a run, with the records the run made.\<close>

definition logged :: "ddb_env \<Rightarrow> int list \<Rightarrow> tableState \<Rightarrow> StreamRecord list \<Rightarrow> tableState \<Rightarrow> bool" where
  "logged E instants state recs state' \<longleftrightarrow> (\<exists>st st'. Stream state = Some st \<and> Stream state' = Some st' \<and>
     imagesKept st' \<and> KeySchema (Table state') = KeySchema (Table state) \<and>
     map SequenceNumber recs = map itoa [NextSeq st + 1..NextSeq st'] \<and> NextSeq st \<le> NextSeq st' \<and>
     subseq (Records st') (Records st @ recs) \<and>
     (length (Records st @ recs) \<le> maxStreamRecords \<and> (\<forall>now \<in> set instants. list_all (youngAt now) (Records st @ recs)) \<longrightarrow>
        Records st' = Records st @ recs) \<and>
     agree E (fold (replay E (KeySchema (Table state))) recs (map_of (Items state))) (map_of (Items state')))"

lemma logged_refl: "Stream state = Some st \<Longrightarrow> imagesKept st \<Longrightarrow> logged E instants state [] state"
  by (simp add: logged_def agree_refl)

lemma upto_glue: "a \<le> b \<Longrightarrow> b \<le> c \<Longrightarrow> [a + 1..b] @ [b + 1..c] = [a + 1..c :: int]"
proof (cases "b = c")
  case False
  assume "a \<le> b" "b \<le> c"
  with False show ?thesis using upto_split1 [of "a + 1" "b + 1" c] by simp
qed simp

lemma logged_trans:
  assumes "logged E [now] s1 log1 s2" and "logged E instants s2 log2 s3"
  shows "logged E (now # instants) s1 (log1 @ log2) s3"
proof -
  from assms(1) obtain t1 t2 where t1: "Stream s1 = Some t1" "Stream s2 = Some t2"
    and sch1: "KeySchema (Table s2) = KeySchema (Table s1)"
    and seq1: "map SequenceNumber log1 = map itoa [NextSeq t1 + 1..NextSeq t2]" "NextSeq t1 \<le> NextSeq t2"
    and sub1: "subseq (Records t2) (Records t1 @ log1)"
    and keep1: "length (Records t1 @ log1) \<le> maxStreamRecords \<and> (\<forall>n \<in> set [now]. list_all (youngAt n) (Records t1 @ log1)) \<longrightarrow>
      Records t2 = Records t1 @ log1"
    and ag1: "agree E (fold (replay E (KeySchema (Table s1))) log1 (map_of (Items s1))) (map_of (Items s2))"
    unfolding logged_def by blast
  from assms(2) t1(2) obtain t3 where t3: "Stream s3 = Some t3" "imagesKept t3"
    and sch2: "KeySchema (Table s3) = KeySchema (Table s2)"
    and seq2: "map SequenceNumber log2 = map itoa [NextSeq t2 + 1..NextSeq t3]" "NextSeq t2 \<le> NextSeq t3"
    and sub2: "subseq (Records t3) (Records t2 @ log2)"
    and keep2: "length (Records t2 @ log2) \<le> maxStreamRecords \<and> (\<forall>n \<in> set instants. list_all (youngAt n) (Records t2 @ log2)) \<longrightarrow>
      Records t3 = Records t2 @ log2"
    and ag2: "agree E (fold (replay E (KeySchema (Table s2))) log2 (map_of (Items s2))) (map_of (Items s3))"
    unfolding logged_def by (metis option.inject)
  have "subseq (Records t3) (Records t1 @ log1 @ log2)"
    using sub2 list_emb_append_mono [OF sub1, of log2 log2] by (auto intro: subseq_order.trans)
  moreover have "agree E (fold (replay E (KeySchema (Table s1))) (log1 @ log2) (map_of (Items s1))) (map_of (Items s3))"
    using agree_trans [OF agree_replays [OF ag1] ag2 [unfolded sch1]] by simp
  moreover have "map SequenceNumber (log1 @ log2) = map itoa [NextSeq t1 + 1..NextSeq t3]"
    by (simp only: map_append seq1(1) seq2(1) flip: upto_glue [OF seq1(2) seq2(2)])
  moreover have "Records t3 = Records t1 @ log1 @ log2"
    if "length (Records t1 @ log1 @ log2) \<le> maxStreamRecords" "\<forall>n \<in> set (now # instants). list_all (youngAt n) (Records t1 @ log1 @ log2)"
  proof -
    have "Records t2 = Records t1 @ log1" using that by (intro keep1 [rule_format]) auto
    with that keep2 show ?thesis by auto
  qed
  ultimately show ?thesis using t1 t3 sch1 sch2 seq1(2) seq2(2) unfolding logged_def by auto
qed

lemma commit_logged:
  assumes "Stream state = Some st" and "imagesKept st" and "writeFits E state w"
  shows "logged E [now] state (emitted E region identity w now st) (commitTable E region w now identity state)"
proof -
  from commitTable_stream [OF assms(1), of E region w now identity] obtain st' where
    st': "Stream (commitTable E region w now identity state) = Some st'"
      "NextSeq st' = NextSeq st + int (length (emitted E region identity w now st))"
      "stream_ViewType st' = stream_ViewType st" "subseq (Records st') (Records st @ emitted E region identity w now st)"
      "length (Records st @ emitted E region identity w now st) \<le> maxStreamRecords \<Longrightarrow> list_all (youngAt now) (Records st) \<Longrightarrow>
        Records st' = Records st @ emitted E region identity w now st" by blast
  have "map SequenceNumber (emitted E region identity w now st) = map itoa [NextSeq st + 1..NextSeq st']"
    by (auto simp: st'(2) emitted_def streamRecord_def Let_def split: option.splits)
  with st' assms commitTable_replay [OF assms(3,2), of region identity now] show ?thesis
    by (auto simp: logged_def imagesKept_def commitTable_simps)
qed

lemma plan_writeFits:
  assumes "planLocked E s kind inp = Some (Inr w)" and "map_of (tables s) (pw_table w) = Some state"
  shows "writeFits E state w"
  using assms by (auto simp: writeFits_def getTableLocked_Inr elim!: planLocked_Inr)

text \<open>C1: The stream is the complete log of a table: in a run of writes every change of the table is recorded once, in
  order, under the next sequence numbers; the stream keeps those records in order and loses one only by age
  or by the limit of its length; and replaying them on the table before the run gives the table after it.\<close>

theorem stream_logs_every_change:
  assumes "runWrites E reqs s = Some s'" and "map_of (tables s) name = Some state"
    and "Stream state = Some st" and "imagesKept st"
  shows "\<exists>state' recs. map_of (tables s') name = Some state' \<and> logged E (requestTimes reqs) state recs state'"
  using assms
proof (induction E reqs s arbitrary: state st rule: runWrites.induct)
  case (1 E s)
  then show ?case using logged_refl [OF "1.prems"(3,4)] by fastforce
next
  case (2 E kind inp now reqs s)
  from "2.prems"(1) obtain r s1 where w1: "writeOne E now kind inp s = Some (r, s1)" and run: "runWrites E reqs s1 = Some s'"
    by (auto split: option.splits)
  have "\<exists>state1 recs. map_of (tables s1) name = Some state1 \<and> logged E [now] state recs state1"
  proof (use w1 in \<open>cases rule: writeOne_cases\<close>)
    case (failed e)
    then have "tables s1 = tables s" by (auto simp: abandon_def split: if_splits)
    with "2.prems" show ?thesis using logged_refl [OF "2.prems"(3,4)] by fastforce
  next
    case (written w)
    show ?thesis
    proof (cases "pw_table w = name")
      case True
      with written "2.prems" plan_writeFits have "writeFits E state w" by blast
      with commit_logged [OF "2.prems"(3,4)] written True "2.prems"(2) show ?thesis by fastforce
    next
      case False
      with written "2.prems" show ?thesis using logged_refl [OF "2.prems"(3,4)] by fastforce
    qed
  qed
  then obtain state1 log1 where l1: "map_of (tables s1) name = Some state1" "logged E [now] state log1 state1" by blast
  then obtain st1 where "Stream state1 = Some st1" "imagesKept st1" by (auto simp: logged_def)
  from "2.IH" [OF w1 refl run l1(1) this] obtain state' log2 where
    "map_of (tables s') name = Some state'" "logged E (requestTimes reqs) state1 log2 state'" by blast
  with logged_trans [OF l1(2)] show ?case by (auto simp: requestTimes_def)
qed

theorem stream_logs_every_change_witness:
  "\<exists>s' state' recs. runWrites demoEnv [(WritePut, demoPut, 0)] demoStore = Some s' \<and> map_of (tables s') ''t'' = Some state' \<and>
     logged demoEnv [0] demoState recs state'"
proof -
  have "writeOne demoEnv 0 WritePut demoPut demoStore = Some (Inr demoWrite, persist (commitLocked demoEnv demoWrite 0 None demoStore))"
    by (simp add: writeOne_def demo_plan) (simp add: demoStore_def)
  then have r: "runWrites demoEnv [(WritePut, demoPut, 0)] demoStore = Some (persist (commitLocked demoEnv demoWrite 0 None demoStore))"
    by simp
  have "map_of (tables demoStore) ''t'' = Some demoState" "Stream demoState = Some demoStream" "imagesKept demoStream"
    by (simp_all add: demo_defs imagesKept_def)
  from stream_logs_every_change [OF r this] r show ?thesis by (auto simp: requestTimes_def)
qed

end
