(* ===== verification/DDB_Transact.thy ===== *)
theory DDB_Transact
  imports DDB_Integrity
begin

text \<open>
  What clients of the write path rely on: transactions are all or nothing and a put is read back.
\<close>

section \<open>Transactions\<close>

text \<open>What an action of a transaction plans, when its plan succeeds.\<close>

definition planned :: "ddb_env \<Rightarrow> ddbStore \<Rightarrow> TransactWriteItem \<Rightarrow> (writeKind \<times> pendingWrite) option" where
  "planned E s action = (case unpack action of
      Inl _ \<Rightarrow> None
    | Inr (kind, inp) \<Rightarrow> (case planLocked E s kind inp of Some (Inr w) \<Rightarrow> Some (kind, w) | _ \<Rightarrow> None))"

lemma planned_fits: "planned E s action = Some (kind, w) \<Longrightarrow> fits s w"
  by (auto simp: planned_def intro: planLocked_fits split: sum.splits option.splits prod.splits)

lemma find_map_filter: "find P (map f (filter Q xs)) = map_option f (find (\<lambda>x. Q x \<and> P (f x)) xs)"
  by (induction xs) auto

lemma cancelled_simps [simp]:
  "cancelled (noReason # reasons) = cancelled reasons" "\<not> cancelled []"
  "isConditionFailure e \<Longrightarrow> cancelled (failureReason e # reasons)"
  by (auto simp: cancelled_def noReason_def failureReason_def isConditionFailure_def split: ddb_error.splits)

lemma planActions_plan:
  assumes "planActions E s seen actions = Some (Inr (reasons, ws))" and "\<not> cancelled reasons"
  shows "\<exists>plan. map (planned E s) actions = map Some plan \<and> ws = map snd (filter (\<lambda>p. fst p \<noteq> WriteCheck) plan) \<and>
    distinct (map (target \<circ> snd) plan) \<and> set (map (target \<circ> snd) plan) \<inter> set seen = {}"
  using assms
proof (induction E s seen actions arbitrary: reasons ws rule: planActions.induct)
  case (2 E s seen action actions)
  from "2.prems" obtain kind inp w rs vs where u: "unpack action = Inr (kind, inp)"
    and w: "planLocked E s kind inp = Some (Inr w)" and new: "\<not> markSeen seen w"
    and rest: "planActions E s (target w # seen) actions = Some (Inr (rs, vs))"
    and r: "reasons = noReason # rs" "ws = (if kind = WriteCheck then vs else w # vs)"
    by (auto simp: rbind_Inr split: sum.splits prod.splits option.splits if_splits)
  have "\<not> cancelled rs" using "2.prems"(2) r by simp
  from "2.IH"(2) [OF u refl w refl new rest this] obtain plan where
    plan: "map (planned E s) actions = map Some plan" "vs = map snd (filter (\<lambda>p. fst p \<noteq> WriteCheck) plan)"
      "distinct (map (target \<circ> snd) plan)" "set (map (target \<circ> snd) plan) \<inter> set (target w # seen) = {}" by blast
  have "planned E s action = Some (kind, w)" using u w by (simp add: planned_def)
  with plan r new show ?case by (intro exI [of _ "(kind, w) # plan"]) (auto simp: markSeen_def comp_def)
qed simp

lemma TransactWriteItems_cases:
  assumes "TransactWriteItems E now actions s = Some (r, s')"
  obtains (refused) e where "r = Inl e" "s' = s"
  | (failed) e where "abandon e s = (r, s')"
  | (applied) reasons ws where "planActions E s [] actions = Some (Inr (reasons, ws))" "\<not> cancelled reasons"
      "r = Inr ()" "s' = persist (commitAll E now ws s)"
proof (cases "actions = [] \<or> length actions > 100")
  case True
  with assms refused show ?thesis by (auto simp: TransactWriteItems_def)
next
  case False
  with assms obtain plan where p: "planActions E s [] actions = Some plan"
    and r: "(case plan of
          Inl e \<Rightarrow> abandon e s
        | Inr (reasons, plans) \<Rightarrow>
            if cancelled reasons then (Inl (transactionCanceled reasons), s)
            else (Inr (), persist (commitAll E now plans s))) = (r, s')"
    by (auto simp: TransactWriteItems_def simp del: split_paired_Ex split: if_splits)
  show ?thesis
  proof (cases plan)
    case (Inl e)
    with r failed show ?thesis by simp
  next
    case (Inr q)
    then obtain reasons ws where "plan = Inr (reasons, ws)" by (cases q) auto
    with p r refused applied show ?thesis by (auto split: if_splits)
  qed
qed

text \<open>C2: A transaction is all or nothing: when it fails, no table changes; when it succeeds, every action was planned
  against the state before it, on items that are all different, and the store afterwards has the planned
  item for each item that was written and is unchanged everywhere else.\<close>

theorem transaction_atomic:
  assumes "TransactWriteItems E now actions s = Some (r, s')"
  shows "case r of
      Inl e \<Rightarrow> tables s' = tables s
    | Inr u \<Rightarrow> (\<exists>plan. map (planned E s) actions = map Some plan \<and> distinct (map (target \<circ> snd) plan) \<and>
        (\<forall>name keyID. itemAt s' name keyID =
          (case find (\<lambda>(kind, w). kind \<noteq> WriteCheck \<and> target w = (name, keyID)) plan of
             Some (kind, w) \<Rightarrow> pw_new w
           | None \<Rightarrow> itemAt s name keyID)))"
proof (cases r)
  case (Inl e)
  from assms Inl show ?thesis by (cases rule: TransactWriteItems_cases) (auto simp: abandon_def)
next
  case (Inr u)
  from assms Inr obtain reasons ws where p: "planActions E s [] actions = Some (Inr (reasons, ws))" "\<not> cancelled reasons"
    and s': "s' = persist (commitAll E now ws s)"
    by (cases rule: TransactWriteItems_cases) (auto simp: abandon_def)
  from planActions_plan [OF p] obtain plan where plan: "map (planned E s) actions = map Some plan"
    and ws: "ws = map snd (filter (\<lambda>p. fst p \<noteq> WriteCheck) plan)" and d: "distinct (map (target \<circ> snd) plan)" by blast
  have "fits s w" if "w \<in> set ws" for w
  proof -
    from that ws obtain kind where "(kind, w) \<in> set plan" by auto
    then have "Some (kind, w) \<in> set (map (planned E s) actions)" using plan by simp
    then show ?thesis using planned_fits by (metis imageE set_map)
  qed
  moreover have "distinct (map target ws)" using d unfolding ws by (simp add: distinct_map_filter)
  ultimately have at: "itemAt s' name keyID = (case find (\<lambda>w. target w = (name, keyID)) ws of
      Some w \<Rightarrow> pw_new w | None \<Rightarrow> itemAt s name keyID)" for name keyID
    using fold_commit_itemAt [of ws s E now None name keyID] by (simp add: s' commitAll_def list_all_iff)
  have "find (\<lambda>w. target w = (name, keyID)) ws = map_option snd (find (\<lambda>(kind, w). kind \<noteq> WriteCheck \<and> target w = (name, keyID)) plan)"
    for name keyID unfolding ws find_map_filter by (simp add: case_prod_beta')
  with at have "itemAt s' name keyID = (case find (\<lambda>(kind, w). kind \<noteq> WriteCheck \<and> target w = (name, keyID)) plan of
             Some (kind, w) \<Rightarrow> pw_new w | None \<Rightarrow> itemAt s name keyID)" for name keyID
    by (simp split: option.splits)
  with Inr plan d show ?thesis by auto
qed

theorem transaction_atomic_witness:
  "\<exists>s'. TransactWriteItems demoEnv 0 [\<lparr>act_ConditionCheck = None, act_Put = Some demoPut, act_Update = None, act_Delete = None\<rparr>]
      demoStore = Some (Inr (), s') \<and> itemAt s' ''t'' ''id=S:a'' = Some demoItem"
proof -
  let ?a = "\<lparr>act_ConditionCheck = None, act_Put = Some demoPut, act_Update = None, act_Delete = None\<rparr>"
  have u: "unpack ?a = Inr (WritePut, demoPut)" by (simp add: unpack_def map_filter_simps)
  then have "planActions demoEnv demoStore [] [?a] = Some (Inr ([noReason], [demoWrite]))"
    by (simp add: demo_plan markSeen_def)
  then have t: "TransactWriteItems demoEnv 0 [?a] demoStore = Some (Inr (), persist (commitAll demoEnv 0 [demoWrite] demoStore))"
    by (simp add: TransactWriteItems_def cancelled_def noReason_def) (simp add: demoStore_def)
  from transaction_atomic [OF t, unfolded sum.case] obtain plan where "map (planned demoEnv demoStore) [?a] = map Some plan"
    and at: "\<forall>name keyID. itemAt (persist (commitAll demoEnv 0 [demoWrite] demoStore)) name keyID =
          (case find (\<lambda>(kind, w). kind \<noteq> WriteCheck \<and> target w = (name, keyID)) plan of
             Some (kind, w) \<Rightarrow> pw_new w
           | None \<Rightarrow> itemAt demoStore name keyID)" by blast
  then have "plan = [(WritePut, demoWrite)]" using u by (cases plan) (auto simp: planned_def demo_plan)
  with at [rule_format, of "''t''" "''id=S:a''"] t show ?thesis by (simp add: demoWrite_def)
qed

section \<open>Reading back a put\<close>

text \<open>C32: What PutItem stored is what GetItem gives back: after a put that succeeded, reading with any spelling of
  the key of the item returns the canonical form of the whole item.\<close>

theorem put_then_get:
  assumes put: "PutItem E now inp s = Some (Inr attrs, s')" and free: "\<not> mu_held s"
    and item: "canonicalizeItem E (in_Item inp) = Inr stored"
    and tab: "getTableLocked s (in_TableName inp) = Inr (name, state)"
    and key: "canonicalKey E (Table state) key = Inr k"
    and same: "\<forall>part \<in> set (KeySchema (Table state)). map_of k (key_AttributeName part) = map_of stored (key_AttributeName part)"
  shows "GetItem E (in_TableName inp) key '''' names s' = Some (Inr (Some stored))"
proof -
  from put obtain w where w: "planLocked E s WritePut inp = Some (Inr w)" and s': "s' = persist (commitLocked E w now None s)"
    unfolding PutItem_def by (cases rule: writeItem_cases) (auto simp: abandon_def)
  from w item tab have n: "pw_table w = name" "pw_new w = Some stored"
    and id: "serializeKey E stored (KeySchema (Table state)) = Inr (pw_keyID w)"
    by (auto elim!: plan_put)
  define state' where "state' = commitTable E (cfg_Region s) w now None state"
  have t: "map_of (tables s') name = Some state'"
    using tab n by (auto simp: s' state'_def getTableLocked_Inr)
  have k: "KeySchema (Table state') = KeySchema (Table state)" "AttributeDefinitions (Table state') = AttributeDefinitions (Table state)"
    by (auto simp: state'_def commitTable_def pruneTable_def appendTable_def countItems_def Let_def split: option.splits)
  have "serializeKey E k (KeySchema (Table state)) = Inr (pw_keyID w)"
    using id same keyParts_cong [of "KeySchema (Table state)" k stored] by (simp add: serializeKey_def)
  moreover have "canonicalKey E (Table state') key = Inr k" using key by (simp only: canonicalKey_def k)
  moreover have "map_of (Items state') (pw_keyID w) = Some stored" using n by (simp add: state'_def commitTable_simps)
  ultimately have "getItemLocked E state' key = Inr (Some stored, pw_keyID w)" by (simp add: getItemLocked_def k)
  moreover have "getTableLocked s' (in_TableName inp) = Inr (name, state')" using tab t by (simp add: getTableLocked_Inr)
  moreover have "\<not> mu_held s'" using free by (simp add: s')
  ultimately show ?thesis by (simp add: GetItem_def readTable_def projected_def)
qed

theorem put_then_get_witness:
  "\<exists>s'. PutItem demoEnv 0 demoPut demoStore = Some (Inr None, s') \<and>
     GetItem demoEnv ''t'' [(''id'', strAttr ''a'')] '''' [] s' = Some (Inr (Some demoItem))"
proof -
  let ?s = "persist (commitLocked demoEnv demoWrite 0 None demoStore)"
  have p: "PutItem demoEnv 0 demoPut demoStore = Some (Inr None, ?s)"
    by (simp add: PutItem_def writeItem_def writeOne_def demo_plan checkReturnValues_def returnedAttributes_def)
      (simp add: demo_defs)
  have "canonicalizeItem demoEnv (in_Item demoPut) = Inr demoItem" by code_simp
  moreover have "getTableLocked demoStore (in_TableName demoPut) = Inr (''t'', demoState)" by code_simp
  moreover have "canonicalKey demoEnv (Table demoState) [(''id'', strAttr ''a'')] = Inr [(''id'', strAttr ''a'')]" by code_simp
  ultimately have "GetItem demoEnv (in_TableName demoPut) [(''id'', strAttr ''a'')] '''' [] ?s = Some (Inr (Some demoItem))"
    using put_then_get [OF p _ \<open>canonicalizeItem demoEnv (in_Item demoPut) = Inr demoItem\<close>] by (simp add: demo_defs)
  with p show ?thesis by (auto simp: demo_defs)
qed

end
