(* ===== verification/DDB_Steps.thy ===== *)
theory DDB_Steps
  imports DDB_ChangeLog DDB_Transact
begin

text \<open>
  Every operation that changes items comes down to commits of planned writes on different items: the
  shape shared by the proofs about single writes, batches, transactions and the removal of expired items.
\<close>

section \<open>The store after a commit\<close>

lemma AList_update_update [simp]: "AList.update k v' (AList.update k v ts) = AList.update k v' ts"
  by (rule AList.update_last)

lemma updateTable_Some: "map_of (tables s) name = Some state \<Longrightarrow>
    updateTable name f s = s\<lparr>tables := AList.update name (f state) (tables s)\<rparr>"
  by (simp add: updateTable_def)

text \<open>The channel a commit closes: that of the stream of its table, when it appends a record.\<close>

definition signalled :: "ddb_env \<Rightarrow> pendingWrite \<Rightarrow> tableState \<Rightarrow> string option" where
  "signalled E w state = (if changeEvent E w = None then None else map_option stream_ARN (Stream state))"

lemma appendStreamRecordLocked_Some:
  assumes "map_of (tables s) name = Some state"
  shows "appendStreamRecordLocked name ev key old new now identity s =
    (case Stream state of
       None \<Rightarrow> s
     | Some st \<Rightarrow> signalStreamLocked (stream_ARN st)
         (s\<lparr>tables := AList.update name (appendTable (cfg_Region s) ev key old new now identity state) (tables s)\<rparr>))"
  using assms by (auto simp: appendStreamRecordLocked_def appendTable_def appendRecord_def Let_def split: option.splits)

lemma stream_items_commute: "t\<lparr>Stream := a\<rparr>\<lparr>Items := b\<rparr> = t\<lparr>Items := b\<rparr>\<lparr>Stream := a\<rparr>"
  by simp

lemma commitLocked_Some:
  assumes "map_of (tables s) (pw_table w) = Some state"
  shows "tables (commitLocked E w now identity s) = AList.update (pw_table w) (commitTable E (cfg_Region s) w now identity state) (tables s)"
    and "ddb_wakes (commitLocked E w now identity s) =
      (case signalled E w state of None \<Rightarrow> ddb_wakes s | Some arn \<Rightarrow> AList.delete arn (ddb_wakes s))"
    and "ddb_chans (commitLocked E w now identity s) = ddb_chans s"
  using assms
  by (auto simp: commitLocked_def Let_def updateTable_Some appendStreamRecordLocked_Some commitTable_def changeEvent_def signalled_def
      signalStreamLocked_def appendTable_def pruneTable_def stream_items_commute split: option.splits)

section \<open>Operations as commits\<close>

text \<open>A write planned against a store, or the removal of an item that expired.\<close>

definition plannable :: "ddb_env \<Rightarrow> ddbStore \<Rightarrow> pendingWrite \<Rightarrow> bool" where
  "plannable E s w \<longleftrightarrow> (\<exists>kind inp. planLocked E s kind inp = Some (Inr w)) \<or>
     (\<exists>now state. map_of (tables s) (pw_table w) = Some state \<and> w \<in> set (expiredWrites E now (pw_table w) state))"

text \<open>\<open>s'\<close> is the store after some planned writes on different items were committed.\<close>

definition committed :: "ddb_env \<Rightarrow> ddbStore \<Rightarrow> ddbStore \<Rightarrow> bool" where
  "committed E s s' \<longleftrightarrow> (\<exists>now identity ws. list_all (plannable E s) ws \<and> distinct (map target ws) \<and>
     (let c = fold (\<lambda>w. commitLocked E w now identity) ws s in
      tables s' = tables c \<and> ddb_wakes s' = ddb_wakes c \<and> ddb_chans s' = ddb_chans c \<and> cfg_Region s' = cfg_Region s))"

lemma committedI:
  "list_all (plannable E s) ws \<Longrightarrow> distinct (map target ws) \<Longrightarrow> c = fold (\<lambda>w. commitLocked E w now identity) ws s \<Longrightarrow>
     tables s' = tables c \<Longrightarrow> ddb_wakes s' = ddb_wakes c \<Longrightarrow> ddb_chans s' = ddb_chans c \<Longrightarrow> cfg_Region s' = cfg_Region s \<Longrightarrow>
     committed E s s'"
  unfolding committed_def Let_def by blast

lemma committed_same:
  "tables s' = tables s \<Longrightarrow> ddb_wakes s' = ddb_wakes s \<Longrightarrow> ddb_chans s' = ddb_chans s \<Longrightarrow> cfg_Region s' = cfg_Region s \<Longrightarrow> committed E s s'"
  by (rule committedI [of E s "[]"]) auto

lemma abandon_same:
  "abandon e s = (r, s') \<Longrightarrow> tables s' = tables s \<and> ddb_wakes s' = ddb_wakes s \<and> ddb_chans s' = ddb_chans s \<and> cfg_Region s' = cfg_Region s"
  by (auto simp: abandon_def split: if_splits)

lemma committed_abandon: "abandon e s = (r, s') \<Longrightarrow> committed E s s'"
  using abandon_same committed_same by metis

lemma persist_wakes [simp]: "ddb_wakes (persist s) = ddb_wakes s" "ddb_chans (persist s) = ddb_chans s"
  by (simp_all add: persist_def)

lemma writeItem_committed:
  assumes "writeItem E now kind allowed inp s = Some (r, s')"
  shows "committed E s s'"
  using assms
proof (cases rule: writeItem_cases)
  case (refused e)
  then show ?thesis by (intro committed_same) auto
next
  case (failed e)
  then show ?thesis by (intro committed_abandon [of e s "fst (abandon e s :: unit ddb_result \<times> ddbStore)"]) simp
next
  case (written w)
  then show ?thesis by (intro committedI [of E s "[w]" _ now None]) (auto simp: plannable_def)
qed

lemma planBatch_writes:
  "planBatch E s seen reqs = Some (Inr ws) \<Longrightarrow>
     list_all (plannable E s) ws \<and> distinct (map target ws) \<and> set (map target ws) \<inter> set seen = {}"
proof (induction E s seen reqs arbitrary: ws rule: planBatch.induct)
  case (2 E s seen table req reqs)
  from "2.prems" obtain w vs where w: "planRequest E s table req = Some (Inr w)" "\<not> markSeen seen w"
    and rest: "planBatch E s (target w # seen) reqs = Some (Inr vs)" and ws: "ws = w # vs"
    by (auto simp: rbind_Inr split: option.splits sum.splits if_splits)
  have "plannable E s w" using w(1) by (auto simp: planRequest_def plannable_def split: option.splits)
  with "2.IH" [OF w(1) refl w(2) rest] ws w(2) show ?case by (auto simp: markSeen_def comp_def)
qed simp

lemma planActions_writes:
  "planActions E s seen actions = Some (Inr (reasons, ws)) \<Longrightarrow>
     list_all (plannable E s) ws \<and> distinct (map target ws) \<and> set (map target ws) \<inter> set seen = {}"
proof (induction E s seen actions arbitrary: reasons ws rule: planActions.induct)
  case (2 E s seen action actions)
  from "2.prems" obtain kind inp where u: "unpack action = Inr (kind, inp)" by (auto split: sum.splits prod.splits)
  with "2.prems" consider
      e rs where "planLocked E s kind inp = Some (Inl e)" "isConditionFailure e" "planActions E s seen actions = Some (Inr (rs, ws))"
    | w rs vs where "planLocked E s kind inp = Some (Inr w)" "\<not> markSeen seen w"
        "planActions E s (target w # seen) actions = Some (Inr (rs, vs))" "ws = (if kind = WriteCheck then vs else w # vs)"
    by (auto simp: rbind_Inr split: option.splits sum.splits if_splits)
  then show ?case
  proof cases
    case 1
    with "2.IH"(1) [OF u refl 1(1) refl 1(2)] show ?thesis by blast
  next
    case (2 w rs vs)
    have "plannable E s w" using 2(1) by (auto simp: plannable_def)
    with "2.IH"(2) [OF u refl 2(1) refl 2(2,3)] 2(2,4) show ?thesis by (auto simp: markSeen_def comp_def)
  qed
qed simp

lemma TransactWriteItems_committed:
  assumes "TransactWriteItems E now actions s = Some (r, s')"
  shows "committed E s s'"
  using assms
proof (cases rule: TransactWriteItems_cases)
  case (refused e)
  then show ?thesis by (intro committed_same) auto
next
  case (failed e)
  then show ?thesis by (rule committed_abandon)
next
  case (applied reasons ws)
  with planActions_writes [OF applied(1)] show ?thesis
    by (intro committedI [of E s ws "commitAll E now ws s" now None]) (auto simp: commitAll_def)
qed

lemma BatchWriteItem_committed:
  assumes "BatchWriteItem E now requests s = Some (r, s')"
  shows "committed E s s'"
proof -
  let ?reqs = "concat (map (\<lambda>(table, list). map (Pair table) list) requests)"
  consider "s' = s" | plan where "planBatch E s [] ?reqs = Some plan"
      "(case plan of Inl e \<Rightarrow> abandon e s | Inr plans \<Rightarrow> (Inr (), persist (commitAll E now plans s))) = (r, s')"
    using assms by (auto simp: BatchWriteItem_def Let_def split: if_splits)
  then show ?thesis
  proof cases
    case 1
    then show ?thesis by (intro committed_same) auto
  next
    case (2 plan)
    show ?thesis
    proof (cases plan)
      case (Inl e)
      with 2 show ?thesis by (auto intro: committed_abandon)
    next
      case (Inr ws)
      with 2 planBatch_writes [of E s "[]" ?reqs ws] show ?thesis
        by (intro committedI [of E s ws "commitAll E now ws s" now None]) (auto simp: commitAll_def)
    qed
  qed
qed

section \<open>Expired items\<close>

lemma expiredWrites_write:
  assumes "w \<in> set (expiredWrites E now name state)"
  shows "pw_new w = None" and "pw_table w = name"
    and "\<exists>item ttl. pw_old w = Some item \<and> (pw_keyID w, item) \<in> set (Items state) \<and> TTL state = Some ttl \<and>
      ttlExpired E item (ttl_AttributeName ttl) (now div 1000000000)"
  using assms by (cases "TTL state"; auto simp: expiredWrites_def map_filter_def split: option.splits if_splits sum.splits)+

lemma map_filter_keys:
  assumes "\<And>p w. f p = Some w \<Longrightarrow> key w = fst p" and "distinct (map fst its)"
  shows "distinct (map key (List.map_filter f its)) \<and> key ` set (List.map_filter f its) \<subseteq> fst ` set its"
  using assms(2)
proof (induction its)
  case (Cons p its)
  then show ?case using assms(1) [of p] by (cases "f p") (auto simp: map_filter_simps)
qed (simp add: map_filter_simps)

lemma expiredWrites_keys: "distinct (map fst (Items state)) \<Longrightarrow> distinct (map pw_keyID (expiredWrites E now name state))"
  by (auto simp: expiredWrites_def split: option.splits sum.splits if_splits
      intro!: map_filter_keys [THEN conjunct1])

lemma sweep_targets:
  assumes "distinct (map fst ts)" and "\<And>name state. (name, state) \<in> set ts \<Longrightarrow> distinct (map fst (Items state))"
  shows "distinct (map target (concat (map (\<lambda>(name, state). expiredWrites E now name state) ts)))"
  using assms
proof (induction ts)
  case (Cons t ts)
  obtain name state where t: "t = (name, state)" by (cases t)
  have "distinct (map pw_keyID (expiredWrites E now name state))" using Cons.prems(2) t by (intro expiredWrites_keys) auto
  then have "distinct (map target (expiredWrites E now name state))" by (auto simp: distinct_map inj_on_def)
  moreover have "pw_table w \<noteq> name" if "w \<in> set (concat (map (\<lambda>(name, state). expiredWrites E now name state) ts))" for w
    using that Cons.prems(1) t expiredWrites_write(2) by (force simp: image_iff)
  moreover have "distinct (map target (concat (map (\<lambda>(name, state). expiredWrites E now name state) ts)))"
    using Cons.prems by (intro Cons.IH) auto
  ultimately show ?case using t expiredWrites_write(2) by (auto simp: image_iff)
qed simp

lemma sweepExpired_committed:
  assumes "sweepExpired E now s = Some (n, s')" and "distinct (map fst (tables s))"
    and "\<And>name state. (name, state) \<in> set (tables s) \<Longrightarrow> distinct (map fst (Items state))"
  shows "committed E s s'"
proof -
  let ?ws = "concat (map (\<lambda>(name, state). expiredWrites E now name state) (tables s))"
  have "plannable E s w" if "w \<in> set ?ws" for w
    using that assms(2) expiredWrites_write(2) by (fastforce simp: plannable_def)
  moreover have "distinct (map target ?ws)" using assms(2,3) by (rule sweep_targets)
  ultimately show ?thesis using assms(1)
    by (intro committedI [of E s ?ws "fold (\<lambda>w. commitLocked E w now (Some ttlIdentity)) ?ws s" now "Some ttlIdentity"])
      (auto simp: sweepExpired_def Let_def list_all_iff split: if_splits)
qed

end
