(* ===== verification/DDB_StreamRead.thy ===== *)
theory DDB_StreamRead
  imports DDB_ChangeLog DDB_Stream
begin

text \<open>
  What a reader of a stream gets: batch after batch with the checkpoint of the last one, every record
  once and in order; and a reader that waits is woken by the next record.
\<close>

section \<open>The window after a sequence number\<close>

text \<open>The sequence numbers of a stream ascend and were all given out.\<close>

definition numbered :: "streamState \<Rightarrow> bool" where
  "numbered st \<longleftrightarrow> sorted_wrt (\<lambda>a b. streamRecordSeq a < streamRecordSeq b) (Records st) \<and>
     list_all (\<lambda>r. SequenceNumber r = itoa (streamRecordSeq r) \<and> 0 < streamRecordSeq r \<and> streamRecordSeq r \<le> NextSeq st) (Records st)"

definition fromSeq :: "int \<Rightarrow> StreamRecord list \<Rightarrow> StreamRecord list" where
  "fromSeq n = filter (\<lambda>r. n \<le> streamRecordSeq r)"

lemma dropWhile_filter_sorted:
  "sorted_wrt (\<lambda>x y. P x \<longrightarrow> P y) xs \<Longrightarrow> dropWhile (\<lambda>x. \<not> P x) xs = filter P xs"
proof (induction xs)
  case (Cons x xs)
  then show ?case by (cases "P x") (auto simp: filter_id_conv)
qed simp

lemma window_fromSeq:
  assumes "sorted_wrt (\<lambda>a b. streamRecordSeq a < streamRecordSeq b) rs"
  shows "drop (sortSearch (length rs) (\<lambda>i. streamRecordSeq (rs ! i) \<ge> n)) rs = fromSeq n rs"
    and "length rs \<le> sortSearch (length rs) (\<lambda>i. streamRecordSeq (rs ! i) \<ge> n) \<longleftrightarrow> fromSeq n rs = []"
proof -
  let ?P = "\<lambda>r. n \<le> streamRecordSeq r"
  have s: "sorted_wrt (\<lambda>x y. ?P x \<longrightarrow> ?P y) rs" by (rule sorted_wrt_mono_rel [OF _ assms]) auto
  have k: "sortSearch (length rs) (\<lambda>i. streamRecordSeq (rs ! i) \<ge> n) = length (takeWhile (\<lambda>r. \<not> ?P r) rs)"
    using sortSearch_suffix [OF s] by simp
  have "drop (length (takeWhile (\<lambda>r. \<not> ?P r) rs)) rs = fromSeq n rs"
    using dropWhile_filter_sorted [OF s] by (simp add: fromSeq_def flip: dropWhile_eq_drop)
  then show "drop (sortSearch (length rs) (\<lambda>i. streamRecordSeq (rs ! i) \<ge> n)) rs = fromSeq n rs" unfolding k .
  then show "length rs \<le> sortSearch (length rs) (\<lambda>i. streamRecordSeq (rs ! i) \<ge> n) \<longleftrightarrow> fromSeq n rs = []"
    by (metis drop_eq_Nil)
qed

lemma fromSeq_page:
  assumes "sorted_wrt (\<lambda>a b. streamRecordSeq a < streamRecordSeq b) rs" and "0 < k" and "fromSeq n rs \<noteq> []"
  shows "fromSeq (streamRecordSeq (last (take k (fromSeq n rs))) + 1) rs = drop k (fromSeq n rs)"
proof -
  let ?f = "fromSeq n rs"
  let ?m = "streamRecordSeq (last (take k ?f))"
  have sf: "sorted_wrt (\<lambda>a b. streamRecordSeq a < streamRecordSeq b) (take k ?f @ drop k ?f)"
    using assms(1) by (simp add: fromSeq_def sorted_wrt_filter)
  have ne: "take k ?f \<noteq> []" using assms(2,3) by simp
  have "last (take k ?f) \<in> set ?f" using last_in_set [OF ne] by (rule in_set_takeD)
  then have "n \<le> ?m" unfolding fromSeq_def set_filter by blast
  then have "fromSeq (?m + 1) rs = fromSeq (?m + 1) ?f" by (auto simp: fromSeq_def intro: filter_cong)
  also have "\<dots> = fromSeq (?m + 1) (take k ?f) @ fromSeq (?m + 1) (drop k ?f)"
    by (simp add: fromSeq_def flip: filter_append)
  also have "fromSeq (?m + 1) (take k ?f) = []"
  proof -
    obtain ys where ys: "take k ?f = ys @ [last (take k ?f)]" using ne by (metis append_butlast_last_id)
    have "streamRecordSeq r \<le> ?m" if "r \<in> set (take k ?f)" for r
    proof (cases "r = last (take k ?f)")
      case False
      with that ys have "r \<in> set ys" by (metis UnE empty_iff empty_set insert_iff list.simps(15) set_append)
      with sf ys show ?thesis by (metis Un_iff list.set_intros(1) order.strict_implies_order set_append sorted_wrt_append)
    qed simp
    then show ?thesis by (force simp: fromSeq_def filter_empty_conv)
  qed
  also have "fromSeq (?m + 1) (drop k ?f) = drop k ?f"
  proof -
    have "?m < streamRecordSeq r" if "r \<in> set (drop k ?f)" for r
      using sf [unfolded sorted_wrt_append] that last_in_set [OF ne] by blast
    then show ?thesis by (force simp: fromSeq_def filter_id_conv)
  qed
  finally show ?thesis by simp
qed

section \<open>The stream of a store\<close>

text \<open>Pruned at \<open>now\<close>, the stream under an ARN is \<open>st\<close>.\<close>

definition streamIs :: "int \<Rightarrow> string \<Rightarrow> streamState \<Rightarrow> ddbStore \<Rightarrow> bool" where
  "streamIs now arn st s \<longleftrightarrow> \<not> mu_held s \<and> distinct (map fst (tables s)) \<and>
     (\<exists>name state st0. findStreamLocked s arn = Inr (name, state, st0) \<and> pruneStreamLocked now st0 = st)"

lemma findStream_Some: "findStream arn ts = Some (name, state, st) \<Longrightarrow> (name, state) \<in> set ts \<and> Stream state = Some st \<and> stream_ARN st = arn"
  by (induction arn ts rule: findStream.induct) (auto split: option.splits if_splits)

lemma findStream_update:
  "findStream arn ts = Some (name, state, st) \<Longrightarrow> distinct (map fst ts) \<Longrightarrow> stream_ARN st' = arn \<Longrightarrow>
     findStream arn (AList.update name (state\<lparr>Stream := Some st'\<rparr>) ts) = Some (name, state\<lparr>Stream := Some st'\<rparr>, st')"
proof (induction arn ts rule: findStream.induct)
  case (2 arn n s0 ts)
  show ?case
  proof (cases "\<exists>st0. Stream s0 = Some st0 \<and> stream_ARN st0 = arn")
    case True
    with "2.prems" show ?thesis by auto
  next
    case False
    then have rest: "findStream arn ts = Some (name, state, st)" using "2.prems"(1) by (auto split: option.splits)
    have "n \<noteq> name" using findStream_Some [OF rest] "2.prems"(2) by (auto simp: rev_image_eqI)
    with False "2.IH" rest "2.prems" show ?thesis by (auto split: option.splits)
  qed
qed simp

lemma numbered_prune:
  assumes "numbered st"
  shows "numbered (pruneStreamLocked now st) \<and> length (Records (pruneStreamLocked now st)) \<le> length (Records st) \<and>
    NextSeq (pruneStreamLocked now st) = NextSeq st"
proof -
  have "\<exists>k P. Records (pruneStreamLocked now st) = drop k (filter P (Records st))"
  proof (cases "prunedRecently now st")
    case True
    then have "Records (pruneStreamLocked now st) = drop 0 (filter (\<lambda>_. True) (Records st))" by (simp add: pruneStreamLocked_Records)
    then show ?thesis by blast
  qed (auto simp: pruneStreamLocked_Records Let_def)
  then obtain k P where r: "Records (pruneStreamLocked now st) = drop k (filter P (Records st))" by blast
  have "set (drop k (filter P (Records st))) \<subseteq> set (Records st)" by (auto dest: in_set_dropD)
  moreover have "length (drop k (filter P (Records st))) \<le> length (Records st)" using length_filter_le [of P "Records st"]
    by (metis diff_le_self le_trans length_drop)
  ultimately show ?thesis using assms
    by (auto simp: numbered_def r list_all_iff intro: sorted_wrt_drop sorted_wrt_filter)
qed

lemma prune_stable: "pruneStreamLocked now (pruneStreamLocked now st) = pruneStreamLocked now st"
  by (simp add: pruneStreamLocked_def prunedRecently_def split: option.splits)

lemma streamWindow_returns:
  assumes "findStreamLocked s arn = Inr (name, state, st)" and "\<not> mu_held s" and "distinct (map fst (tables s))"
    and "numbered (pruneStreamLocked now st)"
  obtains s' wake where "streamIs now arn (pruneStreamLocked now st) s'"
    and "streamWindow now arn n limit wait s = Some (Inr (take (nat limit) (fromSeq n (Records (pruneStreamLocked now st))), wake), s')"
proof -
  let ?st = "pruneStreamLocked now st"
  let ?s1 = "s\<lparr>tables := AList.update name (state\<lparr>Stream := Some ?st\<rparr>) (tables s)\<rparr>"
  have arn: "stream_ARN ?st = arn" "findStream arn (tables s) = Some (name, state, st)"
    using assms(1) findStream_Some by (auto simp: findStreamLocked_def pruneStreamLocked_def evictOldStreamRecordsLocked_def split: option.splits)
  have "findStream arn (tables ?s1) = Some (name, state\<lparr>Stream := Some ?st\<rparr>, ?st)"
    using findStream_update [OF arn(2) assms(3) arn(1)] by simp
  then have s1: "streamIs now arn ?st ?s1" using assms(2,3) by (simp add: streamIs_def prune_stable findStreamLocked_def)
  then have s2: "streamIs now arn ?st (snd (streamWaitChanLocked arn ?s1))"
    by (auto simp: streamIs_def streamWaitChanLocked_def findStreamLocked_def split: option.splits)
  have sorted: "sorted_wrt (\<lambda>a b. streamRecordSeq a < streamRecordSeq b) (Records ?st)" using assms(4) by (simp add: numbered_def)
  show ?thesis
  proof (cases "fromSeq n (Records ?st) = []")
    case True
    obtain c s2' where c: "streamWaitChanLocked arn ?s1 = (c, s2')" by fastforce
    have "streamWindow now arn n limit wait s = Some (Inr ([], if wait then Some c else None), if wait then s2' else ?s1)"
      using True assms(1,2) window_fromSeq(2) [OF sorted, of n] c by (simp add: streamWindow_def Let_def)
    with True s1 s2 c that show ?thesis by (cases wait) auto
  next
    case False
    then show ?thesis using that [OF s1] assms(1,2) window_fromSeq [OF sorted, of n]
      by (auto simp: streamWindow_def Let_def)
  qed
qed

section \<open>Reading a stream in batches\<close>

text \<open>A reader that passes on the checkpoint of each batch, for at most \<open>n\<close> batches or until one is empty.\<close>

fun readStream :: "int \<Rightarrow> string \<Rightarrow> int \<Rightarrow> nat \<Rightarrow> string \<Rightarrow> ddbStore \<Rightarrow> StreamRecord list" where
  "readStream now arn limit 0 checkpoint s = []"
| "readStream now arn limit (Suc n) checkpoint s =
     (case StreamBatch now arn checkpoint limit s of
        Some (Inr (records, nxt), s') \<Rightarrow> if records = [] then [] else records @ readStream now arn limit n nxt s'
      | _ \<Rightarrow> [])"

text \<open>The sequence number a checkpoint asks for.\<close>

definition startsAt :: "string \<Rightarrow> int \<Rightarrow> bool" where
  "startsAt checkpoint n \<longleftrightarrow> (if trimSpace checkpoint = '''' then n = 1 else map_option (\<lambda>k. wrap64 (k + 1)) (atoi checkpoint) = Some n)"

lemma StreamBatch_returns:
  assumes "findStreamLocked s arn = Inr (name, state, st)" and "\<not> mu_held s" and "distinct (map fst (tables s))"
    and "numbered (pruneStreamLocked now st)" and "startsAt checkpoint n"
  obtains s' where "streamIs now arn (pruneStreamLocked now st) s'"
    and "StreamBatch now arn checkpoint limit s =
      (let page = take (nat (if limit \<le> 0 then 100 else limit)) (fromSeq n (Records (pruneStreamLocked now st))) in
       Some (Inr (page, if page = [] then '''' else SequenceNumber (last page)), s'))"
proof -
  from streamWindow_returns [OF assms(1-4), of n "if limit \<le> 0 then 100 else limit" False] obtain s' wake where
    "streamIs now arn (pruneStreamLocked now st) s'"
    "streamWindow now arn n (if limit \<le> 0 then 100 else limit) False s =
      Some (Inr (take (nat (if limit \<le> 0 then 100 else limit)) (fromSeq n (Records (pruneStreamLocked now st))), wake), s')" by blast
  with that [of s'] assms(5) show ?thesis
    by (auto simp: StreamBatch_def streamBatch_def startsAt_def Let_def split: if_splits)
qed

lemma startsAt_itoa:
  assumes "0 < n" and "in_int64 (n + 1)"
  shows "startsAt (itoa n) (n + 1)"
proof -
  have "in_int64 n" using assms by (simp add: in_int64_def)
  then have a: "atoi (itoa n) = Some n" by (rule atoi_itoa)
  have "itoa n = natToDec (nat n)" using assms(1) by (simp add: itoa_def)
  then have "list_all isDigit (itoa n)" "itoa n \<noteq> []" using natToDec_digits natToDec_not_Nil by auto
  then have "hd (itoa n) \<in> set (itoa n)" "\<not> isSpace (hd (itoa n))" using isDigit_not_sign by (auto simp: list_all_iff)
  then have "dropWhile isSpace (itoa n) = itoa n" by (cases "itoa n") auto
  moreover have "dropWhile isSpace (rev (itoa n)) = rev (itoa n)"
    using \<open>list_all isDigit (itoa n)\<close> \<open>itoa n \<noteq> []\<close> isDigit_not_sign
    by (cases "rev (itoa n)") (auto simp: list_all_iff dest: arg_cong [where f = set])
  ultimately have "trimSpace (itoa n) = itoa n" by (simp add: trimSpace_def)
  with a \<open>itoa n \<noteq> []\<close> assms show ?thesis by (simp add: startsAt_def)
qed

lemma readStream_from:
  assumes "streamIs now arn st s" and "numbered st" and "in_int64 (NextSeq st + 1)" and "startsAt checkpoint k"
    and "length (fromSeq k (Records st)) \<le> n"
  shows "readStream now arn limit n checkpoint s = fromSeq k (Records st)"
  using assms(1,4,5)
proof (induction n arbitrary: checkpoint k s)
  case (Suc n)
  define lim where "lim = nat (if limit \<le> 0 then 100 else limit)"
  define rest where "rest = fromSeq k (Records st)"
  have lim: "0 < lim" by (simp add: lim_def)
  from Suc.prems(1) obtain name state st0 where f: "findStreamLocked s arn = Inr (name, state, st0)" "\<not> mu_held s"
    "distinct (map fst (tables s))" "pruneStreamLocked now st0 = st" by (auto simp: streamIs_def)
  have "numbered (pruneStreamLocked now st0)" using assms(2) f(4) by simp
  from StreamBatch_returns [OF f(1-3) this Suc.prems(2), of limit] obtain s' where s': "streamIs now arn st s'"
    and batch: "StreamBatch now arn checkpoint limit s =
      Some (Inr (take lim rest, if take lim rest = [] then '''' else SequenceNumber (last (take lim rest))), s')"
    unfolding f(4) lim_def rest_def Let_def by blast
  show ?case
  proof (cases "rest = []")
    case True
    with batch show ?thesis by (simp add: rest_def)
  next
    case False
    then have ne: "take lim rest \<noteq> []" using lim by simp
    define m where "m = streamRecordSeq (last (take lim rest))"
    have "last (take lim rest) \<in> set rest" using last_in_set [OF ne] by (rule in_set_takeD)
    then have "last (take lim rest) \<in> set (Records st)" unfolding rest_def fromSeq_def set_filter by blast
    with assms(2) have m: "SequenceNumber (last (take lim rest)) = itoa m" "0 < m" "m \<le> NextSeq st"
      by (auto simp: numbered_def m_def list_all_iff)
    have "in_int64 (m + 1)" using assms(3) m(2,3) by (simp add: in_int64_def)
    then have start: "startsAt (itoa m) (m + 1)" by (rule startsAt_itoa [OF m(2)])
    have tl: "fromSeq (m + 1) (Records st) = drop lim rest"
      using fromSeq_page [OF _ lim, of "Records st" k] assms(2) False unfolding m_def rest_def numbered_def by blast
    have "length (drop lim rest) \<le> n" using Suc.prems(3) lim False unfolding rest_def by simp
    with Suc.IH [OF s' start] tl have "readStream now arn limit n (itoa m) s' = drop lim rest" by simp
    with batch ne m(1) show ?thesis by (simp add: rest_def)
  qed
qed simp

text \<open>C17: A reader that starts without a checkpoint and passes on the checkpoint of each batch gets every record the
  stream retains exactly once and in order, whatever the size of the batches, within as many batches as there
  are records.\<close>

theorem stream_read_once:
  assumes "findStreamLocked s arn = Inr (name, state, st)" and "\<not> mu_held s" and "distinct (map fst (tables s))"
    and "numbered st" and "in_int64 (NextSeq st + 1)" and "length (Records st) < n"
  shows "readStream now arn limit n '''' s = Records (pruneStreamLocked now st)"
proof -
  let ?st = "pruneStreamLocked now st"
  have st: "numbered ?st" "length (Records ?st) \<le> n" "NextSeq ?st = NextSeq st"
    using numbered_prune [OF assms(4), of now] assms(6) by auto
  have "fromSeq 1 (Records ?st) = Records ?st"
    using st(1) by (auto simp: fromSeq_def filter_id_conv numbered_def list_all_iff)
  moreover have "streamIs now arn ?st s" using assms(1-3) by (auto simp: streamIs_def)
  moreover have "startsAt '''' 1" by (simp add: startsAt_def trimSpace_def)
  ultimately show ?thesis using readStream_from [of now arn ?st s "''''" 1 n limit] st assms(5) by simp
qed

definition demoRecord :: "int \<Rightarrow> StreamRecord" where
  "demoRecord n = streamRecord ''r'' (demoStream\<lparr>NextSeq := n\<rparr>) ''INSERT'' [(''id'', strAttr ''a'')] None (Some demoItem) 0 None"

definition demoStreaming :: ddbStore where
  "demoStreaming = demoStore\<lparr>tables := [(''t'', demoState\<lparr>Stream := Some (demoStream\<lparr>NextSeq := 3, Records := map demoRecord [1, 2, 3]\<rparr>)\<rparr>)]\<rparr>"

theorem stream_read_once_witness:
  "readStream 0 ''arn'' 2 4 '''' demoStreaming = map demoRecord [1, 2, 3]"
proof -
  let ?st = "demoStream\<lparr>NextSeq := 3, Records := map demoRecord [1, 2, 3]\<rparr>"
  have "findStreamLocked demoStreaming ''arn'' = Inr (''t'', demoState\<lparr>Stream := Some ?st\<rparr>, ?st)" by code_simp
  moreover have "\<not> mu_held demoStreaming" "distinct (map fst (tables demoStreaming))" by code_simp+
  moreover have "numbered ?st" by code_simp
  moreover have "in_int64 (NextSeq ?st + 1)" "length (Records ?st) < 4" by code_simp+
  moreover have "Records (pruneStreamLocked 0 ?st) = map demoRecord [1, 2, 3]" by code_simp
  ultimately show ?thesis using stream_read_once by metis
qed

end
