(* ===== verification/DDB_Invariant.thy ===== *)
theory DDB_Invariant
  imports DDB_Steps DDB_Admin DDB_StreamRead
begin

text \<open>
  The invariant of the DynamoDB store: names and keys are unique, every stored item is in canonical form
  under the key it has and of the key types its table declares, counters match, and streams are numbered
  without disorder and within their limit. Every operation keeps it.
\<close>

section \<open>The invariant\<close>

definition itemOK :: "ddb_env \<Rightarrow> DynamoDBTable \<Rightarrow> string \<Rightarrow> json_object \<Rightarrow> bool" where
  "itemOK E table keyID item \<longleftrightarrow> canonicalizeItem E item = Inr item \<and>
     checkTableKeys (attributeTypeMap (AttributeDefinitions table)) item (KeySchema table) = None \<and>
     serializeKey E item (KeySchema table) = Inr keyID"

definition ascending :: "streamState \<Rightarrow> bool" where
  "ascending st \<longleftrightarrow> (\<exists>ns. map SequenceNumber (Records st) = map itoa ns \<and> sorted_wrt (<) ns \<and> list_all (\<lambda>n. 0 < n \<and> n \<le> NextSeq st) ns) \<and>
     0 \<le> NextSeq st \<and> length (Records st) \<le> maxStreamRecords"

definition tableOK :: "ddb_env \<Rightarrow> tableState \<Rightarrow> bool" where
  "tableOK E state \<longleftrightarrow> distinct (map fst (Items state)) \<and> list_all (\<lambda>(keyID, item). itemOK E (Table state) keyID item) (Items state) \<and>
     ItemCount (Table state) = int (length (Items state)) \<and>
     validateKeySchema (KeySchema (Table state)) (attributeTypeMap (AttributeDefinitions (Table state))) = None \<and>
     (case Stream state of None \<Rightarrow> True | Some st \<Rightarrow> ascending st)"

definition storeOK :: "ddb_env \<Rightarrow> ddbStore \<Rightarrow> bool" where
  "storeOK E s \<longleftrightarrow> distinct (map fst (tables s)) \<and> list_all (\<lambda>(name, state). TableName (Table state) = name \<and> tableOK E state) (tables s)"

lemma storeOK_lookup: "storeOK E s \<Longrightarrow> map_of (tables s) name = Some state \<Longrightarrow> tableOK E state \<and> TableName (Table state) = name"
  by (auto simp: storeOK_def list_all_iff dest!: map_of_SomeD)

lemma storeOK_put:
  assumes "storeOK E s" and "tableOK E state" and "TableName (Table state) = name" and "tables s' = AList.update name state (tables s)"
  shows "storeOK E s'"
  using assms AList_update_set [of _ _ name state "tables s"] by (fastforce simp: storeOK_def list_all_iff)

section \<open>Streams\<close>

text \<open>An ascending stream whose numbers fit in 64 bits is numbered as its readers need it.\<close>

lemma ascending_numbered:
  assumes "ascending st" and "in_int64 (NextSeq st)"
  shows "numbered st"
proof -
  from assms(1) obtain ns where ns: "map SequenceNumber (Records st) = map itoa ns" "sorted_wrt (<) ns" "\<And>n. n \<in> set ns \<Longrightarrow> 0 < n \<and> n \<le> NextSeq st"
    by (auto simp: ascending_def list_all_iff)
  have "map streamRecordSeq (Records st) = map (\<lambda>t. case atoi t of None \<Rightarrow> 0 | Some n \<Rightarrow> n) (map SequenceNumber (Records st))"
    by (simp add: streamRecordSeq_def)
  also have "\<dots> = ns" unfolding ns(1)
  proof -
    have "atoi (itoa n) = Some n" if "n \<in> set ns" for n
      using ns(3) [OF that] assms(2) by (intro atoi_itoa) (auto simp: in_int64_def)
    then show "map (\<lambda>t. case atoi t of None \<Rightarrow> 0 | Some n \<Rightarrow> n) (map itoa ns) = ns" by (simp add: map_idI)
  qed
  finally have seqs: "map streamRecordSeq (Records st) = ns" .
  have "map SequenceNumber (Records st) = map (\<lambda>r. itoa (streamRecordSeq r)) (Records st)"
    unfolding ns(1) by (simp flip: seqs)
  then have "list_all (\<lambda>r. SequenceNumber r = itoa (streamRecordSeq r)) (Records st)" by (simp add: list_all_iff)
  moreover have "sorted_wrt (\<lambda>a b. streamRecordSeq a < streamRecordSeq b) (Records st)"
    using ns(2) by (simp add: sorted_wrt_map flip: seqs)
  moreover have "0 < streamRecordSeq r \<and> streamRecordSeq r \<le> NextSeq st" if "r \<in> set (Records st)" for r
    using ns(3) that by (auto simp flip: seqs)
  ultimately show ?thesis by (auto simp: numbered_def list_all_iff)
qed

lemma sorted_wrt_nths: "sorted_wrt P xs \<Longrightarrow> sorted_wrt P (nths xs N)"
  using set_nths_subset by (induction xs arbitrary: N) (fastforce simp: nths_Cons)+

lemma ascending_subseq:
  assumes "ascending st" and "subseq (Records st') (Records st)" and "NextSeq st' = NextSeq st"
  shows "ascending st'"
proof -
  from assms(1) obtain ns where ns: "map SequenceNumber (Records st) = map itoa ns" "sorted_wrt (<) ns"
      "list_all (\<lambda>n. 0 < n \<and> n \<le> NextSeq st) ns" by (auto simp: ascending_def)
  from assms(2) obtain N where N: "Records st' = nths (Records st) N" by (auto simp: subseq_conv_nths)
  then have "map SequenceNumber (Records st') = map itoa (nths ns N)" using ns(1) by (simp add: nths_map flip: nths_map)
  moreover have "sorted_wrt (<) (nths ns N)" by (rule sorted_wrt_nths [OF ns(2)])
  moreover have "set (nths ns N) \<subseteq> set ns" by (rule set_nths_subset)
  moreover have "length (Records st') \<le> length (Records st)" using assms(2) by (rule list_emb_length)
  ultimately show ?thesis using assms(1,3) ns(3) by (auto simp: ascending_def list_all_iff)
qed

section \<open>Planned items\<close>

lemma validateItem_keys: "validateItem table item = None \<Longrightarrow>
    checkTableKeys (attributeTypeMap (AttributeDefinitions table)) item (KeySchema table) = None"
  by (auto simp: validateItem_def Let_def split: option.splits elim: firstError.elims)

lemma checkTableKeys_present:
  "checkTableKeys defined item schema = None \<Longrightarrow> part \<in> set schema \<Longrightarrow> \<exists>v. map_of item (key_AttributeName part) = Some v \<and> v \<noteq> JNull"
  by (induction schema) (auto simp: Let_def split: option.splits if_splits)

lemma keyParts_marshal:
  assumes "\<And>part. part \<in> set schema \<Longrightarrow> \<exists>v1 v2. map_of k1 (key_AttributeName part) = Some v1 \<and>
      map_of k2 (key_AttributeName part) = Some v2 \<and> Marshal E v1 = Marshal E v2"
  shows "keyParts E k1 schema = keyParts E k2 schema"
  using assms by (induction schema) (fastforce split: option.splits)+

lemma keyChanged_None: "keyChanged E new key = None \<Longrightarrow> (name, v) \<in> set key \<Longrightarrow> attributeValueEqual E (fst (indexMap new name)) v"
  by (induction key) (auto split: if_splits)

lemma canonicalKey_Inr:
  assumes "canonicalKey E table key = Inr k"
  shows "canonicalizeItem E key = Inr k" and "part \<in> set (KeySchema table) \<Longrightarrow> \<exists>v. map_of k (key_AttributeName part) = Some v"
  using assms by (auto simp: canonicalKey_def Let_def rbind_Inr list_all_iff split: if_splits option.splits)

text \<open>An update keeps the key: its new item is stored under the key it was planned with.\<close>

lemma updatedItem_key:
  assumes key: "canonicalKey E table rawKey = Inr key" and new: "updatedItem E table inp vals key old = Inr item"
    and id: "serializeKey E key (KeySchema table) = Inr keyID"
  shows "itemOK E table keyID item"
proof -
  from new obtain n1 where same: "keyChanged E n1 key = None" and canon: "canonicalizeItem E n1 = Inr item"
    and valid: "validateItem table item = None"
    by (auto simp: updatedItem_def rbind_Inr guard_def split: option.splits)
  have "\<exists>v1 v2. map_of item (key_AttributeName part) = Some v1 \<and> map_of key (key_AttributeName part) = Some v2 \<and> Marshal E v1 = Marshal E v2"
    if part: "part \<in> set (KeySchema table)" for part
  proof -
    let ?name = "key_AttributeName part"
    from canonicalKey_Inr(2) [OF key part] obtain v where v: "map_of key ?name = Some v" by blast
    then have mem: "(?name, v) \<in> set key" by (rule map_of_SomeD)
    from checkTableKeys_present [OF validateItem_keys [OF valid] part] obtain c where c: "map_of item ?name = Some c" by blast
    with canonicalizeItem_lookup(1) [OF canon, of ?name] obtain raw where raw: "map_of n1 ?name = Some raw" by auto
    with canonicalizeItem_lookup(2) [OF canon] c have "canonicalizeAttr E raw = Inr c" by fastforce
    moreover have "canonicalizeAttr E v = Inr v" using canonicalizeItem_member [OF canonicalKey_Inr(1) [OF key] mem] .
    moreover have "attributeValueEqual E raw v" using keyChanged_None [OF same mem] raw by (simp add: indexMap_def)
    ultimately have "Marshal E c = Marshal E v" by (auto simp: attributeValueEqual_canonical)
    with v c show ?thesis by blast
  qed
  then have "keyParts E item (KeySchema table) = keyParts E key (KeySchema table)" by (rule keyParts_marshal)
  then have "serializeKey E item (KeySchema table) = Inr keyID" using id by (simp add: serializeKey_def)
  with canonicalize_stable(3) [OF canon] validateItem_keys [OF valid] show ?thesis by (simp add: itemOK_def)
qed

lemma planned_itemOK:
  assumes "planLocked E s kind inp = Some (Inr w)" and "map_of (tables s) (pw_table w) = Some state" and "pw_new w = Some item"
  shows "itemOK E (Table state) (pw_keyID w) item"
proof (cases kind)
  case WritePut
  with assms(1) obtain state' stored where "getTableLocked s (in_TableName inp) = Inr (pw_table w, state')"
    "canonicalizeItem E (in_Item inp) = Inr stored" "pw_new w = Some stored" "validateItem (Table state') stored = None"
    "serializeKey E stored (KeySchema (Table state')) = Inr (pw_keyID w)"
    by (auto elim: plan_put)
  with assms(2,3) validateItem_keys show ?thesis by (auto simp: itemOK_def getTableLocked_Inr intro: canonicalize_stable)
next
  case WriteUpdate
  from assms(1) obtain state' vals new where p: "getTableLocked s (in_TableName inp) = Inr (pw_table w, state')"
    "plannedKey E (Table state') kind inp = Inr (new, pw_key w)"
    "serializeKey E (pw_key w) (KeySchema (Table state')) = Inr (pw_keyID w)"
    "plannedItem E (Table state') kind inp vals (pw_key w) (pw_old w) new = Inr (pw_new w)"
    by (rule planLocked_Inr) blast
  have st: "state' = state" using p(1) assms(2) by (simp add: getTableLocked_Inr)
  have "canonicalKey E (Table state) (in_Key inp) = Inr (pw_key w)"
    using p(2) WriteUpdate st by (auto simp: plannedKey_def rbind_Inr)
  moreover have "updatedItem E (Table state) inp vals (pw_key w) (pw_old w) = Inr item"
    using p(4) WriteUpdate st assms(3) by (auto simp: plannedItem_def rbind_Inr)
  ultimately show ?thesis using p(3) st updatedItem_key by blast
next
  case WriteDelete
  with assms show ?thesis by (auto simp: plannedItem_def elim!: planLocked_Inr)
next
  case WriteCheck
  with assms show ?thesis by (auto simp: plannedItem_def elim!: planLocked_Inr)
qed

section \<open>Commits\<close>

text \<open>A write whose new item fits its table, on a store that satisfies the invariant.\<close>

definition writeOK :: "ddb_env \<Rightarrow> ddbStore \<Rightarrow> pendingWrite \<Rightarrow> bool" where
  "writeOK E s w \<longleftrightarrow> (\<exists>state. map_of (tables s) (pw_table w) = Some state \<and>
     (\<forall>item. pw_new w = Some item \<longrightarrow> itemOK E (Table state) (pw_keyID w) item))"

lemma plannable_writeOK: "plannable E s w \<Longrightarrow> writeOK E s w"
proof -
  assume "plannable E s w"
  then consider kind inp where "planLocked E s kind inp = Some (Inr w)"
    | now state where "map_of (tables s) (pw_table w) = Some state" "w \<in> set (expiredWrites E now (pw_table w) state)"
    by (auto simp: plannable_def)
  then show ?thesis
  proof cases
    case 1
    then obtain state where "map_of (tables s) (pw_table w) = Some state" using planLocked_fits [OF 1] by (auto simp: fits_def)
    with planned_itemOK [OF 1 this] show ?thesis by (auto simp: writeOK_def)
  next
    case 2
    then have "pw_new w = None" using expiredWrites_write by blast
    with 2 show ?thesis by (auto simp: writeOK_def)
  qed
qed

lemma itemOK_cong:
  "KeySchema t' = KeySchema t \<Longrightarrow> AttributeDefinitions t' = AttributeDefinitions t \<Longrightarrow> itemOK E t' keyID item = itemOK E t keyID item"
  by (simp add: itemOK_def)

lemma commitTable_table [simp]:
  "AttributeDefinitions (Table (commitTable E region w now identity state)) = AttributeDefinitions (Table state)"
  "TableName (Table (commitTable E region w now identity state)) = TableName (Table state)"
  "ItemCount (Table (commitTable E region w now identity state)) =
     (if pw_new w = None \<and> pw_old w = None then ItemCount (Table state)
      else int (length (Items (commitTable E region w now identity state))))"
  by (auto simp: commitTable_def pruneTable_def appendTable_def countItems_def Let_def split: option.splits)

lemma ascending_append:
  assumes "ascending st" and "stream_ViewType st = v"
  shows "ascending (appendRecord region ev key old new now identity st)"
proof -
  from assms(1) obtain ns where ns: "map SequenceNumber (Records st) = map itoa ns" "sorted_wrt (<) ns"
      "list_all (\<lambda>n. 0 < n \<and> n \<le> NextSeq st) ns" "0 \<le> NextSeq st" by (auto simp: ascending_def)
  let ?rec = "streamRecord region (st\<lparr>NextSeq := NextSeq st + 1\<rparr>) ev key old new now identity"
  let ?k = "Suc (length (Records st)) - maxStreamRecords"
  have seq: "SequenceNumber ?rec = itoa (NextSeq st + 1)" by (simp add: streamRecord_def Let_def)
  have "map SequenceNumber (Records st @ [?rec]) = map itoa (ns @ [NextSeq st + 1])" by (simp add: ns(1) seq)
  from arg_cong [OF this, of "drop ?k"]
  have "map SequenceNumber (drop ?k (Records st @ [?rec])) = map itoa (drop ?k (ns @ [NextSeq st + 1]))" by (simp only: drop_map)
  moreover have "sorted_wrt (<) (drop ?k (ns @ [NextSeq st + 1]))"
    using ns(2,3) by (intro sorted_wrt_drop) (auto simp: sorted_wrt_append list_all_iff)
  moreover have "list_all (\<lambda>n. 0 < n \<and> n \<le> NextSeq st + 1) (drop ?k (ns @ [NextSeq st + 1]))"
    using ns(3,4) by (auto simp: list_all_iff dest!: in_set_dropD)
  ultimately show ?thesis using ns(4) unfolding ascending_def appendRecord_def evictOldStreamRecordsLocked_def Let_def
    by (intro conjI exI [of _ "drop ?k (ns @ [NextSeq st + 1])"]) (simp_all del: drop_append)
qed

lemma ascending_prune: "ascending st \<Longrightarrow> ascending (pruneStreamLocked now st)"
  by (erule ascending_subseq) (simp_all add: pruneStream_records(1))

lemma commitTable_OK:
  assumes "tableOK E state" and "\<And>item. pw_new w = Some item \<Longrightarrow> itemOK E (Table state) (pw_keyID w) item"
  shows "tableOK E (commitTable E region w now identity state)"
proof -
  let ?t = "commitTable E region w now identity state"
  have items: "distinct (map fst (Items ?t))" using assms(1) by (auto simp: tableOK_def commitTable_simps split: option.splits)
  have "itemOK E (Table state) keyID item" if "(keyID, item) \<in> set (Items ?t)" for keyID item
    using that assms
    by (auto simp: tableOK_def list_all_iff commitTable_simps AList.delete_eq split: option.splits if_splits dest!: AList_update_set)
  then have ok: "list_all (\<lambda>(keyID, item). itemOK E (Table ?t) keyID item) (Items ?t)"
    by (auto simp: list_all_iff itemOK_def commitTable_simps(2))
  have "case Stream ?t of None \<Rightarrow> True | Some st \<Rightarrow> ascending st"
    using assms(1) by (auto simp: tableOK_def commitTable_def pruneTable_def appendTable_def countItems_def Let_def
        intro: ascending_append ascending_prune split: option.splits)
  moreover have "ItemCount (Table ?t) = int (length (Items ?t))"
    using assms(1) by (auto simp: tableOK_def commitTable_simps)
  ultimately show ?thesis using items ok assms(1) by (simp add: tableOK_def commitTable_simps(2))
qed

lemma commit_storeOK:
  assumes "storeOK E s" and "writeOK E s w"
  shows "storeOK E (commitLocked E w now identity s)"
proof -
  from assms(2) obtain state where st: "map_of (tables s) (pw_table w) = Some state"
    and new: "\<And>item. pw_new w = Some item \<Longrightarrow> itemOK E (Table state) (pw_keyID w) item" by (auto simp: writeOK_def)
  from storeOK_lookup [OF assms(1) st] have "tableOK E (commitTable E (cfg_Region s) w now identity state)" "TableName (Table state) = pw_table w"
    using new by (auto intro: commitTable_OK)
  then show ?thesis using storeOK_put [OF assms(1)] commitLocked_Some(1) [OF st] by simp
qed

lemma writeOK_commit:
  assumes "writeOK E s w'" and "writeOK E s w"
  shows "writeOK E (commitLocked E w now identity s) w'"
  using assms by (auto simp: writeOK_def itemOK_def commitTable_simps(2))

lemma commits_storeOK: "storeOK E s \<Longrightarrow> list_all (writeOK E s) ws \<Longrightarrow> storeOK E (fold (\<lambda>w. commitLocked E w now identity) ws s)"
proof (induction ws arbitrary: s)
  case (Cons w ws)
  then have "list_all (writeOK E (commitLocked E w now identity s)) ws" by (auto simp: list_all_iff intro: writeOK_commit)
  with Cons show ?case by (simp add: commit_storeOK)
qed simp

lemma committed_storeOK:
  assumes "committed E s s'" and "storeOK E s"
  shows "storeOK E s'"
proof -
  from assms(1) obtain now identity ws where ws: "list_all (plannable E s) ws"
    and t: "tables s' = tables (fold (\<lambda>w. commitLocked E w now identity) ws s)" by (auto simp: committed_def Let_def)
  have "storeOK E (fold (\<lambda>w. commitLocked E w now identity) ws s)"
    using assms(2) ws plannable_writeOK by (intro commits_storeOK) (auto simp: list_all_iff)
  with t show ?thesis by (simp add: storeOK_def)
qed

end
