(* ===== verification/DDB_Reachable.thy ===== *)
theory DDB_Reachable
  imports DDB_Invariant
begin

text \<open>
  The step relation of the DynamoDB store, one step per operation, and the invariant in every store the
  operations reach from the empty one.
\<close>

section \<open>Table administration keeps the invariant\<close>

lemma map_of_attributeTypeMap:
  "map_of (attributeTypeMap defs) n = map_option def_AttributeType (find (\<lambda>d. def_AttributeName d = n) (rev defs))"
  unfolding attributeTypeMap_def by (induction defs rule: rev_induct) auto

lemma find_filter_name: "find (\<lambda>d. def_AttributeName d = n) (filter (\<lambda>d. def_AttributeName d \<in> U) xs) =
    (if n \<in> U then find (\<lambda>d. def_AttributeName d = n) xs else None)"
  by (induction xs) auto

lemma find_append: "find P (xs @ ys) = (case find P xs of None \<Rightarrow> find P ys | Some x \<Rightarrow> Some x)"
  by (induction xs) auto

lemma attributeTypeMap_filter:
  "map_of (attributeTypeMap (filter (\<lambda>d. def_AttributeName d \<in> U) defs)) n = (if n \<in> U then map_of (attributeTypeMap defs) n else None)"
  by (simp add: map_of_attributeTypeMap find_filter_name rev_filter)

lemma attributeTypeMap_added:
  assumes "map_of (attributeTypeMap defs) n \<noteq> None"
  shows "map_of (attributeTypeMap (defs @ filter (\<lambda>d. map_of (attributeTypeMap defs) (def_AttributeName d) = None) extra)) n =
    map_of (attributeTypeMap defs) n"
proof -
  have "find (\<lambda>d. def_AttributeName d = n) (rev (filter (\<lambda>d. map_of (attributeTypeMap defs) (def_AttributeName d) = None) extra)) = None"
    using assms by (auto simp: find_None_iff)
  then show ?thesis by (simp add: map_of_attributeTypeMap [of "defs @ _"] find_append) (simp add: map_of_attributeTypeMap)
qed

lemma countKeys_defined: "countKeys attrTypes schema h r = Inr res \<Longrightarrow> part \<in> set schema \<Longrightarrow> map_of attrTypes (key_AttributeName part) \<noteq> None"
  by (induction attrTypes schema h r rule: countKeys.induct) (auto split: if_splits)

lemma validateKeySchema_defined:
  "validateKeySchema schema attrTypes = None \<Longrightarrow> part \<in> set schema \<Longrightarrow> map_of attrTypes (key_AttributeName part) \<noteq> None"
  by (auto simp: validateKeySchema_def split: if_splits sum.splits dest: countKeys_defined)

lemma checkTableKeys_cong:
  "(\<And>part. part \<in> set schema \<Longrightarrow> map_of d1 (key_AttributeName part) = map_of d2 (key_AttributeName part)) \<Longrightarrow>
     checkTableKeys d1 item schema = checkTableKeys d2 item schema"
  by (induction schema) (auto simp: Let_def typeOf_def split: option.splits)

lemma prepareIndexes_simps [simp]:
  "KeySchema (prepareIndexes t) = KeySchema t" "AttributeDefinitions (prepareIndexes t) = AttributeDefinitions t"
  "TableName (prepareIndexes t) = TableName t" "ItemCount (prepareIndexes t) = ItemCount t"
  by (simp_all add: prepareIndexes_def)

lemma validateTableDefinition_keys: "validateTableDefinition t = None \<Longrightarrow>
    validateKeySchema (KeySchema t) (attributeTypeMap (AttributeDefinitions t)) = None"
  by (auto simp: validateTableDefinition_def Let_def split: option.splits)

text \<open>What an update of the indexes leaves of the table: the types of its key attributes.\<close>

lemma updateIndexes_keeps:
  assumes "updateIndexes inp t = Inr t'"
    and "validateKeySchema (KeySchema t) (attributeTypeMap (AttributeDefinitions t)) = None"
  shows "KeySchema t' = KeySchema t \<and> TableName t' = TableName t \<and> ItemCount t' = ItemCount t \<and>
    validateKeySchema (KeySchema t') (attributeTypeMap (AttributeDefinitions t')) = None \<and>
    (\<forall>part \<in> set (KeySchema t). map_of (attributeTypeMap (AttributeDefinitions t')) (key_AttributeName part) =
       map_of (attributeTypeMap (AttributeDefinitions t)) (key_AttributeName part))"
proof (cases "ut_GlobalSecondaryIndexUpdates inp = []")
  case True
  with assms show ?thesis by (auto simp: updateIndexes_def)
next
  case False
  let ?defs = "AttributeDefinitions t"
  let ?added = "filter (\<lambda>d. map_of (attributeTypeMap ?defs) (def_AttributeName d) = None) (ut_AttributeDefinitions inp)"
  from False assms(1) obtain idxs t2 where t2: "t2 = t\<lparr>GlobalSecondaryIndexes := idxs, AttributeDefinitions := usedAttributeDefinitions
      (t\<lparr>AttributeDefinitions := ?defs @ ?added, GlobalSecondaryIndexes := idxs\<rparr>)\<rparr>"
    and v: "validateTableDefinition t2 = None" and t': "t' = prepareIndexes t2"
    by (auto simp: updateIndexes_def Let_def rbind_Inr guard_def split: option.splits)
  have "map_of (attributeTypeMap (AttributeDefinitions t2)) (key_AttributeName part) = map_of (attributeTypeMap ?defs) (key_AttributeName part)"
    if "part \<in> set (KeySchema t)" for part
  proof -
    have "map_of (attributeTypeMap ?defs) (key_AttributeName part) \<noteq> None" using assms(2) that by (rule validateKeySchema_defined)
    moreover define U where "U = set (schemaAttributes (t\<lparr>AttributeDefinitions := ?defs @ ?added, GlobalSecondaryIndexes := idxs\<rparr>))"
    have "AttributeDefinitions t2 = filter (\<lambda>d. def_AttributeName d \<in> U) (?defs @ ?added)"
      unfolding t2 usedAttributeDefinitions_def U_def by simp
    moreover have "key_AttributeName part \<in> U" using that unfolding U_def schemaAttributes_def by simp
    ultimately show ?thesis using attributeTypeMap_added by (simp only: attributeTypeMap_filter if_True)
  qed
  with validateTableDefinition_keys [OF v] show ?thesis by (simp add: t' t2)
qed

lemma tableOK_redefine:
  assumes "tableOK E state" and "Items state' = Items state"
    and "KeySchema (Table state') = KeySchema (Table state)" and "ItemCount (Table state') = ItemCount (Table state)"
    and "validateKeySchema (KeySchema (Table state')) (attributeTypeMap (AttributeDefinitions (Table state'))) = None"
    and "\<And>part. part \<in> set (KeySchema (Table state)) \<Longrightarrow>
      map_of (attributeTypeMap (AttributeDefinitions (Table state'))) (key_AttributeName part) =
      map_of (attributeTypeMap (AttributeDefinitions (Table state))) (key_AttributeName part)"
    and "case Stream state' of None \<Rightarrow> True | Some st \<Rightarrow> ascending st"
  shows "tableOK E state'"
proof -
  have "checkTableKeys (attributeTypeMap (AttributeDefinitions (Table state'))) item (KeySchema (Table state)) =
      checkTableKeys (attributeTypeMap (AttributeDefinitions (Table state))) item (KeySchema (Table state))" for item
    using assms(6) by (intro checkTableKeys_cong)
  with assms show ?thesis by (simp add: tableOK_def itemOK_def list_all_iff)
qed

lemma ascending_new: "ascending (newStream arn label view)"
  by (auto simp: ascending_def newStream_def)

lemma applyTableStreamUpdate_keeps:
  assumes "case Stream state of None \<Rightarrow> True | Some st \<Rightarrow> ascending st"
  shows "Items (applyTableStreamUpdateLocked s label spec state) = Items state"
    and "KeySchema (Table (applyTableStreamUpdateLocked s label spec state)) = KeySchema (Table state)"
    and "ItemCount (Table (applyTableStreamUpdateLocked s label spec state)) = ItemCount (Table state)"
    and "AttributeDefinitions (Table (applyTableStreamUpdateLocked s label spec state)) = AttributeDefinitions (Table state)"
    and "TableName (Table (applyTableStreamUpdateLocked s label spec state)) = TableName (Table state)"
    and "case Stream (applyTableStreamUpdateLocked s label spec state) of None \<Rightarrow> True | Some st \<Rightarrow> ascending st"
  using assms ascending_new
  by (auto simp: applyTableStreamUpdateLocked_def Let_def split: option.splits)

lemma finishUpdate_tables:
  "tables (snd (finishUpdate label inp key state s)) =
     AList.update key (applyTableStreamUpdateLocked s label (ut_StreamSpecification inp) state) (tables s)"
  by (simp add: finishUpdate_def Let_def)

lemma CreateTable_storeOK:
  assumes "CreateTable now label input s = Some (r, s')" and "storeOK E s"
  shows "storeOK E s'"
proof -
  from assms(1) consider "s' = s" | sse where "validateTableDefinition input = None"
      "s' = persist (s\<lparr>tables := AList.update (TableName input) (newTableState (newTable s now label sse input)) (tables s)\<rparr>)"
    by (auto simp: CreateTable_def Let_def split: if_splits option.splits sum.splits)
  then show ?thesis
  proof cases
    case 2
    have k: "KeySchema (newTable s now label sse input) = KeySchema input" "TableName (newTable s now label sse input) = TableName input"
      "AttributeDefinitions (newTable s now label sse input) = AttributeDefinitions input" "ItemCount (newTable s now label sse input) = 0"
      by (simp_all add: newTable_def Let_def normalizeTableCompatibility_def)
    have "tableOK E (newTableState (newTable s now label sse input))"
      using validateTableDefinition_keys [OF 2(1)] ascending_new by (auto simp: tableOK_def newTableState_def k split: option.splits)
    moreover have "TableName (Table (newTableState (newTable s now label sse input))) = TableName input" by (simp add: newTableState_def k)
    ultimately show ?thesis using 2(2) by (intro storeOK_put [OF assms(2)]) auto
  qed (use assms(2) in simp)
qed

lemma DeleteTable_storeOK:
  assumes "DeleteTable name s = Some (r, s')" and "storeOK E s"
  shows "storeOK E s'"
proof -
  from assms(1) consider "tables s' = tables s" | k where "tables s' = AList.delete k (tables s)"
    by (auto simp: DeleteTable_def Let_def split: if_splits option.splits sum.splits)
  then show ?thesis
  proof cases
    case 1
    with assms(2) show ?thesis by (simp add: storeOK_def)
  next
    case (2 k)
    have "distinct (map fst (AList.delete k (tables s)))" using assms(2) by (simp add: storeOK_def)
    moreover have "list_all P (AList.delete k (tables s))" if "list_all P (tables s)" for P
      using that by (simp add: list_all_iff AList.delete_eq)
    ultimately show ?thesis using assms(2) 2 by (simp add: storeOK_def)
  qed
qed

lemma UpdateTable_cases:
  assumes "UpdateTable label inp s = Some (r, s')"
  obtains "tables s' = tables s"
  | key state table table' where "getTableLocked s (ut_TableName inp) = Inr (key, state)" "updateIndexes inp (Table state) = Inr table"
      "KeySchema table' = KeySchema table" "ItemCount table' = ItemCount table" "TableName table' = TableName table"
      "AttributeDefinitions table' = AttributeDefinitions table"
      "s' = snd (finishUpdate label inp key (state\<lparr>Table := table'\<rparr>) s)"
proof (cases "getTableLocked s (ut_TableName inp)")
  case (Inl e)
  with assms that(1) show ?thesis by (auto simp: UpdateTable_def split: if_splits)
next
  case (Inr found)
  obtain key state where f: "found = (key, state)" by (cases found)
  show ?thesis
  proof (cases "updateIndexes inp (Table state)")
    case (Inl e)
    with assms that(1) Inr f show ?thesis by (auto simp: UpdateTable_def split: if_splits)
  next
    case table: (Inr table)
    have fields: "KeySchema (updateSettings inp table) = KeySchema table" "ItemCount (updateSettings inp table) = ItemCount table"
      "TableName (updateSettings inp table) = TableName table" "AttributeDefinitions (updateSettings inp table) = AttributeDefinitions table"
      by (simp_all add: updateSettings_def)
    have found: "getTableLocked s (ut_TableName inp) = Inr (key, state)" using Inr f by simp
    show ?thesis
    proof (cases "ut_SSESpecification inp")
      case None
      with assms found table have "tables s' = tables s \<or> s' = snd (finishUpdate label inp key (state\<lparr>Table := updateSettings inp table\<rparr>) s)"
        by (auto simp: UpdateTable_def Let_def split: if_splits prod.splits)
      with that(1) that(2) [OF found table fields] show ?thesis by blast
    next
      case (Some spec)
      show ?thesis
      proof (cases "sseDescription s (Some spec)")
        case (Inl e)
        with assms that(1) found table Some show ?thesis by (auto simp: UpdateTable_def Let_def split: if_splits)
      next
        case (Inr sse)
        with assms found table Some have "tables s' = tables s \<or>
            s' = snd (finishUpdate label inp key (state\<lparr>Table := (updateSettings inp table)\<lparr>SSEDescription := sse\<rparr>\<rparr>) s)"
          by (auto simp: UpdateTable_def Let_def split: if_splits prod.splits)
        with that(1) that(2) [OF found table, of "(updateSettings inp table)\<lparr>SSEDescription := sse\<rparr>"] fields show ?thesis by auto
      qed
    qed
  qed
qed

lemma UpdateTable_storeOK:
  assumes "UpdateTable label inp s = Some (r, s')" and "storeOK E s"
  shows "storeOK E s'"
proof -
  from assms(1) show ?thesis
  proof (cases rule: UpdateTable_cases)
    case 1
    then show ?thesis using assms(2) by (simp add: storeOK_def)
  next
    case (2 key state table table')
    note t' = 2(3-6) and s' = 2(7)
    from 2(1) have "map_of (tables s) key = Some state" by (auto simp: getTableLocked_Inr)
    with storeOK_lookup [OF assms(2)] have ok: "tableOK E state" "TableName (Table state) = key" by auto
    from ok(1) have v: "validateKeySchema (KeySchema (Table state)) (attributeTypeMap (AttributeDefinitions (Table state))) = None"
      and st: "case Stream state of None \<Rightarrow> True | Some st \<Rightarrow> ascending st" by (auto simp: tableOK_def)
    note keep = updateIndexes_keeps [OF 2(2) v]
    have "tableOK E (state\<lparr>Table := table'\<rparr>)"
      by (rule tableOK_redefine [OF ok(1)]) (use keep t' st in auto)
    then have "tableOK E (applyTableStreamUpdateLocked s label (ut_StreamSpecification inp) (state\<lparr>Table := table'\<rparr>))"
      by (rule tableOK_redefine) (use applyTableStreamUpdate_keeps [of "state\<lparr>Table := table'\<rparr>"] keep t' st in auto)
    moreover have "TableName (Table (applyTableStreamUpdateLocked s label (ut_StreamSpecification inp) (state\<lparr>Table := table'\<rparr>))) = key"
      using applyTableStreamUpdate_keeps(5) [of "state\<lparr>Table := table'\<rparr>"] keep t' ok(2) st by simp
    ultimately show ?thesis using storeOK_put [OF assms(2)] finishUpdate_tables unfolding s' by blast
  qed
qed

lemma changeTable_storeOK:
  assumes "changeTable name f s = Some (r, s')" and "storeOK E s"
    and "\<And>state. Items (f state) = Items state \<and> Stream (f state) = Stream state \<and> KeySchema (Table (f state)) = KeySchema (Table state) \<and>
      ItemCount (Table (f state)) = ItemCount (Table state) \<and> TableName (Table (f state)) = TableName (Table state) \<and>
      AttributeDefinitions (Table (f state)) = AttributeDefinitions (Table state)"
  shows "storeOK E s'"
proof -
  show ?thesis
  proof (cases "getTableLocked s name")
    case (Inl e)
    with assms(1,2) show ?thesis by (auto simp: changeTable_def split: if_splits)
  next
    case (Inr found)
    then obtain key state where f: "getTableLocked s name = Inr (key, state)" by (cases found) auto
    with assms(1) have s': "tables s' = AList.update key (f state) (tables s)" by (auto simp: changeTable_def split: if_splits)
    from f have "map_of (tables s) key = Some state" by (auto simp: getTableLocked_Inr)
    from storeOK_lookup [OF assms(2) this] assms(3) [of state] have "tableOK E (f state)" "TableName (Table (f state)) = key"
      by (auto simp: tableOK_def itemOK_def)
    with s' show ?thesis by (intro storeOK_put [OF assms(2)])
  qed
qed

lemma streamWindow_storeOK:
  assumes "streamWindow now arn n limit wait s = Some (r, s')" and "storeOK E s"
  shows "storeOK E s'"
proof -
  show ?thesis
  proof (cases "findStreamLocked s arn")
    case (Inl e)
    with assms show ?thesis by (auto simp: streamWindow_def split: if_splits)
  next
    case (Inr found)
    then obtain name state st where f: "findStreamLocked s arn = Inr (name, state, st)" by (cases found) auto
    then have found: "findStream arn (tables s) = Some (name, state, st)" by (auto simp: findStreamLocked_def split: option.splits)
    have wait: "tables (snd (streamWaitChanLocked arn s1)) = tables s1" for s1
      by (simp add: streamWaitChanLocked_def split: option.splits)
    have s': "tables s' = AList.update name (state\<lparr>Stream := Some (pruneStreamLocked now st)\<rparr>) (tables s)"
      using assms(1) f wait [of "s\<lparr>tables := AList.update name (state\<lparr>Stream := Some (pruneStreamLocked now st)\<rparr>) (tables s)\<rparr>"]
      by (auto simp: streamWindow_def Let_def split: if_splits prod.splits)
    from findStream_Some [OF found] assms(2) have ok: "tableOK E state" "TableName (Table state) = name" "Stream state = Some st"
      by (auto simp: storeOK_def list_all_iff)
    then have "tableOK E (state\<lparr>Stream := Some (pruneStreamLocked now st)\<rparr>)"
      by (auto simp: tableOK_def intro: ascending_prune)
    with s' ok(2) show ?thesis by (intro storeOK_put [OF assms(2)]) auto
  qed
qed

section \<open>Steps\<close>

definition newDdbStore :: "string \<Rightarrow> string \<Rightarrow> ddbStore" where
  "newDdbStore region account = \<lparr>cfg_Region = region, cfg_AccountID = account, tables = [], ddb_wakes = [], ddb_chans = 0,
     ddb_dirty = False, mu_held = False\<rparr>"

inductive ddb_step :: "ddb_env \<Rightarrow> ddbStore \<Rightarrow> ddbStore \<Rightarrow> bool" for E where
  put: "PutItem E now inp s = Some (r, s') \<Longrightarrow> ddb_step E s s'"
| update: "UpdateItem E now inp s = Some (r, s') \<Longrightarrow> ddb_step E s s'"
| delete: "DeleteItem E now inp s = Some (r, s') \<Longrightarrow> ddb_step E s s'"
| batch: "BatchWriteItem E now reqs s = Some (r, s') \<Longrightarrow> ddb_step E s s'"
| transact: "TransactWriteItems E now actions s = Some (r, s') \<Longrightarrow> ddb_step E s s'"
| sweep: "sweepExpired E now s = Some (n, s') \<Longrightarrow> ddb_step E s s'"
| create: "CreateTable now label input s = Some (r, s') \<Longrightarrow> ddb_step E s s'"
| drop_table: "DeleteTable name s = Some (r, s') \<Longrightarrow> ddb_step E s s'"
| alter: "UpdateTable label changes s = Some (r, s') \<Longrightarrow> ddb_step E s s'"
| tag: "TagResource name tags s = Some (r, s') \<Longrightarrow> ddb_step E s s'"
| untag: "UntagResource name ks s = Some (r, s') \<Longrightarrow> ddb_step E s s'"
| expiry: "UpdateTimeToLive name attr enabled s = Some (r, s') \<Longrightarrow> ddb_step E s s'"
| stream: "streamBatch now arn checkpoint limit wait s = Some (r, s') \<Longrightarrow> ddb_step E s s'"
| records: "GetRecords dec enc now iterator limit s = Some (r, s') \<Longrightarrow> ddb_step E s s'"

lemma storeOK_items: "storeOK E s \<Longrightarrow> (name, state) \<in> set (tables s) \<Longrightarrow> distinct (map fst (Items state))"
  by (auto simp: storeOK_def list_all_iff tableOK_def)

lemma ddb_step_storeOK: "ddb_step E s s' \<Longrightarrow> storeOK E s \<Longrightarrow> storeOK E s'"
proof (induction rule: ddb_step.induct)
  case (put now inp s r s')
  then show ?case unfolding PutItem_def using writeItem_committed committed_storeOK by blast
next
  case (update now inp s r s')
  then show ?case unfolding UpdateItem_def using writeItem_committed committed_storeOK by blast
next
  case (delete now inp s r s')
  then show ?case unfolding DeleteItem_def using writeItem_committed committed_storeOK by blast
next
  case (batch now reqs s r s')
  then show ?case using BatchWriteItem_committed committed_storeOK by blast
next
  case (transact now actions s r s')
  then show ?case using TransactWriteItems_committed committed_storeOK by blast
next
  case (sweep now s n s')
  then have "committed E s s'" using storeOK_items by (intro sweepExpired_committed [of E now s n s']) (auto simp: storeOK_def)
  with sweep show ?case using committed_storeOK by blast
next
  case (tag name tags s r s')
  then show ?case by (auto simp: TagResource_def split: if_splits elim!: changeTable_storeOK)
next
  case (untag name ks s r s')
  then show ?case by (auto simp: UntagResource_def split: if_splits elim!: changeTable_storeOK)
next
  case (expiry name attr enabled s r s')
  then show ?case by (auto simp: UpdateTimeToLive_def split: if_splits elim!: changeTable_storeOK)
next
  case (stream now arn checkpoint limit wait s r s')
  then show ?case by (auto simp: streamBatch_def Let_def split: option.splits elim: streamWindow_storeOK)
next
  case (records dec enc now iterator limit s r s')
  then show ?case by (auto simp: GetRecords_def split: option.splits prod.splits elim: streamWindow_storeOK)
qed (auto intro: CreateTable_storeOK DeleteTable_storeOK UpdateTable_storeOK)

interpretation ddb: transition_system "ddb_step E" "storeOK E" for E
  by unfold_locales (rule ddb_step_storeOK)

text \<open>C3: In every store the operations reach from the empty one, table names and item keys are unique, each table
  is under its own name with a valid key schema, each item is canonical, has key attributes of the declared
  types and is stored under the key it serializes to, item counters match, and each stream is numbered in
  ascending order and within its limit.\<close>

theorem ddb_reachable_ok:
  assumes "(ddb_step E)\<^sup>*\<^sup>* (newDdbStore region account) s"
  shows "storeOK E s"
  using assms by (rule ddb.steps_invariant) (simp add: storeOK_def newDdbStore_def)

definition demoNew :: ddbStore where
  "demoNew = newDdbStore ''r'' ''1''"

definition demoCreated :: ddbStore where
  "demoCreated = snd (the (CreateTable 0 ''l'' demoTable demoNew))"

definition demoWritten :: ddbStore where
  "demoWritten = snd (the (PutItem demoEnv 0 demoPut demoCreated))"

theorem ddb_reachable_ok_witness:
  "storeOK demoEnv demoWritten \<and> itemAt demoWritten ''t'' ''id=S:a'' = Some demoItem"
proof -
  have "CreateTable 0 ''l'' demoTable demoNew \<noteq> None" by code_simp
  then have "CreateTable 0 ''l'' demoTable demoNew = Some (fst (the (CreateTable 0 ''l'' demoTable demoNew)), demoCreated)"
    by (auto simp: demoCreated_def)
  then have "ddb_step demoEnv demoNew demoCreated" by (rule ddb_step.create)
  moreover have "PutItem demoEnv 0 demoPut demoCreated \<noteq> None" by code_simp
  then have "PutItem demoEnv 0 demoPut demoCreated = Some (fst (the (PutItem demoEnv 0 demoPut demoCreated)), demoWritten)"
    by (auto simp: demoWritten_def)
  then have "ddb_step demoEnv demoCreated demoWritten" by (rule ddb_step.put)
  ultimately have "(ddb_step demoEnv)\<^sup>*\<^sup>* (newDdbStore ''r'' ''1'') demoWritten" unfolding demoNew_def by simp
  then have "storeOK demoEnv demoWritten" by (rule ddb_reachable_ok)
  moreover have "itemAt demoWritten ''t'' ''id=S:a'' = Some demoItem" by code_simp
  ultimately show ?thesis ..
qed

end
