(* ===== verification/DDB_Read.thy ===== *)
theory DDB_Read
  imports DDB_Write Tarn_Search "HOL-Library.Word"
begin

unbundle bit_operations_syntax

text \<open>
  Scan and Query (\<open>internal/dynamodb/read.go\<close> and the index functions of \<open>store.go\<close>): the items of a
  table or an index in key order, the point a page starts at and the walk that collects a page.
  \<open>sort.Slice\<close> is an insertion sort here; for keys that all differ in the order every sort gives the
  same list. Hashes are 32-bit words, as in the code.
\<close>

definition maxPageBytes :: int where "maxPageBytes = 1024 * 1024"

record ReadInput =
  rd_TableName :: string
  IndexName :: string
  KeyConditionExpression :: string
  FilterExpression :: string
  rd_ProjectionExpression :: string
  rd_Names :: "(string \<times> string) list"
  rd_Values :: json_object
  Limit :: int
  ExclusiveStartKey :: json_object
  ScanIndexForward :: "bool option"
  Select :: string
  Segment :: "int option"
  TotalSegments :: int

record ReadResult =
  res_Items :: "json_object list option"
  res_Count :: int
  ScannedCount :: int
  LastEvaluatedKey :: "json_object option"

type_synonym cachedOrder = "(rat option \<times> string) list"

record itemView =
  view_item :: json_object
  view_key :: json_object
  view_order :: cachedOrder

section \<open>Indexes\<close>

definition lookupIndex :: "DynamoDBTable \<Rightarrow> string \<Rightarrow> (DynamoDBKeySchemaElement list \<times> DynamoDBProjection option) ddb_result" where
  "lookupIndex table name =
     (if name = '''' then Inr (KeySchema table, None)
      else (case find (\<lambda>idx. lsi_IndexName idx = name) (LocalSecondaryIndexes table) of
          Some idx \<Rightarrow> Inr (lsi_KeySchema idx, Some (lsi_Projection idx))
        | None \<Rightarrow> (case find (\<lambda>idx. gsi_IndexName idx = name) (GlobalSecondaryIndexes table) of
              Some idx \<Rightarrow> Inr (gsi_KeySchema idx, Some (gsi_Projection idx))
            | None \<Rightarrow> Inl (validationError (''The table does not have the specified index: '' @ name)))))"

fun dedupSchema :: "string list \<Rightarrow> DynamoDBKeySchemaElement list \<Rightarrow> DynamoDBKeySchemaElement list" where
  "dedupSchema seen [] = []"
| "dedupSchema seen (part # schema) =
     (if key_AttributeName part \<in> set seen then dedupSchema seen schema
      else part # dedupSchema (key_AttributeName part # seen) schema)"

definition unionKeySchema ::
    "DynamoDBKeySchemaElement list \<Rightarrow> DynamoDBKeySchemaElement list \<Rightarrow> DynamoDBKeySchemaElement list" where
  "unionKeySchema primary secondary = dedupSchema [] (secondary @ primary)"

definition applyIndexProjection :: "json_object \<Rightarrow> DynamoDBProjection \<Rightarrow> DynamoDBKeySchemaElement list \<Rightarrow> json_object" where
  "applyIndexProjection item projection schema =
     (let kind = toUpper (trimSpace (ProjectionType projection)); keys = map key_AttributeName schema in
      if kind = ''KEYS_ONLY'' then filter (\<lambda>(name, _). name \<in> set keys) item
      else if kind = ''INCLUDE'' then filter (\<lambda>(name, _). name \<in> set (keys @ NonKeyAttributes projection)) item
      else item)"

section \<open>Key order\<close>

definition keyOrder :: "ddb_env \<Rightarrow> json_object \<Rightarrow> DynamoDBKeySchemaElement list \<Rightarrow> cachedOrder" where
  "keyOrder E key schema = map (\<lambda>part. let v = fst (indexMap key (key_AttributeName part)) in (asNumber E v, snd (scalarOrder v))) schema"

definition comparePart :: "rat option \<times> string \<Rightarrow> rat option \<times> string \<Rightarrow> int" where
  "comparePart a b = (case (fst a, fst b) of
      (Some x, Some y) \<Rightarrow> cmpOrd x y
    | _ \<Rightarrow> cmpOrd (snd a) (snd b))"

fun compareKeyOrder :: "cachedOrder \<Rightarrow> cachedOrder \<Rightarrow> int" where
  "compareKeyOrder (x # a) (y # b) = (let cmp = comparePart x y in if cmp \<noteq> 0 then cmp else compareKeyOrder a b)"
| "compareKeyOrder _ _ = 0"

definition viewBefore :: "bool \<Rightarrow> itemView \<Rightarrow> itemView \<Rightarrow> bool" where
  "viewBefore reverse a b \<longleftrightarrow> (let cmp = compareKeyOrder (view_order a) (view_order b) in if reverse then cmp > 0 else cmp < 0)"

fun sinkView :: "bool \<Rightarrow> itemView \<Rightarrow> itemView list \<Rightarrow> itemView list" where
  "sinkView reverse v [] = [v]"
| "sinkView reverse v (w # ws) = (if viewBefore reverse w v then w # sinkView reverse v ws else v # w # ws)"

definition viewOf :: "ddb_env \<Rightarrow> DynamoDBKeySchemaElement list \<Rightarrow> json_object \<Rightarrow> itemView option" where
  "viewOf E schema item = (case buildKeyMap item schema of
      Inl _ \<Rightarrow> None
    | Inr key \<Rightarrow> Some \<lparr>view_item = item, view_key = key, view_order = keyOrder E key schema\<rparr>)"

text \<open>\<open>collectSortedItems\<close> with the key schema of the index; items without an index key are not in the index.\<close>

definition collectSortedItems :: "ddb_env \<Rightarrow> tableState \<Rightarrow> DynamoDBKeySchemaElement list \<Rightarrow> bool \<Rightarrow> itemView list" where
  "collectSortedItems E state keySchema reverse =
     foldr (sinkView reverse) (List.map_filter (viewOf E (unionKeySchema (KeySchema (Table state)) keySchema)) (map snd (Items state))) []"

definition findExclusiveStart :: "ddb_env \<Rightarrow> itemView list \<Rightarrow> DynamoDBKeySchemaElement list \<Rightarrow> json_object \<Rightarrow> bool \<Rightarrow> nat ddb_result" where
  "findExclusiveStart E views schema startKey reverse =
     (if startKey = [] then Inr 0
      else rbind (canonicalizeItem E startKey) (\<lambda>canonical.
        if list_ex (\<lambda>part. map_of canonical (key_AttributeName part) = None) schema then
          Inl (validationError ''The provided starting key is invalid: The provided key element does not match the schema'')
        else
          let start = keyOrder E canonical schema in
          Inr (sortSearch (length views) (\<lambda>i.
            let cmp = compareKeyOrder (view_order (views ! i)) start in if reverse then cmp < 0 else cmp > 0))))"

section \<open>Parallel scans\<close>

definition fnv1a :: "string \<Rightarrow> 32 word" where
  "fnv1a s = fold (\<lambda>c h. (h XOR of_nat (of_char c)) * 16777619) s 2166136261"

definition segmentOf :: "ddb_env \<Rightarrow> json_object \<Rightarrow> DynamoDBKeySchemaElement list \<Rightarrow> int \<Rightarrow> int" where
  "segmentOf E key schema segments =
     (let keyID = (case serializeKey E key schema of Inr i \<Rightarrow> i | Inl _ \<Rightarrow> '''') in
      uint (fnv1a keyID mod (of_int segments :: 32 word)))"

section \<open>A page\<close>

text \<open>What the walk needs besides the request: the key schemas, the projection of the index and the canonical values.\<close>

record readContext =
  ctx_tableKeys :: "DynamoDBKeySchemaElement list"
  ctx_projectedKeys :: "DynamoDBKeySchemaElement list"
  ctx_projection :: "DynamoDBProjection option"
  ctx_values :: json_object

definition projectView :: "ReadInput \<Rightarrow> readContext \<Rightarrow> json_object \<Rightarrow> json_object ddb_result" where
  "projectView inp ctx item =
     (let item1 = (case ctx_projection ctx of None \<Rightarrow> item | Some p \<Rightarrow> applyIndexProjection item p (ctx_projectedKeys ctx)) in
      if rd_ProjectionExpression inp \<noteq> '''' then applyProjectionExpression item1 (rd_ProjectionExpression inp) (rd_Names inp)
      else Inr item1)"

text \<open>One turn of the walk: \<open>Inr None\<close> when the item is not read, else whether it passes the filter and, when
  items are wanted, the item to return.\<close>

definition readStep :: "ddb_env \<Rightarrow> ReadInput \<Rightarrow> bool \<Rightarrow> readContext \<Rightarrow> itemView \<Rightarrow> (bool \<times> json_object option) option ddb_result option" where
  "readStep E inp query ctx view =
     (if (case Segment inp of None \<Rightarrow> False | Some seg \<Rightarrow> segmentOf E (view_key view) (ctx_tableKeys ctx) (TotalSegments inp) \<noteq> seg)
      then Some (Inr None)
      else (case (if query then evaluateConditionExpression E (KeyConditionExpression inp) (view_item view) (rd_Names inp) (ctx_values ctx)
                  else Some (Inr True)) of
          None \<Rightarrow> None
        | Some (Inl e) \<Rightarrow> Some (Inl e)
        | Some (Inr False) \<Rightarrow> Some (Inr None)
        | Some (Inr True) \<Rightarrow>
            map_option (\<lambda>r. rbind r (\<lambda>ok.
                if \<not> ok then Inr (Some (False, None))
                else if Select inp = ''COUNT'' then Inr (Some (True, None))
                else rbind (projectView inp ctx (view_item view)) (\<lambda>item. Inr (Some (True, Some item)))))
              (evaluateConditionExpression E (FilterExpression inp) (view_item view) (rd_Names inp) (ctx_values ctx))))"

fun readLoop :: "ddb_env \<Rightarrow> ReadInput \<Rightarrow> bool \<Rightarrow> readContext \<Rightarrow> int \<Rightarrow> itemView list \<Rightarrow> int \<Rightarrow> ReadResult \<Rightarrow> ReadResult ddb_result option" where
  "readLoop E inp query ctx limit [] bytes out = Some (Inr out)"
| "readLoop E inp query ctx limit (view # views) bytes out = (case readStep E inp query ctx view of
      None \<Rightarrow> None
    | Some (Inl e) \<Rightarrow> Some (Inl e)
    | Some (Inr None) \<Rightarrow> readLoop E inp query ctx limit views bytes out
    | Some (Inr (Some (ok, item))) \<Rightarrow>
        let out1 = out\<lparr>res_Items := (case item of None \<Rightarrow> res_Items out | Some i \<Rightarrow> map_option (\<lambda>its. its @ [i]) (res_Items out)),
                       res_Count := res_Count out + (if ok then 1 else 0), ScannedCount := ScannedCount out + 1\<rparr>;
            bytes1 = bytes + itemSize (view_item view) in
        if (ScannedCount out1 \<ge> limit \<or> bytes1 \<ge> maxPageBytes) \<and> views \<noteq> []
        then Some (Inr (out1\<lparr>LastEvaluatedKey := Some (view_key view)\<rparr>))
        else readLoop E inp query ctx limit views bytes1 out1)"

definition checkRead :: "ReadInput \<Rightarrow> ddb_error option" where
  "checkRead inp =
     (if Select inp = ''SPECIFIC_ATTRIBUTES'' \<and> rd_ProjectionExpression inp = '''' then
        Some (validationError ''SPECIFIC_ATTRIBUTES requires a ProjectionExpression'')
      else if Select inp \<notin> set ['''', ''ALL_ATTRIBUTES'', ''ALL_PROJECTED_ATTRIBUTES'', ''COUNT'', ''SPECIFIC_ATTRIBUTES''] then
        Some (validationError (''Unsupported Select value: '' @ Select inp))
      else if Select inp \<noteq> '''' \<and> Select inp \<noteq> ''SPECIFIC_ATTRIBUTES'' \<and> rd_ProjectionExpression inp \<noteq> '''' then
        Some (validationError ''Cannot specify the ProjectionExpression with a Select value other than SPECIFIC_ATTRIBUTES'')
      else if Limit inp < 0 then Some (validationError ''Limit must be greater than or equal to 1'')
      else None)"

definition readsBackwards :: "ReadInput \<Rightarrow> bool" where
  "readsBackwards inp \<longleftrightarrow> ScanIndexForward inp = Some False"

definition readTableRows :: "ddb_env \<Rightarrow> ReadInput \<Rightarrow> bool \<Rightarrow> ddbStore \<Rightarrow> ReadResult ddb_result option" where
  "readTableRows E inp query s =
     (case checkRead inp of
        Some e \<Rightarrow> Some (Inl e)
      | None \<Rightarrow> (case canonicalizeItem E (rd_Values inp) of
          Inl e \<Rightarrow> Some (Inl e)
        | Inr vals \<Rightarrow> (case readTable (rd_TableName inp) (\<lambda>state. rbind (lookupIndex (Table state) (IndexName inp)) (\<lambda>(keys, proj).
              Inr (KeySchema (Table state), keys, proj, collectSortedItems E state keys (readsBackwards inp)))) s of
            None \<Rightarrow> None
          | Some (Inl e) \<Rightarrow> Some (Inl e)
          | Some (Inr (tableKeys, indexKeys, proj, views)) \<Rightarrow>
              let projectedKeys = unionKeySchema tableKeys indexKeys;
                  ctx = \<lparr>ctx_tableKeys = tableKeys, ctx_projectedKeys = projectedKeys, ctx_projection = proj, ctx_values = vals\<rparr>;
                  out = \<lparr>res_Items = (if Select inp = ''COUNT'' then None else Some []), res_Count = 0, ScannedCount = 0, LastEvaluatedKey = None\<rparr>;
                  limit = (if Limit inp = 0 then int (length views) + 1 else Limit inp) in
              (case findExclusiveStart E views projectedKeys (ExclusiveStartKey inp) (readsBackwards inp) of
                 Inl e \<Rightarrow> Some (Inl e)
               | Inr start \<Rightarrow> readLoop E inp query ctx limit (drop start views) 0 out))))"

definition Scan :: "ddb_env \<Rightarrow> ReadInput \<Rightarrow> ddbStore \<Rightarrow> ReadResult ddb_result option" where
  "Scan E inp s =
     (if KeyConditionExpression inp \<noteq> '''' \<or> ScanIndexForward inp \<noteq> None then
        Some (Inl (validationError ''KeyConditionExpression and ScanIndexForward are not valid for Scan''))
      else if (Segment inp = None) \<noteq> (TotalSegments inp = 0) then
        Some (Inl (validationError ''The TotalSegments and Segment parameters must be supplied together''))
      else if (case Segment inp of None \<Rightarrow> False | Some seg \<Rightarrow>
          TotalSegments inp < 1 \<or> TotalSegments inp > 1000000 \<or> seg < 0 \<or> seg \<ge> TotalSegments inp) then
        Some (Inl (validationError ''Segment must be less than TotalSegments, which must be between 1 and 1000000''))
      else readTableRows E inp False s)"

definition Query :: "ddb_env \<Rightarrow> ReadInput \<Rightarrow> ddbStore \<Rightarrow> ReadResult ddb_result option" where
  "Query E inp s =
     (if KeyConditionExpression inp = '''' then
        Some (Inl (validationError ''Either the KeyConditions or KeyConditionExpression parameter must be specified in the request.''))
      else if Segment inp \<noteq> None \<or> TotalSegments inp \<noteq> 0 then
        Some (Inl (validationError ''Segment and TotalSegments are not valid for Query''))
      else readTableRows E inp True s)"

end
