(* ===== verification/DDB_Paging.thy ===== *)
theory DDB_Paging
  imports DDB_Read DDB_Invariant
begin

text \<open>
  Reading a table or an index page after page: the order of the items is total when their keys differ, a page
  starts after the item the last one ended on, and the pages together are one walk over all items.
\<close>

section \<open>The order of items\<close>

text \<open>What decides the order of a key: the number of a number, else the text.\<close>

definition rank :: "cachedOrder \<Rightarrow> cachedOrder" where
  "rank = map (\<lambda>(n, s). if n = None then (None, s) else (n, ''''))"

definition numeric :: "cachedOrder \<Rightarrow> bool list" where
  "numeric = map (\<lambda>(n, s). n \<noteq> None)"

text \<open>The items of an index have keys that differ, and in every place all numbers or no number.\<close>

definition orderable :: "itemView list \<Rightarrow> bool" where
  "orderable views \<longleftrightarrow> distinct (map (rank \<circ> view_order) views) \<and>
     list_all (\<lambda>v. numeric (view_order v) = numeric (view_order (hd views))) views"

lemma comparePart_flip: "comparePart b a = - comparePart a b"
  by (auto simp: comparePart_def cmpOrd_def split: option.splits)

lemma compareKeyOrder_flip: "compareKeyOrder b a = - compareKeyOrder a b"
proof (induction a b rule: compareKeyOrder.induct)
  case (1 x a y b)
  have "comparePart y x = - comparePart x y" by (rule comparePart_flip)
  with 1 show ?case by (simp add: Let_def)
qed simp_all

text \<open>Within one pattern of numbers the comparison is the lexicographic order of ranks.\<close>

lemma comparePart_trans:
  assumes "comparePart x y < 0" and "comparePart y z < 0" and "fst x = None \<longleftrightarrow> fst y = None" and "fst y = None \<longleftrightarrow> fst z = None"
  shows "comparePart x z < 0"
  using assms by (auto simp: comparePart_def cmpOrd_def split: option.splits if_splits)

lemma comparePart_eq:
  assumes "comparePart x y = 0" and "fst x = None \<longleftrightarrow> fst y = None"
  shows "fst y = None \<longleftrightarrow> fst z = None \<Longrightarrow> comparePart x z = comparePart y z"
    and "fst x = None \<longleftrightarrow> fst z = None \<Longrightarrow> comparePart z x = comparePart z y" and "rank [x] = rank [y]"
  using assms by (auto simp: comparePart_def cmpOrd_def rank_def split: option.splits prod.splits if_splits)

lemma numeric_Cons: "numeric (x # a) = numeric c \<longleftrightarrow> (\<exists>y b. c = y # b \<and> (fst x = None \<longleftrightarrow> fst y = None) \<and> numeric a = numeric b)"
  by (cases c) (auto simp: numeric_def split: prod.splits)

lemma compareKeyOrder_zero: "compareKeyOrder a b = 0 \<Longrightarrow> numeric a = numeric b \<Longrightarrow> rank a = rank b"
proof (induction a arbitrary: b)
  case (Cons x a)
  then obtain y b' where b: "b = y # b'" "fst x = None \<longleftrightarrow> fst y = None" "numeric a = numeric b'" by (auto simp: numeric_Cons)
  with Cons.prems(1) have c: "comparePart x y = 0" "compareKeyOrder a b' = 0" by (auto simp: Let_def split: if_splits)
  with Cons.IH b(3) comparePart_eq(3) [OF c(1) b(2)] show ?case by (simp add: b(1) rank_def)
qed (simp add: numeric_def rank_def)

lemma compareKeyOrder_Cons_neg:
  "compareKeyOrder (x # a) (y # b) < 0 \<longleftrightarrow> comparePart x y < 0 \<or> comparePart x y = 0 \<and> compareKeyOrder a b < 0"
  by (auto simp: Let_def)

lemma compareKeyOrder_trans:
  "compareKeyOrder a b < 0 \<Longrightarrow> compareKeyOrder b c < 0 \<Longrightarrow> numeric a = numeric b \<Longrightarrow> numeric b = numeric c \<Longrightarrow> compareKeyOrder a c < 0"
proof (induction a arbitrary: b c)
  case (Cons x a)
  from Cons.prems(3) obtain y b' where b: "b = y # b'" "fst x = None \<longleftrightarrow> fst y = None" "numeric a = numeric b'" by (auto simp: numeric_Cons)
  with Cons.prems(4) obtain z c' where c: "c = z # c'" "fst y = None \<longleftrightarrow> fst z = None" "numeric b' = numeric c'" by (auto simp: numeric_Cons)
  from Cons.prems(1,2) have "comparePart x y < 0 \<or> comparePart x y = 0 \<and> compareKeyOrder a b' < 0"
    "comparePart y z < 0 \<or> comparePart y z = 0 \<and> compareKeyOrder b' c' < 0" unfolding b(1) c(1) compareKeyOrder_Cons_neg .
  then have "comparePart x z < 0 \<or> comparePart x z = 0 \<and> compareKeyOrder a c' < 0"
  proof (elim disjE conjE)
    assume "comparePart x y < 0" "comparePart y z < 0"
    then show ?thesis using comparePart_trans [OF _ _ b(2) c(2)] by blast
  next
    assume "comparePart x y < 0" and z: "comparePart y z = 0"
    then show ?thesis using comparePart_eq(2) [OF z c(2), of x] b(2) c(2) by simp
  next
    assume z: "comparePart x y = 0" and "comparePart y z < 0"
    then show ?thesis using comparePart_eq(1) [OF z b(2) c(2)] by simp
  next
    assume z: "comparePart x y = 0" "compareKeyOrder a b' < 0" "comparePart y z = 0" "compareKeyOrder b' c' < 0"
    then show ?thesis using comparePart_eq(1) [OF z(1) b(2) c(2)] Cons.IH [OF z(2,4) b(3) c(3)] by simp
  qed
  then show ?case unfolding c(1) compareKeyOrder_Cons_neg .
qed simp

section \<open>Sorted items\<close>

text \<open>Views of one pattern whose ranks differ are ordered totally.\<close>

definition alike :: "itemView set \<Rightarrow> bool" where
  "alike V \<longleftrightarrow> (\<forall>v \<in> V. \<forall>w \<in> V. numeric (view_order v) = numeric (view_order w))"

lemma alikeD: "alike V \<Longrightarrow> v \<in> V \<Longrightarrow> w \<in> V \<Longrightarrow> numeric (view_order v) = numeric (view_order w)"
  unfolding alike_def by blast

lemma alike_subset: "alike V \<Longrightarrow> W \<subseteq> V \<Longrightarrow> alike W"
  unfolding alike_def by blast

lemma viewBefore_iff: "viewBefore bwd v w \<longleftrightarrow>
    (if bwd then compareKeyOrder (view_order w) (view_order v) < 0 else compareKeyOrder (view_order v) (view_order w) < 0)"
  using compareKeyOrder_flip [of "view_order w" "view_order v"] by (simp add: viewBefore_def Let_def)

lemma viewBefore_trans:
  assumes "alike V" and "u \<in> V" "v \<in> V" "w \<in> V" and "viewBefore bwd u v" "viewBefore bwd v w"
  shows "viewBefore bwd u w"
proof -
  have n: "numeric (view_order u) = numeric (view_order v)" "numeric (view_order v) = numeric (view_order w)"
    using alikeD [OF assms(1)] assms(2-4) by blast+
  show ?thesis
  proof (cases bwd)
    case True
    with assms(5,6) compareKeyOrder_trans [OF _ _ n(2) [symmetric] n(1) [symmetric]] show ?thesis by (simp add: viewBefore_iff)
  next
    case False
    with assms(5,6) compareKeyOrder_trans [OF _ _ n] show ?thesis by (simp add: viewBefore_iff)
  qed
qed

lemma viewBefore_asym: "viewBefore bwd v w \<Longrightarrow> \<not> viewBefore bwd w v"
  using compareKeyOrder_flip [of "view_order w" "view_order v"] by (simp add: viewBefore_def Let_def split: if_splits)

lemma viewBefore_total:
  assumes "alike V" and "v \<in> V" "w \<in> V" and "rank (view_order v) \<noteq> rank (view_order w)"
  shows "viewBefore bwd v w \<or> viewBefore bwd w v"
proof -
  have "compareKeyOrder (view_order v) (view_order w) \<noteq> 0" using assms(4) compareKeyOrder_zero alikeD [OF assms(1-3)] by blast
  then show ?thesis using compareKeyOrder_flip [of "view_order w" "view_order v"] by (simp add: viewBefore_def Let_def linorder_neq_iff) linarith
qed

lemma sinkView_mset [simp]: "mset (sinkView bwd v ws) = add_mset v (mset ws)"
  by (induction ws) auto

lemma sinkView_set [simp]: "set (sinkView bwd v ws) = insert v (set ws)"
  by (metis set_mset_add_mset_insert set_mset_mset sinkView_mset)

lemma sinkView_sorted:
  assumes "alike (insert v (set ws))" and "\<forall>w \<in> set ws. rank (view_order v) \<noteq> rank (view_order w)" and "sorted_wrt (viewBefore bwd) ws"
  shows "sorted_wrt (viewBefore bwd) (sinkView bwd v ws)"
  using assms
proof (induction ws)
  case (Cons w ws)
  have sub: "alike (insert v (set ws))" by (rule alike_subset [OF Cons.prems(1)]) auto
  show ?case
  proof (cases "viewBefore bwd w v")
    case True
    then show ?thesis using Cons.IH [OF sub] Cons.prems by auto
  next
    case False
    then have vw: "viewBefore bwd v w" using viewBefore_total [OF Cons.prems(1), of v w bwd] Cons.prems(2) by auto
    have "viewBefore bwd v u" if "u \<in> set ws" for u
      using viewBefore_trans [OF Cons.prems(1) _ _ _ vw, of u] Cons.prems(3) that by auto
    with False vw Cons.prems(3) show ?thesis by simp
  qed
qed simp

definition sortViews :: "bool \<Rightarrow> itemView list \<Rightarrow> itemView list" where
  "sortViews bwd vs = foldr (sinkView bwd) vs []"

lemma sortViews_mset [simp]: "mset (sortViews bwd vs) = mset vs"
  by (induction vs) (auto simp: sortViews_def)

lemma sortViews_sorted: "alike (set vs) \<Longrightarrow> distinct (map (rank \<circ> view_order) vs) \<Longrightarrow> sorted_wrt (viewBefore bwd) (sortViews bwd vs)"
proof (induction vs)
  case (Cons v vs)
  have "alike (set vs)" by (rule alike_subset [OF Cons.prems(1)]) auto
  with Cons have sorted: "sorted_wrt (viewBefore bwd) (sortViews bwd vs)" by simp
  have set: "set (sortViews bwd vs) = set vs" by (metis set_mset_mset sortViews_mset)
  have "\<forall>w \<in> set vs. rank (view_order v) \<noteq> rank (view_order w)" using Cons.prems(2) by (auto simp: image_iff)
  with sorted Cons.prems(1) have "sorted_wrt (viewBefore bwd) (sinkView bwd v (sortViews bwd vs))"
    unfolding set [symmetric] by (intro sinkView_sorted) (simp_all add: set)
  then show ?case by (simp add: sortViews_def)
qed (simp add: sortViews_def)

lemma collectSortedItems_sorted:
  assumes "orderable (collectSortedItems E state schema bwd)"
  shows "sorted_wrt (viewBefore bwd) (collectSortedItems E state schema bwd)"
proof -
  let ?vs = "List.map_filter (viewOf E (unionKeySchema (KeySchema (Table state)) schema)) (map snd (Items state))"
  have c: "collectSortedItems E state schema bwd = sortViews bwd ?vs" by (simp add: collectSortedItems_def sortViews_def)
  have m: "mset (collectSortedItems E state schema bwd) = mset ?vs" by (simp add: c)
  then have "set (collectSortedItems E state schema bwd) = set ?vs" by (metis set_mset_mset)
  then have "alike (set ?vs)" using assms by (auto simp: orderable_def alike_def list_all_iff)
  moreover have "distinct (map (rank \<circ> view_order) ?vs)" using assms m by (metis mset_eq_imp_distinct_iff mset_map orderable_def)
  ultimately show ?thesis unfolding c by (rule sortViews_sorted)
qed

section \<open>Where a page starts\<close>

lemma buildKeyMap_canonical:
  assumes "canonicalizeItem E item = Inr item" and "buildKeyMap item schema = Inr key"
  shows "canonicalizeItem E key = Inr key"
  using assms(2)
proof (induction schema arbitrary: key)
  case (Cons part schema)
  then obtain v rest where v: "map_of item (key_AttributeName part) = Some v" "buildKeyMap item schema = Inr rest"
    and key: "key = (key_AttributeName part, v) # rest" by (auto simp: rbind_Inr split: option.splits)
  have "canonicalizeAttr E v = Inr v" using canonicalizeItem_member [OF assms(1) map_of_SomeD [OF v(1)]] .
  with Cons.IH [OF v(2)] show ?case by (simp add: key)
qed simp

text \<open>The views of a table in order, with what is known of each.\<close>

definition viewsOf :: "ddb_env \<Rightarrow> DynamoDBKeySchemaElement list \<Rightarrow> itemView list \<Rightarrow> bool" where
  "viewsOf E schema views \<longleftrightarrow> schema \<noteq> [] \<and> list_all (\<lambda>v. canonicalizeItem E (view_item v) = Inr (view_item v) \<and>
     buildKeyMap (view_item v) schema = Inr (view_key v) \<and> view_order v = keyOrder E (view_key v) schema) views"

lemma takeWhile_sorted_split:
  assumes "sorted_wrt (viewBefore bwd) (pre @ v # suf)"
  shows "takeWhile (\<lambda>u. \<not> viewBefore bwd v u) (pre @ v # suf) = pre @ [v]"
proof -
  have pre: "\<not> viewBefore bwd v u" if "u \<in> set pre" for u
    using assms that viewBefore_asym by (auto simp: sorted_wrt_append)
  have "\<not> viewBefore bwd v v" using viewBefore_asym by blast
  moreover have "takeWhile (\<lambda>u. \<not> viewBefore bwd v u) suf = []"
    using assms by (cases suf) (auto simp: sorted_wrt_append)
  ultimately show ?thesis using pre by (simp add: takeWhile_append2)
qed

lemma findExclusiveStart_next:
  assumes "viewsOf E schema (pre @ v # suf)" and "sorted_wrt (viewBefore bwd) (pre @ v # suf)"
  shows "findExclusiveStart E (pre @ v # suf) schema (view_key v) bwd = Inr (length pre + 1)"
proof -
  let ?views = "pre @ v # suf"
  have v: "canonicalizeItem E (view_item v) = Inr (view_item v)" "buildKeyMap (view_item v) schema = Inr (view_key v)"
    "view_order v = keyOrder E (view_key v) schema" "schema \<noteq> []" using assms(1) by (simp_all add: viewsOf_def)
  then have ne: "view_key v \<noteq> []" by (cases schema) (auto simp: rbind_Inr split: option.splits)
  have canon: "canonicalizeItem E (view_key v) = Inr (view_key v)" by (rule buildKeyMap_canonical [OF v(1,2)])
  have all: "\<not> list_ex (\<lambda>part. map_of (view_key v) (key_AttributeName part) = None) schema"
    using buildKeyMap_lookup [OF v(2)] by (fastforce simp: list_ex_iff)
  have "sorted_wrt (\<lambda>x y. viewBefore bwd v x \<longrightarrow> viewBefore bwd v y) ?views"
  proof -
    have pre: "\<forall>u \<in> set pre. \<not> viewBefore bwd v u"
      using assms(2) viewBefore_asym by (auto simp: sorted_wrt_append)
    have suf: "\<forall>u \<in> set suf. viewBefore bwd v u" using assms(2) by (simp add: sorted_wrt_append)
    have "sorted_wrt (\<lambda>x y. viewBefore bwd v x \<longrightarrow> viewBefore bwd v y) pre" using pre by (induction pre) auto
    moreover have "sorted_wrt (\<lambda>x y. viewBefore bwd v x \<longrightarrow> viewBefore bwd v y) suf" using suf by (induction suf) auto
    ultimately show ?thesis using pre suf by (simp add: sorted_wrt_append)
  qed
  from sortSearch_suffix [OF this] have "sortSearch (length ?views) (\<lambda>i. viewBefore bwd v (?views ! i)) = length pre + 1"
    by (simp add: takeWhile_sorted_split [OF assms(2)])
  moreover have "(let cmp = compareKeyOrder (view_order u) (view_order v) in if bwd then cmp < 0 else cmp > 0) = viewBefore bwd v u" for u
    using compareKeyOrder_flip [of "view_order u" "view_order v"] by (simp add: viewBefore_def Let_def)
  ultimately show ?thesis using canon all ne by (simp add: findExclusiveStart_def Let_def flip: v(3))
qed

section \<open>The pages of a read\<close>

text \<open>The items one walk over all views returns, and the walk without a failure.\<close>

definition stepItems :: "ddb_env \<Rightarrow> ReadInput \<Rightarrow> bool \<Rightarrow> readContext \<Rightarrow> itemView list \<Rightarrow> json_object list" where
  "stepItems E inp query ctx views = List.map_filter (\<lambda>v. case readStep E inp query ctx v of
      Some (Inr (Some (_, item))) \<Rightarrow> item
    | _ \<Rightarrow> None) views"

definition stepsOK :: "ddb_env \<Rightarrow> ReadInput \<Rightarrow> bool \<Rightarrow> readContext \<Rightarrow> itemView list \<Rightarrow> bool" where
  "stepsOK E inp query ctx views \<longleftrightarrow> list_all (\<lambda>v. case readStep E inp query ctx v of Some (Inr _) \<Rightarrow> True | _ \<Rightarrow> False) views"

lemma map_filter_append [simp]: "List.map_filter f (xs @ ys) = List.map_filter f xs @ List.map_filter f ys"
  by (simp add: List.map_filter_def)

lemma stepItems_append [simp]: "stepItems E inp query ctx (xs @ ys) = stepItems E inp query ctx xs @ stepItems E inp query ctx ys"
  by (simp add: stepItems_def)

lemma stepItems_Nil [simp]: "stepItems E inp query ctx [] = []"
  by (simp add: stepItems_def)

lemma readLoop_page:
  assumes "stepsOK E inp query ctx views" and "res_Items out = Some its"
  shows "\<exists>pre suf out'. views = pre @ suf \<and> readLoop E inp query ctx limit views bytes out = Some (Inr out') \<and>
    res_Items out' = Some (its @ stepItems E inp query ctx pre) \<and>
    (if suf = [] then LastEvaluatedKey out' = LastEvaluatedKey out
     else pre \<noteq> [] \<and> LastEvaluatedKey out' = Some (view_key (last pre)))"
  using assms
proof (induction views arbitrary: bytes out its)
  case Nil
  then show ?case by simp
next
  case (Cons view views)
  from Cons.prems(1) have rest: "stepsOK E inp query ctx views" by (simp add: stepsOK_def)
  from Cons.prems(1) obtain r where r: "readStep E inp query ctx view = Some (Inr r)"
    by (auto simp: stepsOK_def split: option.splits sum.splits)
  show ?case
  proof (cases r)
    case None
    from Cons.IH [OF rest Cons.prems(2), of bytes] obtain pre suf out' where "views = pre @ suf"
      "readLoop E inp query ctx limit views bytes out = Some (Inr out')"
      "res_Items out' = Some (its @ stepItems E inp query ctx pre)"
      "if suf = [] then LastEvaluatedKey out' = LastEvaluatedKey out
       else pre \<noteq> [] \<and> LastEvaluatedKey out' = Some (view_key (last pre))" by blast
    with r None show ?thesis
      by (intro exI [of _ "view # pre"] exI [of _ suf] exI [of _ out']) (simp add: stepItems_def List.map_filter_def split: if_splits)
  next
    case (Some p)
    obtain ok item where p: "p = (ok, item)" by fastforce
    define out1 where "out1 = out\<lparr>res_Items := (case item of None \<Rightarrow> res_Items out | Some i \<Rightarrow> map_option (\<lambda>its. its @ [i]) (res_Items out)),
      res_Count := res_Count out + (if ok then 1 else 0), ScannedCount := ScannedCount out + 1\<rparr>"
    have its1: "res_Items out1 = Some (its @ stepItems E inp query ctx [view])"
      using r Some p Cons.prems(2) by (simp add: out1_def stepItems_def List.map_filter_def split: option.splits)
    show ?thesis
    proof (cases "(ScannedCount out1 \<ge> limit \<or> bytes + itemSize (view_item view) \<ge> maxPageBytes) \<and> views \<noteq> []")
      case True
      with r Some p have "readLoop E inp query ctx limit (view # views) bytes out = Some (Inr (out1\<lparr>LastEvaluatedKey := Some (view_key view)\<rparr>))"
        by (simp add: out1_def Let_def)
      with True its1 show ?thesis by (intro exI [of _ "[view]"] exI [of _ views]) simp
    next
      case False
      with r Some p have l: "readLoop E inp query ctx limit (view # views) bytes out =
          readLoop E inp query ctx limit views (bytes + itemSize (view_item view)) out1"
        unfolding readLoop.simps by (simp only: option.case sum.case prod.case Let_def out1_def if_False)
      have last1: "LastEvaluatedKey out1 = LastEvaluatedKey out" by (simp add: out1_def)
      from Cons.IH [OF rest its1, of "bytes + itemSize (view_item view)"] obtain pre suf out' where "views = pre @ suf"
        "readLoop E inp query ctx limit views (bytes + itemSize (view_item view)) out1 = Some (Inr out')"
        "res_Items out' = Some ((its @ stepItems E inp query ctx [view]) @ stepItems E inp query ctx pre)"
        "if suf = [] then LastEvaluatedKey out' = LastEvaluatedKey out
         else pre \<noteq> [] \<and> LastEvaluatedKey out' = Some (view_key (last pre))" unfolding last1 by blast
      with l stepItems_append [of E inp query ctx "[view]" pre] show ?thesis
        by (intro exI [of _ "view # pre"] exI [of _ suf] exI [of _ out']) (simp split: if_splits)
    qed
  qed
qed

text \<open>What a read walks over: its context and the views of the table or index.\<close>

definition readable :: "ddb_env \<Rightarrow> ReadInput \<Rightarrow> ddbStore \<Rightarrow> readContext \<Rightarrow> itemView list \<Rightarrow> bool" where
  "readable E inp s ctx views \<longleftrightarrow> \<not> mu_held s \<and> checkRead inp = None \<and> Select inp \<noteq> ''COUNT'' \<and>
     canonicalizeItem E (rd_Values inp) = Inr (ctx_values ctx) \<and>
     (case getTableLocked s (rd_TableName inp) of
        Inl _ \<Rightarrow> False
      | Inr (_, state) \<Rightarrow> (case lookupIndex (Table state) (IndexName inp) of
            Inl _ \<Rightarrow> False
          | Inr (keys, proj) \<Rightarrow>
              ctx_tableKeys ctx = KeySchema (Table state) \<and> ctx_projectedKeys ctx = unionKeySchema (KeySchema (Table state)) keys \<and>
              ctx_projection ctx = proj \<and> views = collectSortedItems E state keys (readsBackwards inp)))"

lemma readable_cases:
  assumes "readable E inp s ctx views"
  obtains name state keys where "getTableLocked s (rd_TableName inp) = Inr (name, state)"
    and "lookupIndex (Table state) (IndexName inp) = Inr (keys, ctx_projection ctx)"
    and "views = collectSortedItems E state keys (readsBackwards inp)"
    and "ctx_tableKeys ctx = KeySchema (Table state)" and "ctx_projectedKeys ctx = unionKeySchema (KeySchema (Table state)) keys"
proof -
  from assms obtain name state where t: "getTableLocked s (rd_TableName inp) = Inr (name, state)"
    unfolding readable_def by (cases "getTableLocked s (rd_TableName inp)") auto
  with assms obtain keys proj where i: "lookupIndex (Table state) (IndexName inp) = Inr (keys, proj)"
    unfolding readable_def by (cases "lookupIndex (Table state) (IndexName inp)") auto
  with assms t that show thesis unfolding readable_def by simp
qed

text \<open>A client that asks for page after page, for at most \<open>n\<close> pages.\<close>

fun pagesOf :: "nat \<Rightarrow> (ReadInput \<Rightarrow> ReadResult ddb_result option) \<Rightarrow> ReadInput \<Rightarrow> json_object list option" where
  "pagesOf 0 op inp = None"
| "pagesOf (Suc n) op inp = (case op inp of
      Some (Inr page) \<Rightarrow> (case (res_Items page, LastEvaluatedKey page) of
          (Some its, None) \<Rightarrow> Some its
        | (Some its, Some key) \<Rightarrow> map_option ((@) its) (pagesOf n op (inp\<lparr>ExclusiveStartKey := key\<rparr>))
        | _ \<Rightarrow> None)
    | _ \<Rightarrow> None)"

lemma projectView_start [simp]: "projectView (inp\<lparr>ExclusiveStartKey := key\<rparr>) = projectView inp"
  by (simp add: projectView_def fun_eq_iff cong del: if_weak_cong option.case_cong_weak)

lemma readStep_start [simp]: "readStep E (inp\<lparr>ExclusiveStartKey := key\<rparr>) query ctx v = readStep E inp query ctx v"
  unfolding readStep_def projectView_start by (simp cong del: if_weak_cong option.case_cong_weak)

lemma stepItems_start [simp]:
  "stepItems E (inp\<lparr>ExclusiveStartKey := key\<rparr>) query ctx views = stepItems E inp query ctx views"
  "stepsOK E (inp\<lparr>ExclusiveStartKey := key\<rparr>) query ctx views = stepsOK E inp query ctx views"
  by (simp_all add: stepItems_def stepsOK_def)

lemma readsBackwards_start [simp]: "readsBackwards (inp\<lparr>ExclusiveStartKey := key\<rparr>) = readsBackwards inp"
  by (simp add: readsBackwards_def)

lemma readable_start [simp]: "readable E (inp\<lparr>ExclusiveStartKey := key\<rparr>) s ctx views = readable E inp s ctx views"
  by (simp add: readable_def checkRead_def cong del: sum.case_cong_weak if_weak_cong)

lemma readTableRows_page:
  assumes "readable E inp s ctx views"
    and "findExclusiveStart E views (ctx_projectedKeys ctx) (ExclusiveStartKey inp) (readsBackwards inp) = Inr start"
  shows "\<exists>limit out. readTableRows E inp query s = readLoop E inp query ctx limit (drop start views) 0 out \<and>
    res_Items out = Some [] \<and> LastEvaluatedKey out = None"
proof -
  from assms(1) obtain name state keys where t: "getTableLocked s (rd_TableName inp) = Inr (name, state)"
    "lookupIndex (Table state) (IndexName inp) = Inr (keys, ctx_projection ctx)" "views = collectSortedItems E state keys (readsBackwards inp)"
    and k: "ctx_tableKeys ctx = KeySchema (Table state)" and p: "ctx_projectedKeys ctx = unionKeySchema (KeySchema (Table state)) keys"
    by (rule readable_cases)
  have c: "\<lparr>ctx_tableKeys = KeySchema (Table state), ctx_projectedKeys = unionKeySchema (KeySchema (Table state)) keys,
      ctx_projection = ctx_projection ctx, ctx_values = ctx_values ctx\<rparr> = ctx" by (cases ctx) (use k p in simp)
  have read: "readTable (rd_TableName inp) (\<lambda>state. rbind (lookupIndex (Table state) (IndexName inp)) (\<lambda>(keys, proj).
      Inr (KeySchema (Table state), keys, proj, collectSortedItems E state keys (readsBackwards inp)))) s =
      Some (Inr (KeySchema (Table state), keys, ctx_projection ctx, views))"
    using assms(1) t by (simp add: readTable_def readable_def)
  have "readTableRows E inp query s = readLoop E inp query ctx (if Limit inp = 0 then int (length views) + 1 else Limit inp)
      (drop start views) 0 \<lparr>res_Items = Some [], res_Count = 0, ScannedCount = 0, LastEvaluatedKey = None\<rparr>"
    using assms read unfolding p by (simp add: readTableRows_def readable_def Let_def c)
  then show ?thesis by (intro exI conjI) auto
qed

lemma viewOf_Some: "viewOf E schema item = Some v \<longleftrightarrow> (\<exists>key. buildKeyMap item schema = Inr key \<and>
    v = \<lparr>view_item = item, view_key = key, view_order = keyOrder E key schema\<rparr>)"
  by (auto simp: viewOf_def split: sum.splits)

lemma dedupSchema_Nil: "dedupSchema [] xs = [] \<longleftrightarrow> xs = []"
  by (cases xs) auto

lemma readable_views:
  assumes "storeOK E s" and "readable E inp s ctx views"
  shows "viewsOf E (ctx_projectedKeys ctx) views"
proof -
  from assms(2) obtain name state keys where t: "getTableLocked s (rd_TableName inp) = Inr (name, state)"
    "views = collectSortedItems E state keys (readsBackwards inp)" "ctx_projectedKeys ctx = unionKeySchema (KeySchema (Table state)) keys"
    by (rule readable_cases)
  then have ok: "tableOK E state" using storeOK_lookup [OF assms(1)] by (auto simp: getTableLocked_Inr)
  then have "KeySchema (Table state) \<noteq> []" by (auto simp: tableOK_def validateKeySchema_def)
  then have "ctx_projectedKeys ctx \<noteq> []" by (simp add: t(3) unionKeySchema_def dedupSchema_Nil)
  moreover have "canonicalizeItem E (view_item v) = Inr (view_item v) \<and> buildKeyMap (view_item v) (ctx_projectedKeys ctx) = Inr (view_key v) \<and>
      view_order v = keyOrder E (view_key v) (ctx_projectedKeys ctx)" if "v \<in> set views" for v
  proof -
    have "mset views = mset (List.map_filter (viewOf E (ctx_projectedKeys ctx)) (map snd (Items state)))"
      unfolding t(2,3) collectSortedItems_def by (simp flip: sortViews_def)
    then have "set views = set (List.map_filter (viewOf E (ctx_projectedKeys ctx)) (map snd (Items state)))" by (metis set_mset_mset)
    with that obtain keyID item where item: "(keyID, item) \<in> set (Items state)" "viewOf E (ctx_projectedKeys ctx) item = Some v"
      by (auto simp: List.map_filter_def)
    with ok have "canonicalizeItem E item = Inr item" by (auto simp: tableOK_def list_all_iff itemOK_def)
    with item(2) show ?thesis by (auto simp: viewOf_Some)
  qed
  ultimately show ?thesis by (simp add: viewsOf_def list_all_iff)
qed

lemma pagesOf_suffix:
  assumes "storeOK E s" and "readable E inp s ctx views" and "orderable views" and "stepsOK E inp query ctx views"
    and "\<And>i. op (inp\<lparr>ExclusiveStartKey := i\<rparr>) = readTableRows E (inp\<lparr>ExclusiveStartKey := i\<rparr>) query s"
    and "views = pre @ suf" and "ExclusiveStartKey inp' = (if pre = [] then [] else view_key (last pre))"
    and "inp' = inp\<lparr>ExclusiveStartKey := ExclusiveStartKey inp'\<rparr>" and "length suf < n"
  shows "pagesOf n op inp' = Some (stepItems E inp query ctx suf)"
  using assms(6-9)
proof (induction n arbitrary: pre suf inp')
  case (Suc n)
  have sorted: "sorted_wrt (viewBefore (readsBackwards inp)) views"
    by (rule readable_cases [OF assms(2)]) (use assms(3) collectSortedItems_sorted in auto)
  have bwd: "readsBackwards inp' = readsBackwards inp" by (subst Suc.prems(3)) (simp add: readsBackwards_def)
  have r: "readable E inp' s ctx views" using assms(2) by (subst Suc.prems(3)) simp
  have start: "findExclusiveStart E views (ctx_projectedKeys ctx) (ExclusiveStartKey inp') (readsBackwards inp') = Inr (length pre)"
  proof (cases pre rule: rev_cases)
    case Nil
    with Suc.prems(2) show ?thesis by (simp add: findExclusiveStart_def)
  next
    case (snoc pre' v)
    with findExclusiveStart_next [of E "ctx_projectedKeys ctx" pre' v suf "readsBackwards inp"] readable_views [OF assms(1,2)]
      sorted Suc.prems(1,2) bwd show ?thesis by simp
  qed
  from readTableRows_page [OF r start, of query] Suc.prems(1) obtain limit out where
    rows: "readTableRows E inp' query s = readLoop E inp' query ctx limit suf 0 out"
    and out: "res_Items out = Some []" "LastEvaluatedKey out = None" by auto
  have "stepsOK E inp' query ctx suf" using assms(4) Suc.prems(1) by (subst Suc.prems(3)) (simp add: stepsOK_def)
  from readLoop_page [OF this out(1), of limit 0] obtain page rest out' where split: "suf = page @ rest"
    and loop: "readLoop E inp' query ctx limit suf 0 out = Some (Inr out')"
    and its: "res_Items out' = Some (stepItems E inp' query ctx page)"
    and lek: "if rest = [] then LastEvaluatedKey out' = None else page \<noteq> [] \<and> LastEvaluatedKey out' = Some (view_key (last page))"
    using out(2) by auto
  have op: "op inp' = Some (Inr out')" using assms(5) [of "ExclusiveStartKey inp'"] rows loop Suc.prems(3) by metis
  have same: "stepItems E inp' query ctx vs = stepItems E inp query ctx vs" for vs by (subst Suc.prems(3)) simp
  show ?case
  proof (cases "rest = []")
    case True
    with op its lek split same show ?thesis by simp
  next
    case False
    with lek have page: "page \<noteq> []" "LastEvaluatedKey out' = Some (view_key (last page))" by auto
    let ?next = "inp'\<lparr>ExclusiveStartKey := view_key (last page)\<rparr>"
    have nxt: "?next = inp\<lparr>ExclusiveStartKey := ExclusiveStartKey ?next\<rparr>" by (subst Suc.prems(3)) simp
    have "length rest < n" using Suc.prems(4) split page(1) by (cases page) auto
    with Suc.IH [of "pre @ page" rest ?next] nxt page(1) Suc.prems(1) split
    have "pagesOf n op ?next = Some (stepItems E inp query ctx rest)" by simp
    with op its page(2) split same show ?thesis by simp
  qed
qed simp

text \<open>C12: A Query with pages of any size, each asked for with the last key of the page before, returns the matching
  items of the table or index once each and in order, within as many pages as there are items and one more.\<close>

theorem query_pages_complete:
  assumes "storeOK E s" and "KeyConditionExpression inp \<noteq> ''''" and "Segment inp = None" and "TotalSegments inp = 0"
    and "ExclusiveStartKey inp = []" and "readable E inp s ctx views" and "orderable views" and "stepsOK E inp True ctx views"
    and "length views < n"
  shows "pagesOf n (\<lambda>i. Query E i s) inp = Some (stepItems E inp True ctx views)"
proof (rule pagesOf_suffix [OF assms(1,6-8), where pre = "[]" and suf = views])
  show "Query E (inp\<lparr>ExclusiveStartKey := i\<rparr>) s = readTableRows E (inp\<lparr>ExclusiveStartKey := i\<rparr>) True s" for i
    using assms(2-4) by (simp add: Query_def)
  show "inp = inp\<lparr>ExclusiveStartKey := ExclusiveStartKey inp\<rparr>" by simp
qed (use assms(5,9) in simp_all)

section \<open>Parallel scans\<close>

abbreviation segment :: "nat \<Rightarrow> nat \<Rightarrow> ReadInput \<Rightarrow> ReadInput" where
  "segment k total_segments inp \<equiv> inp\<lparr>Segment := Some (int k), TotalSegments := int total_segments\<rparr>"

lemma segmentOf_range:
  assumes "1 \<le> N" and "N \<le> 1000000"
  shows "0 \<le> segmentOf E key schema (int N)" and "segmentOf E key schema (int N) < int N"
proof -
  have "uint (of_int (int N) :: 32 word) = int N" using assms by (simp add: uint_nat unat_of_nat)
  then show "0 \<le> segmentOf E key schema (int N)" "segmentOf E key schema (int N) < int N"
    using assms by (simp_all add: segmentOf_def uint_mod_distrib)
qed

lemma projectView_segment [simp]: "projectView (segment k N inp) = projectView inp"
  by (simp add: projectView_def fun_eq_iff cong del: if_weak_cong option.case_cong_weak)

lemma readStep_segment:
  "Segment inp = None \<Longrightarrow> readStep E (segment k N inp) False ctx v =
     (if segmentOf E (view_key v) (ctx_tableKeys ctx) (int N) = int k then readStep E inp False ctx v else Some (Inr None))"
  unfolding readStep_def projectView_segment by (simp cong del: if_weak_cong option.case_cong_weak)

lemma stepItems_segment:
  "Segment inp = None \<Longrightarrow> stepItems E (segment k N inp) False ctx views =
     stepItems E inp False ctx (filter (\<lambda>v. segmentOf E (view_key v) (ctx_tableKeys ctx) (int N) = int k) views)"
  by (induction views) (simp_all add: stepItems_def List.map_filter_def readStep_segment)

lemma stepsOK_segment: "Segment inp = None \<Longrightarrow> stepsOK E inp False ctx views \<Longrightarrow> stepsOK E (segment k N inp) False ctx views"
  by (simp add: stepsOK_def list_all_iff readStep_segment)

lemma segments_partition:
  assumes "1 \<le> N" and "N \<le> 1000000" and "Segment inp = None"
  shows "(\<Sum>k<N. mset (stepItems E (segment k N inp) False ctx views)) = mset (stepItems E inp False ctx views)"
proof (induction views)
  case (Cons v views)
  obtain j where j: "segmentOf E (view_key v) (ctx_tableKeys ctx) (int N) = int j" "j < N"
    using segmentOf_range [OF assms(1,2)] by (metis nonneg_int_cases of_nat_less_iff)
  have one: "stepItems E (segment k N inp) False ctx [v] = (if j = k then stepItems E inp False ctx [v] else [])" for k
    using j(1) by (simp add: stepItems_segment assms(3))
  have split: "stepItems E i False ctx (v # views) = stepItems E i False ctx [v] @ stepItems E i False ctx views" for i
    using stepItems_append [of E i False ctx "[v]" views] by simp
  have here: "(\<Sum>k<N. if j = k then mset (stepItems E inp False ctx [v]) else {#}) = mset (stepItems E inp False ctx [v])"
    using j(2) by (simp add: sum.delta)
  have "mset (stepItems E (segment k N inp) False ctx (v # views)) =
      (if j = k then mset (stepItems E inp False ctx [v]) else {#}) + mset (stepItems E (segment k N inp) False ctx views)" for k
    using one [of k] by (simp add: split [of "segment k N inp"])
  then have "(\<Sum>k<N. mset (stepItems E (segment k N inp) False ctx (v # views))) =
      mset (stepItems E inp False ctx [v]) + mset (stepItems E inp False ctx views)"
    by (simp only: sum.distrib here Cons.IH)
  then show ?case by (simp add: split [of inp])
qed simp

lemma readable_segment: "readable E (segment k N inp) s ctx views = readable E inp s ctx views"
  by (simp add: readable_def checkRead_def readsBackwards_def cong del: sum.case_cong_weak if_weak_cong)

text \<open>C13: A parallel scan reads every item of the table or index exactly once: each worker reads its segment page
  after page, with pages of any size, and the items of all segments together are those of one walk.\<close>

theorem parallel_scan_complete:
  assumes "storeOK E s" and "KeyConditionExpression inp = ''''" and "ScanIndexForward inp = None" and "Segment inp = None"
    and "ExclusiveStartKey inp = []" and "readable E inp s ctx views" and "orderable views" and "stepsOK E inp False ctx views"
    and "length views < n" and "1 \<le> N" and "N \<le> 1000000"
  shows "\<exists>parts. map (\<lambda>k. pagesOf n (\<lambda>i. Scan E i s) (segment k N inp)) [0..<N] = map Some parts \<and>
    mset (concat parts) = mset (stepItems E inp False ctx views)"
proof (intro exI conjI)
  let ?part = "\<lambda>k. stepItems E (segment k N inp) False ctx views"
  have "pagesOf n (\<lambda>i. Scan E i s) (segment k N inp) = Some (?part k)" if "k < N" for k
  proof (rule pagesOf_suffix [where inp = "segment k N inp" and pre = "[]" and suf = views])
    show "Scan E (segment k N inp\<lparr>ExclusiveStartKey := i\<rparr>) s = readTableRows E (segment k N inp\<lparr>ExclusiveStartKey := i\<rparr>) False s" for i
      using assms(2,3,10,11) that by (simp add: Scan_def)
    show "readable E (segment k N inp) s ctx views" using assms(6) by (simp only: readable_segment)
    show "stepsOK E (segment k N inp) False ctx views" using assms(4,8) by (rule stepsOK_segment)
    show "segment k N inp = segment k N inp\<lparr>ExclusiveStartKey := ExclusiveStartKey (segment k N inp)\<rparr>" by simp
  qed (use assms in simp_all)
  then show "map (\<lambda>k. pagesOf n (\<lambda>i. Scan E i s) (segment k N inp)) [0..<N] = map Some (map ?part [0..<N])" by simp
  have "mset (concat (map ?part [0..<N])) = (\<Sum>k<N. mset (?part k))"
    by (simp add: mset_concat interv_sum_list_conv_sum_set_nat comp_def atLeast0LessThan)
  then show "mset (concat (map ?part [0..<N])) = mset (stepItems E inp False ctx views)"
    by (simp only: segments_partition [OF assms(10,11,4)])
qed

section \<open>An example\<close>

definition demoRow :: "string \<Rightarrow> json_object" where
  "demoRow x = [(''id'', strAttr x), (''v'', strAttr ''x'')]"

definition demoRows :: ddbStore where
  "demoRows = demoStore\<lparr>tables := [(''t'', demoState\<lparr>Stream := None, Table := demoTable\<lparr>ItemCount := 3\<rparr>,
     Items := [(''id=S:b'', demoRow ''b''), (''id=S:a'', demoRow ''a''), (''id=S:c'', demoRow ''c'')]\<rparr>)]\<rparr>"

definition demoRead :: ReadInput where
  "demoRead = \<lparr>rd_TableName = ''t'', IndexName = '''', KeyConditionExpression = '''', FilterExpression = '''', rd_ProjectionExpression = '''',
     rd_Names = [], rd_Values = [], Limit = 1, ExclusiveStartKey = [], ScanIndexForward = None, Select = '''', Segment = None, TotalSegments = 0\<rparr>"

definition demoContext :: readContext where
  "demoContext = \<lparr>ctx_tableKeys = KeySchema demoTable, ctx_projectedKeys = KeySchema demoTable, ctx_projection = None, ctx_values = []\<rparr>"

definition demoViews :: "itemView list" where
  "demoViews = map (\<lambda>x. \<lparr>view_item = demoRow x, view_key = [(''id'', strAttr x)], view_order = [(None, x)]\<rparr>) [''a'', ''b'', ''c'']"

lemma demoRows_ok: "storeOK demoEnv demoRows"
proof -
  have "list_all (\<lambda>x. itemOK demoEnv (demoTable\<lparr>ItemCount := 3\<rparr>) (''id=S:'' @ [x]) (demoRow [x])) ''abc''" by code_simp
  moreover have "validateKeySchema (KeySchema demoTable) (attributeTypeMap (AttributeDefinitions demoTable)) = None" "TableName demoTable = ''t''"
    by code_simp+
  ultimately show ?thesis by (simp add: storeOK_def tableOK_def demoRows_def demoState_def demoStore_def)
qed

theorem parallel_scan_complete_witness:
  "\<exists>parts. map (\<lambda>k. pagesOf 4 (\<lambda>i. Scan demoEnv i demoRows) (segment k 2 demoRead)) [0..<2] = map Some parts \<and>
    mset (concat parts) = mset (map demoRow [''a'', ''b'', ''c''])"
proof -
  have "stepItems demoEnv demoRead False demoContext demoViews = map demoRow [''a'', ''b'', ''c'']" by code_simp
  moreover note demoRows_ok
  moreover have "KeyConditionExpression demoRead = ''''" "ScanIndexForward demoRead = None" "Segment demoRead = None"
    "ExclusiveStartKey demoRead = []" by (simp_all add: demoRead_def)
  moreover have "readable demoEnv demoRead demoRows demoContext demoViews" by code_simp
  moreover have "orderable demoViews" "stepsOK demoEnv demoRead False demoContext demoViews" "length demoViews < 4" by code_simp+
  ultimately show ?thesis using parallel_scan_complete [of demoEnv demoRows demoRead demoContext demoViews 4 2] by simp
qed

definition demoQuery :: ReadInput where
  "demoQuery = demoRead\<lparr>KeyConditionExpression := ''id = :v'', rd_Values := [('':v'', strAttr ''b'')]\<rparr>"

definition demoQueryContext :: readContext where
  "demoQueryContext = demoContext\<lparr>ctx_values := [('':v'', strAttr ''b'')]\<rparr>"

lemma demoQuery_tokens: "tokenizeExpression ''id = :v'' =
    Some [\<lparr>tok_kind = ''word'', tok_text = ''id''\<rparr>, \<lparr>tok_kind = ''op'', tok_text = ''=''\<rparr>, \<lparr>tok_kind = ''word'', tok_text = '':v''\<rparr>]"
proof -
  have "wordToken ''id'' = \<lparr>tok_kind = ''word'', tok_text = ''id''\<rparr>" "wordToken '':v'' = \<lparr>tok_kind = ''word'', tok_text = '':v''\<rparr>"
    by code_simp+
  then show ?thesis by (simp add: tokenizeExpression.simps isBlank_def isExprChar_def)
qed

lemma demoQuery_parsed:
  "parseExpression [\<lparr>tok_kind = ''word'', tok_text = ''id''\<rparr>, \<lparr>tok_kind = ''op'', tok_text = ''=''\<rparr>, \<lparr>tok_kind = ''word'', tok_text = '':v''\<rparr>] =
     Inr (CompareNode ''='' (OperandNode ''id'' False) (OperandNode '':v'' True), [])"
  by code_simp

lemma demoQuery_condition:
  "x \<in> {''a'', ''b'', ''c''} \<Longrightarrow>
     evaluateConditionExpression demoEnv ''id = :v'' (demoRow x) [] [('':v'', strAttr ''b'')] = Some (Inr (x = ''b''))"
proof -
  have "trimSpace ''id = :v'' \<noteq> ''''" by code_simp
  moreover assume "x \<in> {''a'', ''b'', ''c''}"
  moreover have "evalNode demoEnv (demoRow x) [] [('':v'', strAttr ''b'')] (CompareNode ''='' (OperandNode ''id'' False) (OperandNode '':v'' True)) =
      Inr (JBool (x = ''b''), True)" if "x \<in> set [''a'', ''b'', ''c'']"
  proof -
    have "list_all (\<lambda>x. evalNode demoEnv (demoRow x) [] [('':v'', strAttr ''b'')] (CompareNode ''='' (OperandNode ''id'' False) (OperandNode '':v'' True)) =
      Inr (JBool (x = ''b''), True)) [''a'', ''b'', ''c'']" by code_simp
    then show ?thesis using that by (simp only: list_all_iff)
  qed
  ultimately show ?thesis by (simp add: evaluateConditionExpression_def demoQuery_tokens demoQuery_parsed asBool_def)
qed

lemma demoQuery_steps: "x \<in> {''a'', ''b'', ''c''} \<Longrightarrow>
    readStep demoEnv demoQuery True demoQueryContext \<lparr>view_item = demoRow x, view_key = k, view_order = r\<rparr> =
      Some (Inr (if x = ''b'' then Some (True, Some (demoRow x)) else None))"
  using demoQuery_condition [of x]
  by (simp add: readStep_def demoQuery_def demoRead_def demoQueryContext_def demoContext_def projectView_def evaluateConditionExpression_def [of _ "''''"] trimSpace_def)

theorem query_pages_complete_witness:
  "pagesOf 4 (\<lambda>i. Query demoEnv i demoRows) demoQuery = Some [demoRow ''b'']"
proof -
  have "stepItems demoEnv demoQuery True demoQueryContext demoViews = [demoRow ''b'']"
    by (simp add: stepItems_def demoViews_def List.map_filter_def demoQuery_steps)
  moreover note demoRows_ok
  moreover have "KeyConditionExpression demoQuery \<noteq> ''''" "Segment demoQuery = None" "TotalSegments demoQuery = 0" "ExclusiveStartKey demoQuery = []"
    by (simp_all add: demoRead_def demoQuery_def)
  moreover have "readable demoEnv demoQuery demoRows demoQueryContext demoViews" by code_simp
  moreover have "orderable demoViews" "length demoViews < 4" by code_simp+
  moreover have "stepsOK demoEnv demoQuery True demoQueryContext demoViews" by (simp add: stepsOK_def demoViews_def demoQuery_steps)
  ultimately show ?thesis using query_pages_complete [of demoEnv demoRows demoQuery demoQueryContext demoViews 4] by simp
qed

end
