(* ===== verification/SNS_Store.thy ===== *)
theory SNS_Store
  imports Tarn_Json Tarn_Interfaces "HOL-Library.List_Lexorder" "HOL-Library.Char_ord"
begin

text \<open>
  The topics and subscriptions of SNS (\<open>internal/sns/store.go\<close>, \<open>pkg/types/sns.go\<close>). Each operation gives
  the result of the code and the store after it. The clock, in seconds, is an argument; the UUID package is a
  field of \<open>sns_env\<close>, and so is the encoder \<open>json.Marshal\<close>. Maps are association lists walked in their
  order where the order of Go's walk is random. Copies share nothing, so a copy is its value.
\<close>

section \<open>Data\<close>

record SNSTopic =
  topic_Arn :: string
  topic_Name :: string
  topic_DisplayName :: string
  topic_Owner :: string
  topic_Policy :: string
  topic_DeliveryPolicy :: string
  topic_EffectiveDeliveryPolicy :: string
  topic_KmsMasterKeyId :: string
  topic_Fifo :: bool
  topic_ContentDedup :: bool
  topic_Attributes :: "string go_map"
  topic_Tags :: "string go_map"
  topic_Created :: int
  topic_Modified :: int

record SNSSubscription =
  sub_Arn :: string
  sub_TopicArn :: string
  sub_Protocol :: string
  sub_Endpoint :: string
  sub_Owner :: string
  sub_Raw :: bool
  sub_FilterPolicy :: string
  sub_FilterScope :: string
  sub_DeliveryPolicy :: string
  sub_RedrivePolicy :: string
  sub_Pending :: bool
  sub_Created :: int
  sub_Modified :: int

record snsStore =
  topics :: "SNSTopic go_map"
  topicByName :: "string go_map"
  subscriptions :: "SNSSubscription go_map"
  sns_dirty :: bool
  sns_uuids :: nat

record sns_env =
  sns_uuid :: "nat \<Rightarrow> string"
  sns_Region :: string
  sns_Account :: string
  sns_marshal :: "json \<Rightarrow> string option"

datatype sns_error =
    Required string
  | FifoTopicName
  | TopicNotFound string
  | SubscriptionNotFound string
  | UnsupportedSubscriptionAttribute string
  | InvalidEndpoint string

type_synonym 'a sns_result = "(sns_error + 'a) \<times> snsStore"

definition newSnsStore :: snsStore where
  "newSnsStore = \<lparr>topics = [], topicByName = [], subscriptions = [], sns_dirty = False, sns_uuids = 0\<rparr>"

section \<open>Names and values\<close>

definition parseBool :: "string \<Rightarrow> bool" where
  "parseBool s = (let v = trimSpace (toLower s) in v = ''1'' \<or> v = ''true'' \<or> v = ''yes'')"

definition boolToString :: "bool \<Rightarrow> string" where
  "boolToString v = (if v then ''true'' else ''false'')"

definition topicARN :: "sns_env \<Rightarrow> string \<Rightarrow> string" where
  "topicARN E name = ''arn:aws:sns:'' @ sns_Region E @ '':'' @ sns_Account E @ '':'' @ name"

definition topicNameFromARN :: "string \<Rightarrow> string" where
  "topicNameFromARN arn = (let parts = splitOn CHR '':'' arn in if parts = [] then arn else last parts)"

definition subscriptionARN :: "sns_env \<Rightarrow> nat \<Rightarrow> string \<Rightarrow> string" where
  "subscriptionARN E n arn =
     ''arn:aws:sns:'' @ sns_Region E @ '':'' @ sns_Account E @ '':'' @ topicNameFromARN arn @ '':'' @ sns_uuid E n"

definition managedAttributes :: "string list" where
  "managedAttributes = [''TopicArn'', ''Owner'', ''DisplayName'', ''Policy'', ''DeliveryPolicy'', ''EffectiveDeliveryPolicy'',
     ''KmsMasterKeyId'', ''FifoTopic'', ''ContentBasedDeduplication'', ''SubscriptionsConfirmed'', ''SubscriptionsPending'',
     ''SubscriptionsDeleted'']"

definition isManagedTopicAttribute :: "string \<Rightarrow> bool" where
  "isManagedTopicAttribute name \<longleftrightarrow> trimSpace name \<in> set managedAttributes"

definition strAt :: "string go_map \<Rightarrow> string \<Rightarrow> string" where
  "strAt m k = (case map_of m k of None \<Rightarrow> '''' | Some v \<Rightarrow> v)"

definition defaultTopicPolicy :: "sns_env \<Rightarrow> string \<Rightarrow> string" where
  "defaultTopicPolicy E arn =
     (let accountID = (if trimSpace (sns_Account E) \<noteq> '''' then sns_Account E else ''000000000000'');
          doc = JObj [(''Version'', JStr ''2008-10-17''), (''Id'', JStr ''__default_policy_ID''), (''Statement'', JArr [JObj [
            (''Sid'', JStr ''__default_statement_ID''), (''Effect'', JStr ''Allow''), (''Principal'', JObj [(''AWS'', JStr ''*'')]),
            (''Action'', JArr (map JStr [''SNS:Publish'', ''SNS:Subscribe'', ''SNS:SetTopicAttributes'', ''SNS:RemovePermission'',
               ''SNS:Receive'', ''SNS:DeleteTopic'', ''SNS:AddPermission'', ''SNS:GetTopicAttributes'', ''SNS:ListSubscriptionsByTopic''])),
            (''Resource'', JStr arn), (''Condition'', JObj [(''StringEquals'', JObj [(''AWS:SourceOwner'', JStr accountID)])])]])] in
      case sns_marshal E doc of None \<Rightarrow> ''{}'' | Some text \<Rightarrow> text)"

section \<open>Topics\<close>

definition newTopic :: "sns_env \<Rightarrow> int \<Rightarrow> string \<Rightarrow> bool \<Rightarrow> string go_map \<Rightarrow> string go_map \<Rightarrow> SNSTopic" where
  "newTopic E now name fifo attrs tags =
     \<lparr>topic_Arn = topicARN E name, topic_Name = name, topic_DisplayName = strAt attrs ''DisplayName'', topic_Owner = sns_Account E,
      topic_Policy = strAt attrs ''Policy'', topic_DeliveryPolicy = strAt attrs ''DeliveryPolicy'',
      topic_EffectiveDeliveryPolicy = strAt attrs ''EffectiveDeliveryPolicy'', topic_KmsMasterKeyId = strAt attrs ''KmsMasterKeyId'',
      topic_Fifo = fifo, topic_ContentDedup = parseBool (strAt attrs ''ContentBasedDeduplication''),
      topic_Attributes = filter (\<lambda>(key, _). \<not> isManagedTopicAttribute key) attrs, topic_Tags = tags,
      topic_Created = now, topic_Modified = now\<rparr>"

definition CreateTopic :: "sns_env \<Rightarrow> int \<Rightarrow> string \<Rightarrow> string go_map \<Rightarrow> string go_map \<Rightarrow> snsStore \<Rightarrow> SNSTopic option sns_result" where
  "CreateTopic E now rawName attrs tags s =
     (let name = trimSpace rawName; fifo = hasSuffix name ''.fifo'' \<or> parseBool (strAt attrs ''FifoTopic'') in
      if name = '''' then (Inl (Required ''TopicName''), s)
      else if fifo \<and> \<not> hasSuffix name ''.fifo'' then (Inl FifoTopicName, s)
      else (case map_of (topicByName s) name of
          Some arn \<Rightarrow> (Inr (map_of (topics s) arn), s)
        | None \<Rightarrow>
            let topic = newTopic E now name fifo attrs tags; arn = topicARN E name in
            (Inr (Some topic), s\<lparr>topics := AList.update arn topic (topics s), topicByName := AList.update name arn (topicByName s),
               sns_dirty := True\<rparr>)))"

definition DeleteTopic :: "string \<Rightarrow> snsStore \<Rightarrow> unit sns_result" where
  "DeleteTopic rawArn s =
     (let arn = trimSpace rawArn in
      if arn = '''' then (Inl (Required ''TopicArn''), s)
      else (case map_of (topics s) arn of
          None \<Rightarrow> (Inl (TopicNotFound arn), s)
        | Some topic \<Rightarrow>
            (Inr (), s\<lparr>topics := AList.delete arn (topics s), topicByName := AList.delete (topic_Name topic) (topicByName s),
               subscriptions := filter (\<lambda>(_, sub). sub_TopicArn sub \<noteq> arn) (subscriptions s), sns_dirty := True\<rparr>)))"

definition GetTopic :: "string \<Rightarrow> snsStore \<Rightarrow> sns_error + SNSTopic" where
  "GetTopic arn s = (case map_of (topics s) (trimSpace arn) of None \<Rightarrow> Inl (TopicNotFound arn) | Some topic \<Rightarrow> Inr topic)"

definition GetTopicByName :: "string \<Rightarrow> snsStore \<Rightarrow> sns_error + SNSTopic option" where
  "GetTopicByName name s = (case map_of (topicByName s) (trimSpace name) of
      None \<Rightarrow> Inl (TopicNotFound name)
    | Some arn \<Rightarrow> Inr (map_of (topics s) arn))"

definition ListTopics :: "snsStore \<Rightarrow> SNSTopic list" where
  "ListTopics s = sort_key topic_Name (map snd (topics s))"

text \<open>The confirmed and the pending subscriptions of a topic; none is counted as deleted.\<close>

definition subscriptionCountsLocked :: "string \<Rightarrow> snsStore \<Rightarrow> nat \<times> nat \<times> nat" where
  "subscriptionCountsLocked arn s =
     (let subs = filter (\<lambda>sub. sub_TopicArn sub = arn) (map snd (subscriptions s)) in
      (length (filter (\<lambda>sub. \<not> sub_Pending sub) subs), length (filter sub_Pending subs), 0))"

definition topicAttributes :: "sns_env \<Rightarrow> SNSTopic \<Rightarrow> snsStore \<Rightarrow> string go_map" where
  "topicAttributes E topic s =
     (let (confirmed, pending, deleted) = subscriptionCountsLocked (topic_Arn topic) s; policy = trimSpace (topic_Policy topic) in
      [(''TopicArn'', topic_Arn topic), (''Owner'', topic_Owner topic), (''DisplayName'', topic_DisplayName topic),
       (''Policy'', if policy = '''' then defaultTopicPolicy E (topic_Arn topic) else policy),
       (''DeliveryPolicy'', topic_DeliveryPolicy topic), (''EffectiveDeliveryPolicy'', topic_EffectiveDeliveryPolicy topic),
       (''KmsMasterKeyId'', topic_KmsMasterKeyId topic), (''FifoTopic'', boolToString (topic_Fifo topic)),
       (''ContentBasedDeduplication'', boolToString (topic_ContentDedup topic)),
       (''SubscriptionsConfirmed'', itoa (int confirmed)), (''SubscriptionsPending'', itoa (int pending)),
       (''SubscriptionsDeleted'', itoa (int deleted))])"

definition GetTopicAttributes :: "sns_env \<Rightarrow> string \<Rightarrow> snsStore \<Rightarrow> sns_error + string go_map" where
  "GetTopicAttributes E arn s = (case map_of (topics s) (trimSpace arn) of
      None \<Rightarrow> Inl (TopicNotFound arn)
    | Some topic \<Rightarrow> Inr (fold (\<lambda>(key, v) m. AList.update key v m) (topic_Attributes topic) (topicAttributes E topic s)))"

text \<open>A change of a topic, which stamps it.\<close>

definition changeTopic :: "int \<Rightarrow> string \<Rightarrow> (SNSTopic \<Rightarrow> sns_error + SNSTopic) \<Rightarrow> snsStore \<Rightarrow> unit sns_result" where
  "changeTopic now arn f s = (case map_of (topics s) (trimSpace arn) of
      None \<Rightarrow> (Inl (TopicNotFound arn), s)
    | Some topic \<Rightarrow> (case f topic of
          Inl e \<Rightarrow> (Inl e, s)
        | Inr topic' \<Rightarrow> (Inr (), s\<lparr>topics := AList.update (trimSpace arn) (topic'\<lparr>topic_Modified := now\<rparr>) (topics s), sns_dirty := True\<rparr>)))"

definition setAttribute :: "string \<Rightarrow> string \<Rightarrow> SNSTopic \<Rightarrow> sns_error + SNSTopic" where
  "setAttribute name v topic =
     (if name = ''DisplayName'' then Inr (topic\<lparr>topic_DisplayName := v\<rparr>)
      else if name = ''Policy'' then Inr (topic\<lparr>topic_Policy := v\<rparr>)
      else if name = ''DeliveryPolicy'' then Inr (topic\<lparr>topic_DeliveryPolicy := v\<rparr>)
      else if name = ''EffectiveDeliveryPolicy'' then Inr (topic\<lparr>topic_EffectiveDeliveryPolicy := v\<rparr>)
      else if name = ''KmsMasterKeyId'' then Inr (topic\<lparr>topic_KmsMasterKeyId := v\<rparr>)
      else if name = ''ContentBasedDeduplication'' then Inr (topic\<lparr>topic_ContentDedup := parseBool v\<rparr>)
      else if name = ''FifoTopic'' then
        (if parseBool v \<and> \<not> hasSuffix (topic_Name topic) ''.fifo'' then Inl FifoTopicName
         else Inr (topic\<lparr>topic_Fifo := parseBool v\<rparr>))
      else Inr (topic\<lparr>topic_Attributes := AList.update name v (topic_Attributes topic)\<rparr>))"

definition SetTopicAttribute :: "int \<Rightarrow> string \<Rightarrow> string \<Rightarrow> string \<Rightarrow> snsStore \<Rightarrow> unit sns_result" where
  "SetTopicAttribute now arn rawName v s =
     (let name = trimSpace rawName in
      if name = '''' then (Inl (Required ''AttributeName''), s) else changeTopic now arn (setAttribute name v) s)"

definition TagTopic :: "int \<Rightarrow> string \<Rightarrow> string go_map \<Rightarrow> snsStore \<Rightarrow> unit sns_result" where
  "TagTopic now arn tags =
     changeTopic now arn (\<lambda>topic. Inr (topic\<lparr>topic_Tags := fold (\<lambda>(k, v) m. AList.update k v m) tags (topic_Tags topic)\<rparr>))"

definition UntagTopic :: "int \<Rightarrow> string \<Rightarrow> string list \<Rightarrow> snsStore \<Rightarrow> unit sns_result" where
  "UntagTopic now arn ks = changeTopic now arn (\<lambda>topic. Inr (topic\<lparr>topic_Tags := fold AList.delete ks (topic_Tags topic)\<rparr>))"

definition ListTopicTags :: "string \<Rightarrow> snsStore \<Rightarrow> sns_error + string go_map" where
  "ListTopicTags arn s = (case map_of (topics s) (trimSpace arn) of
      None \<Rightarrow> Inl (TopicNotFound arn)
    | Some topic \<Rightarrow> Inr (topic_Tags topic))"

section \<open>Subscriptions\<close>

definition withAttr :: "string go_map \<Rightarrow> string \<Rightarrow> (string \<Rightarrow> SNSSubscription \<Rightarrow> SNSSubscription) \<Rightarrow> SNSSubscription \<Rightarrow> SNSSubscription" where
  "withAttr attrs key f sub = (case map_of attrs key of None \<Rightarrow> sub | Some v \<Rightarrow> f v sub)"

text \<open>\<open>None\<close> stands for a nil map, which changes nothing, not even the time stamp.\<close>

definition applySubscriptionAttributesLocked :: "int \<Rightarrow> string go_map option \<Rightarrow> SNSSubscription \<Rightarrow> SNSSubscription" where
  "applySubscriptionAttributesLocked now attrs sub = (case attrs of
      None \<Rightarrow> sub
    | Some m \<Rightarrow>
        let s1 = withAttr m ''RawMessageDelivery'' (\<lambda>v sub. sub\<lparr>sub_Raw := parseBool v\<rparr>) sub;
            s2 = withAttr m ''FilterPolicy'' (\<lambda>v sub. sub\<lparr>sub_FilterPolicy := v\<rparr>) s1;
            s3 = withAttr m ''FilterPolicyScope''
              (\<lambda>v sub. sub\<lparr>sub_FilterScope := (if trimSpace v = '''' then ''MessageAttributes'' else v)\<rparr>) s2;
            s4 = withAttr m ''DeliveryPolicy'' (\<lambda>v sub. sub\<lparr>sub_DeliveryPolicy := v\<rparr>) s3;
            s5 = withAttr m ''RedrivePolicy'' (\<lambda>v sub. sub\<lparr>sub_RedrivePolicy := v\<rparr>) s4 in
        s5\<lparr>sub_Modified := now\<rparr>)"

definition newSubscription :: "sns_env \<Rightarrow> int \<Rightarrow> nat \<Rightarrow> string \<Rightarrow> string \<Rightarrow> string \<Rightarrow> SNSSubscription" where
  "newSubscription E now n arn protocol endpoint =
     \<lparr>sub_Arn = subscriptionARN E n arn, sub_TopicArn = arn, sub_Protocol = protocol, sub_Endpoint = endpoint,
      sub_Owner = sns_Account E, sub_Raw = False, sub_FilterPolicy = '''', sub_FilterScope = ''MessageAttributes'',
      sub_DeliveryPolicy = '''', sub_RedrivePolicy = '''', sub_Pending = False, sub_Created = now, sub_Modified = now\<rparr>"

text \<open>A second subscription of the same endpoint is the first one, with the attributes of the request.\<close>

definition Subscribe :: "sns_env \<Rightarrow> int \<Rightarrow> string \<Rightarrow> string \<Rightarrow> string \<Rightarrow> string go_map option \<Rightarrow> snsStore \<Rightarrow> SNSSubscription sns_result" where
  "Subscribe E now rawArn rawProtocol rawEndpoint attrs s =
     (let arn = trimSpace rawArn; protocol = toLower (trimSpace rawProtocol); endpoint = trimSpace rawEndpoint in
      if arn = '''' then (Inl (Required ''TopicArn''), s)
      else if protocol = '''' then (Inl (Required ''protocol''), s)
      else if endpoint = '''' then (Inl (Required ''endpoint''), s)
      else if map_of (topics s) arn = None then (Inl (TopicNotFound arn), s)
      else (case find (\<lambda>(_, sub). sub_TopicArn sub = arn \<and> sub_Protocol sub = protocol \<and> sub_Endpoint sub = endpoint) (subscriptions s) of
          Some (key, sub) \<Rightarrow>
            let sub1 = applySubscriptionAttributesLocked now attrs sub;
                sub2 = (if sub_Modified sub1 = 0 then sub1\<lparr>sub_Modified := now\<rparr> else sub1) in
            (Inr sub2, s\<lparr>subscriptions := AList.update key sub2 (subscriptions s), sns_dirty := True\<rparr>)
        | None \<Rightarrow>
            let n = sns_uuids s; sub = applySubscriptionAttributesLocked now attrs (newSubscription E now n arn protocol endpoint) in
            (Inr sub, s\<lparr>subscriptions := AList.update (subscriptionARN E n arn) sub (subscriptions s), sns_dirty := True,
               sns_uuids := Suc n\<rparr>)))"

definition Unsubscribe :: "string \<Rightarrow> snsStore \<Rightarrow> unit sns_result" where
  "Unsubscribe rawArn s =
     (let arn = trimSpace rawArn in
      if arn = '''' then (Inl (Required ''SubscriptionArn''), s)
      else if map_of (subscriptions s) arn = None then (Inl (SubscriptionNotFound arn), s)
      else (Inr (), s\<lparr>subscriptions := AList.delete arn (subscriptions s), sns_dirty := True\<rparr>))"

definition GetSubscription :: "string \<Rightarrow> snsStore \<Rightarrow> sns_error + SNSSubscription" where
  "GetSubscription arn s = (case map_of (subscriptions s) (trimSpace arn) of
      None \<Rightarrow> Inl (SubscriptionNotFound arn)
    | Some sub \<Rightarrow> Inr sub)"

definition GetSubscriptionAttributes :: "string \<Rightarrow> snsStore \<Rightarrow> sns_error + string go_map" where
  "GetSubscriptionAttributes arn s = (case map_of (subscriptions s) (trimSpace arn) of
      None \<Rightarrow> Inl (SubscriptionNotFound arn)
    | Some sub \<Rightarrow> Inr [(''SubscriptionArn'', sub_Arn sub), (''TopicArn'', sub_TopicArn sub), (''Protocol'', sub_Protocol sub),
        (''Endpoint'', sub_Endpoint sub), (''Owner'', sub_Owner sub), (''PendingConfirmation'', boolToString (sub_Pending sub)),
        (''RawMessageDelivery'', boolToString (sub_Raw sub)), (''FilterPolicy'', sub_FilterPolicy sub),
        (''FilterPolicyScope'', sub_FilterScope sub), (''DeliveryPolicy'', sub_DeliveryPolicy sub),
        (''RedrivePolicy'', sub_RedrivePolicy sub)])"

definition setSubAttribute :: "string \<Rightarrow> string \<Rightarrow> SNSSubscription \<Rightarrow> sns_error + SNSSubscription" where
  "setSubAttribute name v sub =
     (if name = ''RawMessageDelivery'' then Inr (sub\<lparr>sub_Raw := parseBool v\<rparr>)
      else if name = ''FilterPolicy'' then Inr (sub\<lparr>sub_FilterPolicy := v\<rparr>)
      else if name = ''FilterPolicyScope'' then Inr (sub\<lparr>sub_FilterScope := (if v = '''' then ''MessageAttributes'' else v)\<rparr>)
      else if name = ''DeliveryPolicy'' then Inr (sub\<lparr>sub_DeliveryPolicy := v\<rparr>)
      else if name = ''RedrivePolicy'' then Inr (sub\<lparr>sub_RedrivePolicy := v\<rparr>)
      else Inl (UnsupportedSubscriptionAttribute name))"

definition SetSubscriptionAttribute :: "int \<Rightarrow> string \<Rightarrow> string \<Rightarrow> string \<Rightarrow> snsStore \<Rightarrow> unit sns_result" where
  "SetSubscriptionAttribute now arn rawName v s =
     (let name = trimSpace rawName in
      if name = '''' then (Inl (Required ''AttributeName''), s)
      else (case map_of (subscriptions s) (trimSpace arn) of
          None \<Rightarrow> (Inl (SubscriptionNotFound arn), s)
        | Some sub \<Rightarrow> (case setSubAttribute name v sub of
              Inl e \<Rightarrow> (Inl e, s)
            | Inr sub' \<Rightarrow>
                (Inr (), s\<lparr>subscriptions := AList.update (trimSpace arn) (sub'\<lparr>sub_Modified := now\<rparr>) (subscriptions s), sns_dirty := True\<rparr>))))"

definition ListSubscriptions :: "snsStore \<Rightarrow> SNSSubscription list" where
  "ListSubscriptions s = sort_key sub_TopicArn (sort_key sub_Arn (map snd (subscriptions s)))"

definition subscriptionsOf :: "string \<Rightarrow> snsStore \<Rightarrow> SNSSubscription list" where
  "subscriptionsOf arn s = sort_key sub_Arn (filter (\<lambda>sub. sub_TopicArn sub = arn) (map snd (subscriptions s)))"

definition ListSubscriptionsByTopic :: "string \<Rightarrow> snsStore \<Rightarrow> sns_error + SNSSubscription list" where
  "ListSubscriptionsByTopic rawArn s =
     (let arn = trimSpace rawArn in
      if arn = '''' then Inl (Required ''TopicArn'')
      else if map_of (topics s) arn = None then Inl (TopicNotFound arn)
      else Inr (subscriptionsOf arn s))"

section \<open>Persistence\<close>

text \<open>The lists \<open>flushToDisk\<close> writes, and the store \<open>Init\<close> builds from the lists of a file: topics without an ARN
  or a name and subscriptions without an ARN or of a topic that is not there are left out.\<close>

definition snsSnapshot :: "snsStore \<Rightarrow> SNSTopic list \<times> SNSSubscription list" where
  "snsSnapshot s = (ListTopics s, sort_key sub_Arn (map snd (subscriptions s)))"

definition loadTopic :: "SNSTopic \<Rightarrow> snsStore \<Rightarrow> snsStore" where
  "loadTopic topic s =
     (if topic_Arn topic = '''' \<or> topic_Name topic = '''' then s
      else s\<lparr>topics := AList.update (topic_Arn topic) topic (topics s),
             topicByName := AList.update (topic_Name topic) (topic_Arn topic) (topicByName s)\<rparr>)"

definition loadSubscription :: "SNSSubscription \<Rightarrow> snsStore \<Rightarrow> snsStore" where
  "loadSubscription sub s =
     (if sub_Arn sub = '''' \<or> sub_TopicArn sub = '''' \<or> map_of (topics s) (sub_TopicArn sub) = None then s
      else s\<lparr>subscriptions := AList.update (sub_Arn sub) sub (subscriptions s)\<rparr>)"

definition loadSns :: "SNSTopic list \<times> SNSSubscription list \<Rightarrow> snsStore \<Rightarrow> snsStore" where
  "loadSns snapshot s =
     fold loadSubscription (snd snapshot) (fold loadTopic (fst snapshot) (s\<lparr>topics := [], topicByName := [], subscriptions := []\<rparr>))"

end
