(* ===== verification/SNS_Invariant.thy ===== *)
theory SNS_Invariant
  imports SNS_Store "HOL-Library.Multiset"
begin

text \<open>
  The invariant of the SNS store: the table of topics and the index by name agree, every subscription is of
  a topic that exists, and an endpoint is subscribed to a topic at most once. Every operation keeps it, and a
  store that is written and read back is the same.
\<close>

section \<open>The invariant\<close>

text \<open>What identifies a subscription for its client.\<close>

definition subKey :: "SNSSubscription \<Rightarrow> string \<times> string \<times> string" where
  "subKey sub = (sub_TopicArn sub, sub_Protocol sub, sub_Endpoint sub)"

definition topicOK :: "sns_env \<Rightarrow> string go_map \<Rightarrow> string \<Rightarrow> SNSTopic \<Rightarrow> bool" where
  "topicOK E index arn topic \<longleftrightarrow> topic_Arn topic = arn \<and> arn = topicARN E (topic_Name topic) \<and> topic_Name topic \<noteq> '''' \<and>
     map_of index (topic_Name topic) = Some arn \<and> (topic_Fifo topic \<longrightarrow> hasSuffix (topic_Name topic) ''.fifo'')"

definition snsOK :: "sns_env \<Rightarrow> snsStore \<Rightarrow> bool" where
  "snsOK E s \<longleftrightarrow> distinct (map fst (topics s)) \<and> distinct (map fst (topicByName s)) \<and> distinct (map fst (subscriptions s)) \<and>
     list_all (\<lambda>(arn, topic). topicOK E (topicByName s) arn topic) (topics s) \<and>
     list_all (\<lambda>(name, arn). arn = topicARN E name \<and> map_of (topics s) arn \<noteq> None) (topicByName s) \<and>
     list_all (\<lambda>(arn, sub). sub_Arn sub = arn \<and> arn \<noteq> '''' \<and> map_of (topics s) (sub_TopicArn sub) \<noteq> None) (subscriptions s) \<and>
     distinct (map (subKey \<circ> snd) (subscriptions s))"

lemma distinct_by_mset: "mset xs = mset ys \<Longrightarrow> distinct xs = distinct ys"
  by (metis distinct_count_atmost_1 set_mset_mset)

lemma list_all_pairsI: "(\<And>k v. (k, v) \<in> set m \<Longrightarrow> P k v) \<Longrightarrow> list_all (\<lambda>(k, v). P k v) m"
  by (auto simp: list_all_iff)

lemma topicARN_inject: "topicARN E a = topicARN E b \<longleftrightarrow> a = b"
  by (simp add: topicARN_def)

lemma topicARN_not_Nil: "topicARN E name \<noteq> ''''"
  by (simp add: topicARN_def)

lemma topicOK_lookup: "snsOK E s \<Longrightarrow> map_of (topics s) arn = Some topic \<Longrightarrow> topicOK E (topicByName s) arn topic"
  by (auto simp: snsOK_def list_all_iff dest!: map_of_SomeD)

lemma distinct_update_by:
  "distinct (map (f \<circ> snd) m) \<Longrightarrow> distinct (map fst m) \<Longrightarrow> (\<And>k' v'. (k', v') \<in> set m \<Longrightarrow> k' \<noteq> k \<Longrightarrow> f v' \<noteq> f v) \<Longrightarrow>
     distinct (map (f \<circ> snd) (AList.update k v m))"
proof (induction m)
  case (Cons p m)
  obtain k' v' where p: "p = (k', v')" by fastforce
  have other: "f w \<noteq> f v" if "(l, w) \<in> set m" "l \<noteq> k" for l w using Cons.prems(3) that by auto
  show ?case
  proof (cases "k' = k")
    case True
    have "f w \<noteq> f v" if "(l, w) \<in> set m" for l w
    proof -
      have "l \<noteq> k" using Cons.prems(2) that True p by (auto simp: image_iff)
      with other that show ?thesis by blast
    qed
    with Cons.prems(1) True p show ?thesis by (fastforce simp: image_iff)
  next
    case False
    have "f v' \<noteq> f w" if "(l, w) \<in> set (AList.update k v m)" for l w
      using AList_update_set [OF that] Cons.prems(1,3) False p by (auto simp: image_iff dest: sym)
    with Cons.IH [OF _ _ other] Cons.prems(1,2) False p show ?thesis by (force simp: image_iff)
  qed
qed simp

lemma distinct_filter_by: "distinct (map f m) \<Longrightarrow> distinct (map f (filter P m))"
  by (induction m) auto

section \<open>Every operation keeps it\<close>

lemma changeTopic_OK:
  assumes "snsOK E s" and "changeTopic now arn f s = (r, s')"
    and "\<And>topic topic'. f topic = Inr topic' \<Longrightarrow> topic_Arn topic' = topic_Arn topic \<and> topic_Name topic' = topic_Name topic \<and>
      (topic_Fifo topic' \<longrightarrow> topic_Fifo topic \<or> hasSuffix (topic_Name topic) ''.fifo'')"
  shows "snsOK E s'"
proof (cases "map_of (topics s) (trimSpace arn)")
  case None
  with assms show ?thesis by (simp add: changeTopic_def)
next
  case (Some topic)
  show ?thesis
  proof (cases "f topic")
    case (Inl e)
    with Some assms show ?thesis by (simp add: changeTopic_def)
  next
    case (Inr topic')
    let ?t = "topic'\<lparr>topic_Modified := now\<rparr>"
    have "topicOK E (topicByName s) (trimSpace arn) ?t"
      using topicOK_lookup [OF assms(1) Some] assms(3) [OF Inr] by (auto simp: topicOK_def)
    moreover have s': "s' = s\<lparr>topics := AList.update (trimSpace arn) ?t (topics s), sns_dirty := True\<rparr>"
      using Some Inr assms(2) by (simp add: changeTopic_def)
    ultimately show ?thesis using assms(1) AList_update_set [of _ _ "trimSpace arn" ?t "topics s"]
      unfolding snsOK_def s' by (fastforce simp: list_all_iff)
  qed
qed

lemma setAttribute_keeps:
  "setAttribute name v topic = Inr topic' \<Longrightarrow> topic_Arn topic' = topic_Arn topic \<and> topic_Name topic' = topic_Name topic \<and>
     (topic_Fifo topic' \<longrightarrow> topic_Fifo topic \<or> hasSuffix (topic_Name topic) ''.fifo'')"
  by (auto simp: setAttribute_def split: if_splits)

lemma CreateTopic_OK:
  assumes "snsOK E s" and "CreateTopic E now rawName attrs tags s = (r, s')"
  shows "snsOK E s'"
proof -
  let ?name = "trimSpace rawName"
  let ?arn = "topicARN E ?name"
  show ?thesis
  proof (cases "?name = '''' \<or> (\<not> hasSuffix ?name ''.fifo'' \<and> parseBool (strAt attrs ''FifoTopic'')) \<or> map_of (topicByName s) ?name \<noteq> None")
    case True
    then have "s' = s" using assms(2) by (auto simp: CreateTopic_def Let_def split: if_splits option.splits)
    with assms(1) show ?thesis by simp
  next
    case False
    define topic where "topic = newTopic E now ?name (hasSuffix ?name ''.fifo'' \<or> parseBool (strAt attrs ''FifoTopic'')) attrs tags"
    have t: "topic_Arn topic = ?arn" "topic_Name topic = ?name" "topic_Fifo topic \<longrightarrow> hasSuffix ?name ''.fifo''"
      using False by (auto simp: topic_def newTopic_def)
    have "CreateTopic E now rawName attrs tags s = (Inr (Some topic),
        s\<lparr>topics := AList.update ?arn topic (topics s), topicByName := AList.update ?name ?arn (topicByName s), sns_dirty := True\<rparr>)"
      using False by (auto simp: CreateTopic_def Let_def topic_def)
    then have s': "s' = s\<lparr>topics := AList.update ?arn topic (topics s), topicByName := AList.update ?name ?arn (topicByName s), sns_dirty := True\<rparr>"
      using assms(2) by simp
    have "map_of (topicByName s) ?name = None" "?name \<noteq> ''''" using False by auto
    then have other: "topicOK E (AList.update ?name ?arn (topicByName s)) arn u" if "topicOK E (topicByName s) arn u" for arn u
      using that by (auto simp: topicOK_def)
    have new: "topicOK E (AList.update ?name ?arn (topicByName s)) ?arn topic" using t \<open>?name \<noteq> ''''\<close> by (simp add: topicOK_def)
    have "list_all (\<lambda>(arn, topic). topicOK E (topicByName s') arn topic) (topics s')"
      unfolding s' list_all_iff using assms(1) other new AList_update_set [of _ _ ?arn topic "topics s"]
      by (fastforce simp: snsOK_def list_all_iff)
    moreover have "list_all (\<lambda>(name, arn). arn = topicARN E name \<and> map_of (topics s') arn \<noteq> None) (topicByName s')"
      unfolding s' list_all_iff using assms(1) AList_update_set [of _ _ ?name ?arn "topicByName s"]
      by (fastforce simp: snsOK_def list_all_iff)
    ultimately show ?thesis using assms(1) by (auto simp: snsOK_def s' list_all_iff)
  qed
qed

lemma DeleteTopic_OK:
  assumes "snsOK E s" and "DeleteTopic rawArn s = (r, s')"
  shows "snsOK E s'"
proof -
  let ?arn = "trimSpace rawArn"
  show ?thesis
  proof (cases "?arn = '''' \<or> map_of (topics s) ?arn = None")
    case True
    then have "s' = s" using assms(2) by (auto simp: DeleteTopic_def Let_def split: if_splits option.splits)
    with assms(1) show ?thesis by simp
  next
    case False
    then obtain topic where t: "map_of (topics s) ?arn = Some topic" by auto
    let ?name = "topic_Name topic"
    have s': "s' = s\<lparr>topics := AList.delete ?arn (topics s), topicByName := AList.delete ?name (topicByName s),
        subscriptions := filter (\<lambda>(_, sub). sub_TopicArn sub \<noteq> ?arn) (subscriptions s), sns_dirty := True\<rparr>"
      using False t assms(2) by (simp add: DeleteTopic_def Let_def)
    have ok: "topicOK E (topicByName s) ?arn topic" by (rule topicOK_lookup [OF assms(1) t])
    have keep: "topicOK E (AList.delete ?name (topicByName s)) arn u" if "topicOK E (topicByName s) arn u" "arn \<noteq> ?arn" for arn u
      using that ok by (auto simp: topicOK_def)
    have "list_all (\<lambda>(arn, topic). topicOK E (topicByName s') arn topic) (topics s')"
      unfolding s' list_all_iff using assms(1) keep by (auto simp: snsOK_def list_all_iff AList.delete_eq)
    moreover have "list_all (\<lambda>(name, arn). arn = topicARN E name \<and> map_of (topics s') arn \<noteq> None) (topicByName s')"
    proof -
      have "arn = topicARN E name \<and> map_of (topics s') arn \<noteq> None" if "(name, arn) \<in> set (AList.delete ?name (topicByName s))" for name arn
      proof -
        have "(name, arn) \<in> set (topicByName s)" "name \<noteq> ?name" using that by (auto simp: AList.delete_eq)
        moreover then have "arn = topicARN E name" "map_of (topics s) arn \<noteq> None" using assms(1) by (auto simp: snsOK_def list_all_iff)
        moreover have "?arn = topicARN E ?name" using ok by (simp add: topicOK_def)
        ultimately show ?thesis by (simp add: s' topicARN_inject)
      qed
      moreover have "topicByName s' = AList.delete ?name (topicByName s)" by (simp add: s')
      ultimately show ?thesis by (intro list_all_pairsI) simp
    qed
    ultimately show ?thesis using assms(1) by (auto simp: snsOK_def s' list_all_iff intro: distinct_filter_by)
  qed
qed

text \<open>A change of one subscription that keeps its key, or a new key that no other has.\<close>

lemma putSubscription_OK:
  assumes "snsOK E s" and "sub_Arn sub = key" and "key \<noteq> ''''" and "map_of (topics s) (sub_TopicArn sub) \<noteq> None"
    and "\<And>k v. (k, v) \<in> set (subscriptions s) \<Longrightarrow> k \<noteq> key \<Longrightarrow> subKey v \<noteq> subKey sub"
    and "topics s' = topics s" and "topicByName s' = topicByName s" and "subscriptions s' = AList.update key sub (subscriptions s)"
  shows "snsOK E s'"
proof -
  have "distinct (map (subKey \<circ> snd) (subscriptions s'))"
    unfolding assms(8) using assms(1,5) by (intro distinct_update_by) (auto simp: snsOK_def)
  moreover have "list_all (\<lambda>(arn, sub). sub_Arn sub = arn \<and> arn \<noteq> '''' \<and> map_of (topics s') (sub_TopicArn sub) \<noteq> None) (subscriptions s')"
    unfolding assms(6,8) list_all_iff using assms(1-4) AList_update_set [of _ _ key sub "subscriptions s"]
    by (fastforce simp: snsOK_def list_all_iff)
  ultimately show ?thesis using assms(1) unfolding snsOK_def by (simp only: assms(6-8) distinct_keys_update)
qed

lemma subKey_unique:
  "distinct (map (subKey \<circ> snd) m) \<Longrightarrow> distinct (map fst m) \<Longrightarrow> (k, v) \<in> set m \<Longrightarrow> (k', v') \<in> set m \<Longrightarrow> k \<noteq> k' \<Longrightarrow> subKey v \<noteq> subKey v'"
  by (metis (mono_tags, lifting) comp_apply distinct_map inj_onD prod.inject snd_conv)

lemma applyAttributes_keeps [simp]:
  "subKey (applySubscriptionAttributesLocked now attrs sub) = subKey sub"
  "sub_TopicArn (applySubscriptionAttributesLocked now attrs sub) = sub_TopicArn sub"
  "sub_Arn (applySubscriptionAttributesLocked now attrs sub) = sub_Arn sub"
  by (auto simp: applySubscriptionAttributesLocked_def withAttr_def subKey_def Let_def split: option.splits)

lemma setSubAttribute_keeps:
  "setSubAttribute name v sub = Inr sub' \<Longrightarrow> subKey sub' = subKey sub \<and> sub_TopicArn sub' = sub_TopicArn sub \<and> sub_Arn sub' = sub_Arn sub"
  by (auto simp: setSubAttribute_def subKey_def split: if_splits)

lemma sub_facts: "snsOK E s \<Longrightarrow> (k, sub) \<in> set (subscriptions s) \<Longrightarrow>
    sub_Arn sub = k \<and> k \<noteq> '''' \<and> map_of (topics s) (sub_TopicArn sub) \<noteq> None"
  by (auto simp: snsOK_def list_all_iff)

text \<open>A subscription that is changed in place.\<close>

lemma changeSubscription_OK:
  assumes "snsOK E s" and "(key, sub) \<in> set (subscriptions s)" and "subKey sub' = subKey sub" and "sub_TopicArn sub' = sub_TopicArn sub"
    and "sub_Arn sub' = sub_Arn sub"
    and "topics s' = topics s" and "topicByName s' = topicByName s" and "subscriptions s' = AList.update key sub' (subscriptions s)"
  shows "snsOK E s'"
proof (rule putSubscription_OK [OF assms(1) _ _ _ _ assms(6-8)])
  note f = sub_facts [OF assms(1,2)]
  show "sub_Arn sub' = key" "key \<noteq> ''''" "map_of (topics s) (sub_TopicArn sub') \<noteq> None" using f assms(4,5) by auto
  show "subKey v \<noteq> subKey sub'" if "(k, v) \<in> set (subscriptions s)" "k \<noteq> key" for k v
    using subKey_unique [of "subscriptions s" k v key sub] assms(1-3) that by (auto simp: snsOK_def)
qed

lemma subscriptionARN_not_Nil: "subscriptionARN E n arn \<noteq> ''''"
  by (simp add: subscriptionARN_def)

lemma Subscribe_OK:
  assumes "snsOK E s" and "Subscribe E now rawArn rawProtocol rawEndpoint attrs s = (r, s')"
  shows "snsOK E s'"
proof -
  let ?arn = "trimSpace rawArn" and ?protocol = "toLower (trimSpace rawProtocol)" and ?endpoint = "trimSpace rawEndpoint"
  let ?P = "\<lambda>(_, sub). sub_TopicArn sub = ?arn \<and> sub_Protocol sub = ?protocol \<and> sub_Endpoint sub = ?endpoint"
  show ?thesis
  proof (cases "?arn = '''' \<or> ?protocol = '''' \<or> ?endpoint = '''' \<or> map_of (topics s) ?arn = None")
    case True
    then have "s' = s" using assms(2) by (auto simp: Subscribe_def Let_def split: if_splits)
    with assms(1) show ?thesis by simp
  next
    case False
    show ?thesis
    proof (cases "find ?P (subscriptions s)")
      case (Some p)
      obtain key sub where p: "p = (key, sub)" by fastforce
      with Some have mem: "(key, sub) \<in> set (subscriptions s)" by (auto simp: find_Some_iff in_set_conv_nth)
      let ?sub1 = "applySubscriptionAttributesLocked now attrs sub"
      let ?sub2 = "if sub_Modified ?sub1 = 0 then ?sub1\<lparr>sub_Modified := now\<rparr> else ?sub1"
      have k: "subKey ?sub2 = subKey sub" "sub_TopicArn ?sub2 = sub_TopicArn sub" "sub_Arn ?sub2 = sub_Arn sub"
        using applyAttributes_keeps [of now attrs sub] by (auto simp: subKey_def)
      have "Subscribe E now rawArn rawProtocol rawEndpoint attrs s =
          (Inr ?sub2, s\<lparr>subscriptions := AList.update key ?sub2 (subscriptions s), sns_dirty := True\<rparr>)"
        using False Some p unfolding Subscribe_def Let_def by auto
      with assms(2) have s': "s' = s\<lparr>subscriptions := AList.update key ?sub2 (subscriptions s), sns_dirty := True\<rparr>" by simp
      show ?thesis by (rule changeSubscription_OK [OF assms(1) mem k]) (simp_all add: s')
    next
      case None
      let ?key = "subscriptionARN E (sns_uuids s) ?arn"
      let ?sub = "applySubscriptionAttributesLocked now attrs (newSubscription E now (sns_uuids s) ?arn ?protocol ?endpoint)"
      have s': "s' = s\<lparr>subscriptions := AList.update ?key ?sub (subscriptions s), sns_dirty := True, sns_uuids := Suc (sns_uuids s)\<rparr>"
        using assms(2) False None by (auto simp: Subscribe_def Let_def)
      show ?thesis
      proof (rule putSubscription_OK [OF assms(1)])
        have "subKey ?sub = (?arn, ?protocol, ?endpoint)" unfolding applyAttributes_keeps by (simp add: subKey_def newSubscription_def)
        then show "subKey v \<noteq> subKey ?sub" if "(k, v) \<in> set (subscriptions s)" for k v
          using None that by (auto simp: find_None_iff subKey_def)
        show "map_of (topics s) (sub_TopicArn ?sub) \<noteq> None" using False by (simp add: newSubscription_def)
      qed (simp_all add: s' newSubscription_def subscriptionARN_not_Nil)
    qed
  qed
qed

lemma Unsubscribe_OK:
  assumes "snsOK E s" and "Unsubscribe rawArn s = (r, s')"
  shows "snsOK E s'"
  using assms by (auto simp: Unsubscribe_def Let_def snsOK_def list_all_iff AList.delete_eq intro: distinct_filter_by split: if_splits)

lemma SetSubscriptionAttribute_OK:
  assumes "snsOK E s" and "SetSubscriptionAttribute now arn rawName v s = (r, s')"
  shows "snsOK E s'"
proof -
  have "s' = s \<or> (\<exists>sub sub'. map_of (subscriptions s) (trimSpace arn) = Some sub \<and> setSubAttribute (trimSpace rawName) v sub = Inr sub' \<and>
      s' = s\<lparr>subscriptions := AList.update (trimSpace arn) (sub'\<lparr>sub_Modified := now\<rparr>) (subscriptions s), sns_dirty := True\<rparr>)"
    using assms(2) by (auto simp: SetSubscriptionAttribute_def Let_def split: if_splits option.splits sum.splits)
  then consider "s' = s" | sub sub' where "map_of (subscriptions s) (trimSpace arn) = Some sub" "setSubAttribute (trimSpace rawName) v sub = Inr sub'"
    "s' = s\<lparr>subscriptions := AList.update (trimSpace arn) (sub'\<lparr>sub_Modified := now\<rparr>) (subscriptions s), sns_dirty := True\<rparr>" by blast
  then show ?thesis
  proof cases
    case 1
    with assms(1) show ?thesis by simp
  next
    case 2
    note k = setSubAttribute_keeps [OF 2(2)]
    show ?thesis by (rule changeSubscription_OK [OF assms(1) map_of_SomeD [OF 2(1)], of "sub'\<lparr>sub_Modified := now\<rparr>"])
      (use k 2(3) in \<open>simp_all add: subKey_def\<close>)
  qed
qed

section \<open>Reachable stores\<close>

inductive sns_step :: "sns_env \<Rightarrow> snsStore \<Rightarrow> snsStore \<Rightarrow> bool" for E where
  create: "CreateTopic E now name attrs tags s = (r, s') \<Longrightarrow> sns_step E s s'"
| delete: "DeleteTopic arn s = (r, s') \<Longrightarrow> sns_step E s s'"
| set_attribute: "SetTopicAttribute now arn name v s = (r, s') \<Longrightarrow> sns_step E s s'"
| tag: "TagTopic now arn tags s = (r, s') \<Longrightarrow> sns_step E s s'"
| untag: "UntagTopic now arn ks s = (r, s') \<Longrightarrow> sns_step E s s'"
| subscribe: "Subscribe E now arn protocol endpoint attrs' s = (r', s') \<Longrightarrow> sns_step E s s'"
| unsubscribe: "Unsubscribe arn s = (r, s') \<Longrightarrow> sns_step E s s'"
| set_subscription: "SetSubscriptionAttribute now arn name v s = (r, s') \<Longrightarrow> sns_step E s s'"

lemma sns_step_OK: "sns_step E s s' \<Longrightarrow> snsOK E s \<Longrightarrow> snsOK E s'"
proof (induction rule: sns_step.induct)
  case (set_attribute now arn name v s r s')
  then show ?case unfolding SetTopicAttribute_def Let_def by (auto split: if_splits intro: changeTopic_OK dest: setAttribute_keeps)
next
  case (tag now arn tags s r s')
  then show ?case unfolding TagTopic_def by (auto intro: changeTopic_OK)
next
  case (untag now arn ks s r s')
  then show ?case unfolding UntagTopic_def by (auto intro: changeTopic_OK)
qed (blast intro: CreateTopic_OK DeleteTopic_OK Subscribe_OK Unsubscribe_OK SetSubscriptionAttribute_OK)+

interpretation sns: transition_system "sns_step E" "snsOK E" for E
  by unfold_locales (rule sns_step_OK)

lemma newSnsStore_OK: "snsOK E newSnsStore"
  by (simp add: snsOK_def newSnsStore_def)

text \<open>C11: In every store the operations reach from the empty one, the topics are under the ARN of their name and the
  index by name agrees with them, a topic that is FIFO has a name that says so, every subscription is of a topic
  that exists, and no endpoint is subscribed twice to a topic with the same protocol.\<close>

theorem sns_reachable_ok:
  assumes "(sns_step E)\<^sup>*\<^sup>* newSnsStore s"
  shows "snsOK E s"
  using assms newSnsStore_OK by (rule sns.steps_invariant)

definition demoSns :: sns_env where
  "demoSns = \<lparr>sns_uuid = (\<lambda>n. itoa (int n)), sns_Region = ''r'', sns_Account = ''1'', sns_marshal = (\<lambda>_. None)\<rparr>"

definition demoTopics :: snsStore where
  "demoTopics = snd (CreateTopic demoSns 1 ''orders'' [] [] newSnsStore)"

definition demoSubscribed :: snsStore where
  "demoSubscribed = snd (Subscribe demoSns 2 ''arn:aws:sns:r:1:orders'' ''SQS'' ''arn:aws:sqs:r:1:q'' None demoTopics)"

lemma demoSubscribed_reachable: "(sns_step demoSns)\<^sup>*\<^sup>* newSnsStore demoSubscribed"
proof -
  have "sns_step demoSns newSnsStore demoTopics" unfolding demoTopics_def by (rule sns_step.create) (rule prod.collapse [symmetric])
  moreover have "sns_step demoSns demoTopics demoSubscribed"
    unfolding demoSubscribed_def by (rule sns_step.subscribe) (rule prod.collapse [symmetric])
  ultimately show ?thesis by simp
qed

theorem sns_reachable_ok_witness:
  "snsOK demoSns demoSubscribed \<and> map sub_Protocol (subscriptionsOf ''arn:aws:sns:r:1:orders'' demoSubscribed) = [''sqs'']"
proof
  show "snsOK demoSns demoSubscribed" using demoSubscribed_reachable by (rule sns_reachable_ok)
  show "map sub_Protocol (subscriptionsOf ''arn:aws:sns:r:1:orders'' demoSubscribed) = [''sqs'']" by code_simp
qed

section \<open>Deleted topics\<close>

text \<open>A topic that is deleted and created again starts without subscriptions.\<close>

theorem recreated_topic_is_empty:
  assumes "snsOK E s" and "DeleteTopic arn s = (Inr (), s1)" and "CreateTopic E now name attrs tags s1 = (Inr (Some topic), s2)"
    and "topic_Arn topic = trimSpace arn"
  shows "ListSubscriptionsByTopic arn s2 = Inr []"
proof -
  have ok: "snsOK E s1" "snsOK E s2" using assms DeleteTopic_OK CreateTopic_OK by blast+
  have arn: "trimSpace arn \<noteq> ''''" and gone: "map_of (topics s1) (trimSpace arn) = None"
    and none: "\<forall>(k, sub) \<in> set (subscriptions s1). sub_TopicArn sub \<noteq> trimSpace arn"
    using assms(2) by (auto simp: DeleteTopic_def Let_def split: if_splits option.splits)
  have subs: "subscriptions s2 = subscriptions s1"
    using assms(3) by (auto simp: CreateTopic_def Let_def split: if_splits option.splits)
  have "map_of (topics s2) (trimSpace arn) \<noteq> None"
  proof (cases "map_of (topicByName s1) (trimSpace name)")
    case None
    then have "topic = newTopic E now (trimSpace name) (hasSuffix (trimSpace name) ''.fifo'' \<or> parseBool (strAt attrs ''FifoTopic'')) attrs tags"
      "topics s2 = AList.update (topicARN E (trimSpace name)) topic (topics s1)"
      using assms(3) by (auto simp: CreateTopic_def Let_def split: if_splits)
    with assms(4) show ?thesis by (simp add: newTopic_def)
  next
    case (Some a)
    then have "map_of (topics s1) a = Some topic" using assms(3) by (auto simp: CreateTopic_def Let_def split: if_splits)
    with topicOK_lookup [OF ok(1)] assms(4) gone show ?thesis by (auto simp: topicOK_def)
  qed
  moreover have "filter (\<lambda>sub. sub_TopicArn sub = trimSpace arn) (map snd (subscriptions s2)) = []"
    using none by (auto simp: subs filter_empty_conv)
  ultimately show ?thesis using arn by (auto simp: ListSubscriptionsByTopic_def subscriptionsOf_def Let_def)
qed

theorem recreated_topic_is_empty_witness:
  "ListSubscriptionsByTopic ''arn:aws:sns:r:1:orders''
     (snd (CreateTopic demoSns 3 ''orders'' [] [] (snd (DeleteTopic ''arn:aws:sns:r:1:orders'' demoSubscribed)))) = Inr []"
proof -
  let ?arn = "''arn:aws:sns:r:1:orders''"
  let ?s1 = "snd (DeleteTopic ?arn demoSubscribed)"
  let ?c = "CreateTopic demoSns 3 ''orders'' [] [] ?s1"
  have "snsOK demoSns demoSubscribed" by (rule sns.steps_invariant [OF demoSubscribed_reachable newSnsStore_OK])
  moreover have "fst (DeleteTopic ?arn demoSubscribed) = Inr ()" by code_simp
  then have "DeleteTopic ?arn demoSubscribed = (Inr (), ?s1)" by (metis prod.collapse)
  moreover have "fst ?c = Inr (Some (newTopic demoSns 3 ''orders'' False [] []))" by code_simp
  then have "?c = (Inr (Some (newTopic demoSns 3 ''orders'' False [] [])), snd ?c)" by (metis prod.collapse)
  moreover have "topic_Arn (newTopic demoSns 3 ''orders'' False [] []) = trimSpace ?arn" by code_simp
  ultimately show ?thesis by (rule recreated_topic_is_empty)
qed

section \<open>Writing and reading the store\<close>

lemma loadTopics_lookup:
  assumes "distinct (map topic_Arn ts)" and "distinct (map topic_Name ts)" and "list_all (\<lambda>t. topic_Arn t \<noteq> '''' \<and> topic_Name t \<noteq> '''') ts"
  shows "(\<forall>t \<in> set ts. map_of (topics (fold loadTopic ts s)) (topic_Arn t) = Some t \<and>
      map_of (topicByName (fold loadTopic ts s)) (topic_Name t) = Some (topic_Arn t)) \<and>
    (\<forall>arn. arn \<notin> topic_Arn ` set ts \<longrightarrow> map_of (topics (fold loadTopic ts s)) arn = map_of (topics s) arn) \<and>
    (\<forall>name. name \<notin> topic_Name ` set ts \<longrightarrow> map_of (topicByName (fold loadTopic ts s)) name = map_of (topicByName s) name) \<and>
    subscriptions (fold loadTopic ts s) = subscriptions s"
  using assms
proof (induction ts arbitrary: s)
  case (Cons t ts)
  have load: "loadTopic t s = s\<lparr>topics := AList.update (topic_Arn t) t (topics s), topicByName := AList.update (topic_Name t) (topic_Arn t) (topicByName s)\<rparr>"
    using Cons.prems(3) by (simp add: loadTopic_def)
  have new: "topic_Arn t \<notin> topic_Arn ` set ts" "topic_Name t \<notin> topic_Name ` set ts" using Cons.prems(1,2) by auto
  have "list_all (\<lambda>t. topic_Arn t \<noteq> '''' \<and> topic_Name t \<noteq> '''') ts" using Cons.prems(3) by simp
  note ih = Cons.IH [OF _ _ this, of "loadTopic t s"]
  show ?case using ih Cons.prems(1,2) new by (simp add: load)
qed simp

lemma loadSubscriptions_lookup:
  assumes "distinct (map sub_Arn subs)"
    and "list_all (\<lambda>sub. sub_Arn sub \<noteq> '''' \<and> sub_TopicArn sub \<noteq> '''' \<and> map_of (topics s) (sub_TopicArn sub) \<noteq> None) subs"
  shows "(\<forall>sub \<in> set subs. map_of (subscriptions (fold loadSubscription subs s)) (sub_Arn sub) = Some sub) \<and>
    (\<forall>arn. arn \<notin> sub_Arn ` set subs \<longrightarrow> map_of (subscriptions (fold loadSubscription subs s)) arn = map_of (subscriptions s) arn) \<and>
    topics (fold loadSubscription subs s) = topics s \<and> topicByName (fold loadSubscription subs s) = topicByName s"
  using assms
proof (induction subs arbitrary: s)
  case (Cons sub subs)
  have load: "loadSubscription sub s = s\<lparr>subscriptions := AList.update (sub_Arn sub) sub (subscriptions s)\<rparr>"
    using Cons.prems(2) by (auto simp: loadSubscription_def)
  have "list_all (\<lambda>other. sub_Arn other \<noteq> '''' \<and> sub_TopicArn other \<noteq> '''' \<and> map_of (topics (loadSubscription sub s)) (sub_TopicArn other) \<noteq> None) subs"
    using Cons.prems(2) unfolding load by simp
  note ih = Cons.IH [OF _ this]
  show ?case using ih Cons.prems(1) by (simp add: load)
qed simp

lemma map_of_by_key:
  assumes "distinct (map fst m)" and "\<And>k v. (k, v) \<in> set m \<Longrightarrow> f v = k" and "\<And>v. v \<in> snd ` set m \<Longrightarrow> g (f v) = Some v"
    and "\<And>k. k \<notin> f ` snd ` set m \<Longrightarrow> g k = None"
  shows "g k = map_of m k"
proof (cases "map_of m k")
  case None
  then have "k \<notin> f ` snd ` set m" using assms(2) by (force simp: map_of_eq_None_iff image_iff)
  with assms(4) None show ?thesis by simp
next
  case (Some v)
  then have "(k, v) \<in> set m" by (rule map_of_SomeD)
  with assms(2,3) Some show ?thesis by (force simp: image_iff)
qed

text \<open>What the invariant says of one entry.\<close>

lemma topic_facts: "snsOK E s \<Longrightarrow> (k, t) \<in> set (topics s) \<Longrightarrow>
    topic_Arn t = k \<and> topic_Name t \<noteq> '''' \<and> k = topicARN E (topic_Name t) \<and> map_of (topicByName s) (topic_Name t) = Some k"
  by (auto simp: snsOK_def list_all_iff topicOK_def)

lemma loaded_topics:
  fixes s0 :: snsStore
  assumes "snsOK E s"
  defines "s1 \<equiv> fold loadTopic (ListTopics s) (s0\<lparr>topics := [], topicByName := [], subscriptions := []\<rparr>)"
  shows "map_of (topics s1) = map_of (topics s)" and "map_of (topicByName s1) = map_of (topicByName s)" and "subscriptions s1 = []"
proof -
  let ?ts = "ListTopics s"
  let ?s0 = "s0\<lparr>topics := [], topicByName := [], subscriptions := []\<rparr>"
  have dt: "distinct (map fst (topics s))" "distinct (map fst (topicByName s))" "distinct (map fst (subscriptions s))" using assms(1) by (auto simp: snsOK_def)
  note tk = topic_facts [OF assms(1)]
  have arns: "map topic_Arn (map snd (topics s)) = map fst (topics s)" using tk by (auto simp: comp_def)
  have "distinct (map topic_Arn ?ts)"
    using dt(1) unfolding arns [symmetric] by (metis ListTopics_def distinct_by_mset mset_map mset_sort)
  moreover have "inj_on topic_Name (set (map snd (topics s)))"
  proof (rule inj_onI)
    fix t u assume "t \<in> set (map snd (topics s))" "u \<in> set (map snd (topics s))" and "topic_Name t = topic_Name u"
    then obtain k l where "(k, t) \<in> set (topics s)" "(l, u) \<in> set (topics s)" "k = l" using tk by (auto simp: topicARN_inject) metis
    with dt(1) show "t = u" by (metis eq_key_imp_eq_value)
  qed
  moreover have "distinct (map snd (topics s))" using dt(1) unfolding arns [symmetric] by (metis distinct_map)
  ultimately have td: "distinct (map topic_Arn ?ts)" "distinct (map topic_Name ?ts)" "set ?ts = snd ` set (topics s)"
    by (simp_all add: ListTopics_def distinct_map)
  have "list_all (\<lambda>t. topic_Arn t \<noteq> '''' \<and> topic_Name t \<noteq> '''') ?ts"
    unfolding list_all_iff td(3) by (metis (mono_tags, lifting) imageE prod.collapse tk topicARN_not_Nil)
  note lt = loadTopics_lookup [OF td(1,2) this, of ?s0, unfolded td(3), folded s1_def]
  have topics_eq: "map_of (topics s1) = map_of (topics s)"
  proof
    show "map_of (topics s1) k = map_of (topics s) k" for k
      by (rule map_of_by_key [where f = topic_Arn, OF dt(1)]) (use lt tk in auto)
  qed
  have names_eq: "map_of (topicByName s1) = map_of (topicByName s)"
  proof
    fix name
    show "map_of (topicByName s1) name = map_of (topicByName s) name"
    proof (cases "map_of (topicByName s) name")
      case None
      then have "name \<notin> topic_Name ` snd ` set (topics s)" using tk by auto
      with lt None show ?thesis by simp
    next
      case (Some arn)
      then have "arn = topicARN E name" "map_of (topics s) arn \<noteq> None" using assms(1) by (auto simp: snsOK_def list_all_iff dest!: map_of_SomeD)
      then obtain t where t: "(arn, t) \<in> set (topics s)" by (auto dest: map_of_SomeD)
      with tk \<open>arn = topicARN E name\<close> have "topic_Name t = name" "topic_Arn t = arn" by (metis topicARN_inject)+
      with lt t Some show ?thesis by (metis image_eqI snd_conv)
    qed
  qed
  show "map_of (topics s1) = map_of (topics s)" "map_of (topicByName s1) = map_of (topicByName s)" by fact+
  show "subscriptions s1 = []" using lt by simp
qed

text \<open>C39: A store that is written to its file and read back has the same topics, names and subscriptions.\<close>

theorem sns_snapshot_roundtrip:
  assumes "snsOK E s"
  shows "map_of (topics (loadSns (snsSnapshot s) s0)) = map_of (topics s) \<and>
    map_of (topicByName (loadSns (snsSnapshot s) s0)) = map_of (topicByName s) \<and>
    map_of (subscriptions (loadSns (snsSnapshot s) s0)) = map_of (subscriptions s)"
proof -
  let ?subs = "sort_key sub_Arn (map snd (subscriptions s))"
  let ?s1 = "fold loadTopic (ListTopics s) (s0\<lparr>topics := [], topicByName := [], subscriptions := []\<rparr>)"
  note lt = loaded_topics [OF assms, of s0] and tk = topic_facts [OF assms]
  have dt: "distinct (map fst (subscriptions s))" using assms by (auto simp: snsOK_def)
  have sk: "sub_Arn sub = k \<and> k \<noteq> '''' \<and> map_of (topics s) (sub_TopicArn sub) \<noteq> None" if "(k, sub) \<in> set (subscriptions s)" for k sub
    using that sub_facts [OF assms] by blast
  have subs_set: "set ?subs = snd ` set (subscriptions s)" by simp
  have "map sub_Arn (map snd (subscriptions s)) = map fst (subscriptions s)" using sk by (auto simp: comp_def)
  then have sd: "distinct (map sub_Arn ?subs)" using dt by (metis distinct_by_mset mset_map mset_sort)
  have "sub_TopicArn sub \<noteq> ''''" if "(k, sub) \<in> set (subscriptions s)" for k sub
    using sk [OF that] tk topicARN_not_Nil by (metis map_of_SomeD option.exhaust)
  then have "list_all (\<lambda>sub. sub_Arn sub \<noteq> '''' \<and> sub_TopicArn sub \<noteq> '''' \<and> map_of (topics ?s1) (sub_TopicArn sub) \<noteq> None) ?subs"
    unfolding list_all_iff subs_set lt(1) using sk by fastforce
  note ls = loadSubscriptions_lookup [OF sd this, unfolded subs_set]
  have "map_of (subscriptions (fold loadSubscription ?subs ?s1)) = map_of (subscriptions s)"
  proof
    show "map_of (subscriptions (fold loadSubscription ?subs ?s1)) k = map_of (subscriptions s) k" for k
      by (rule map_of_by_key [where f = sub_Arn, OF dt]) (use ls lt sk in auto)
  qed
  with ls lt(1) lt(2) show ?thesis by (simp add: loadSns_def snsSnapshot_def)
qed

theorem sns_snapshot_roundtrip_witness:
  "map_of (topics (loadSns (snsSnapshot demoSubscribed) newSnsStore)) = map_of (topics demoSubscribed) \<and>
    map_of (topicByName (loadSns (snsSnapshot demoSubscribed) newSnsStore)) = map_of (topicByName demoSubscribed) \<and>
    map_of (subscriptions (loadSns (snsSnapshot demoSubscribed) newSnsStore)) = map_of (subscriptions demoSubscribed)"
  by (rule sns_snapshot_roundtrip [OF sns.steps_invariant [OF demoSubscribed_reachable newSnsStore_OK]])

end
