(* ===== verification/Lambda_Reference.thy ===== *)
theory Lambda_Reference
  imports Tarn_Prelude
begin

text \<open>
  References to Lambda functions (\<open>internal/lambda/reference.go\<close>): a name, a qualified name, a partial ARN or an
  ARN is split into the name of the function and its qualifier. Every error wraps \<open>ErrInvalidParameter\<close>; the
  message is kept.
\<close>

text \<open>\<open>strings.Cut\<close>: what is before and after the first occurrence of the separator.\<close>

definition cut :: "string \<Rightarrow> string \<Rightarrow> (string \<times> string) option" where
  "cut s sep = (case indexOf s sep of None \<Rightarrow> None | Some i \<Rightarrow> Some (take i s, drop (i + length sep) s))"

definition nameChar :: "char \<Rightarrow> bool" where
  "nameChar c \<longleftrightarrow> (let n = of_char c :: nat in
     (97 \<le> n \<and> n \<le> 122) \<or> (65 \<le> n \<and> n \<le> 90) \<or> (48 \<le> n \<and> n \<le> 57) \<or> c = CHR ''_'' \<or> c = CHR ''-'' \<or> c = CHR ''.'')"

definition validName :: "string \<Rightarrow> nat \<Rightarrow> string option" where
  "validName name maximum =
     (if name = '''' \<or> maximum < length name \<or> name = ''.'' \<or> name = ''..'' \<or> \<not> list_all nameChar name
      then Some (''invalid resource name: '' @ name) else None)"

text \<open>The part of a reference after \<open>:function:\<close>, or the whole reference.\<close>

definition functionTail :: "string \<Rightarrow> string + string" where
  "functionTail reference = (case cut reference '':function:'' of
      None \<Rightarrow> Inr reference
    | Some (prefix, tail) \<Rightarrow>
        if hasPrefix prefix ''arn:'' then
          (let parts = splitOn CHR '':'' prefix in
           if length parts \<noteq> 5 \<or> parts ! 2 \<noteq> ''lambda'' then Inl ''invalid function ARN'' else Inr tail)
        else if CHR '':'' \<in> set prefix \<or> prefix = '''' then Inl ''invalid partial function ARN''
        else Inr tail)"

text \<open>The qualifier that is used: the one of the reference, which must agree with the one asked for.\<close>

definition chooseQualifier :: "string option \<Rightarrow> string \<Rightarrow> string + string" where
  "chooseQualifier embedded qualifier = (case embedded of
      None \<Rightarrow> Inr qualifier
    | Some e \<Rightarrow>
        if e = '''' \<or> CHR '':'' \<in> set e then Inl ''invalid function qualifier''
        else if qualifier \<noteq> '''' \<and> qualifier \<noteq> e then Inl ''conflicting function qualifiers''
        else Inr e)"

definition ParseFunctionReference :: "string \<Rightarrow> string \<Rightarrow> string + (string \<times> string)" where
  "ParseFunctionReference rawReference rawQualifier =
     rbind (functionTail (trimSpace rawReference)) (\<lambda>reference.
       let (name, embedded) = (case cut reference '':'' of None \<Rightarrow> (reference, None) | Some (n, e) \<Rightarrow> (n, Some e)) in
       (case validName name 64 of
          Some err \<Rightarrow> Inl err
        | None \<Rightarrow> rbind (chooseQualifier embedded rawQualifier) (\<lambda>qualifier.
            if qualifier \<noteq> '''' \<and> qualifier \<noteq> ''$LATEST'' then
              (case validName qualifier 128 of Some err \<Rightarrow> Inl err | None \<Rightarrow> Inr (name, qualifier))
            else Inr (name, qualifier))))"

section \<open>Lemmas\<close>

lemma cut_first:
  assumes "\<And>j. j < length a \<Longrightarrow> \<not> hasPrefix (drop j (a @ sep @ b)) sep"
  shows "cut (a @ sep @ b) sep = Some (a, b)"
proof -
  have "indexOf (a @ sep @ b) sep = Some (length a)" using assms by (simp add: indexOf_Some_iff hasPrefix_def)
  then show ?thesis by (simp add: cut_def)
qed

lemma cut_byte: "c \<notin> set a \<Longrightarrow> cut (a @ c # b) [c] = Some (a, b)"
proof -
  assume c: "c \<notin> set a"
  have "\<not> hasPrefix (drop j (a @ [c] @ b)) [c]" if "j < length a" for j
  proof -
    have "drop j (a @ [c] @ b) = a ! j # drop (Suc j) (a @ [c] @ b)"
      using that by (simp add: Cons_nth_drop_Suc [symmetric])
    moreover have "a ! j \<noteq> c" using c that nth_mem by fastforce
    ultimately show ?thesis by (simp add: hasPrefix_def)
  qed
  then show ?thesis using cut_first [of a "[c]" b] by simp
qed

lemma cut_none: "c \<notin> set s \<Longrightarrow> cut s (c # sep) = None"
proof -
  assume c: "c \<notin> set s"
  have "\<not> hasPrefix (drop j s) (c # sep)" for j
    using c by (auto simp: hasPrefix_iff) (metis in_set_dropD list.set_intros(1))
  then have "indexOf s (c # sep) = None" by (simp add: indexOf_None_iff)
  then show ?thesis by (simp add: cut_def)
qed

lemma validName_chars: "validName name n = None \<Longrightarrow> CHR '':'' \<notin> set name \<and> name \<noteq> '''' \<and> list_all nameChar name"
  by (auto simp: validName_def nameChar_def list_all_iff split: if_splits)

lemma nameChar_not_space: "nameChar c \<Longrightarrow> \<not> isSpace c"
  by (auto simp: nameChar_def isSpace_def Let_def)

lemma trimSpace_trimmed: "s = '''' \<or> \<not> isSpace (hd s) \<and> \<not> isSpace (last s) \<Longrightarrow> trimSpace s = s"
proof -
  assume s: "s = '''' \<or> \<not> isSpace (hd s) \<and> \<not> isSpace (last s)"
  then have "dropWhile isSpace s = s" by (simp add: dropWhile_eq_self_iff) blast
  moreover have "dropWhile isSpace (rev s) = rev s" using s by (simp add: dropWhile_eq_self_iff hd_rev) blast
  ultimately show ?thesis by (simp add: trimSpace_def)
qed

lemma trimSpace_idem: "trimSpace (trimSpace s) = trimSpace s"
proof (cases "trimSpace s")
  case (Cons c cs)
  let ?t = "dropWhile isSpace s" and ?u = "dropWhile isSpace (rev (dropWhile isSpace s))"
  have u: "rev ?u = c # cs" using Cons by (simp add: trimSpace_def)
  then have "?u \<noteq> ''''" by auto
  then have "\<not> isSpace (hd ?u)" by (rule hd_dropWhile)
  moreover have "last (c # cs) = hd ?u" using \<open>?u \<noteq> ''''\<close> unfolding u [symmetric] by (simp add: last_rev)
  moreover have "?t = rev ?u @ rev (takeWhile isSpace (rev ?t))" by (metis rev_append rev_rev_ident takeWhile_dropWhile_id)
  then have "hd ?t = c" "?t \<noteq> ''''" unfolding u by (metis append_Cons list.sel(1), metis append_is_Nil_conv list.distinct(1))
  then have "\<not> isSpace c" using hd_dropWhile [of isSpace s] by simp
  ultimately show ?thesis unfolding Cons by (intro trimSpace_trimmed) simp
next
  case Nil
  moreover have "trimSpace '''' = ''''" by (simp add: trimSpace_def)
  ultimately show ?thesis by (simp only:)
qed

lemma validName_trim: "validName name n = None \<Longrightarrow> trimSpace name = name"
  by (auto simp: list_all_iff intro!: trimSpace_trimmed nameChar_not_space dest!: validName_chars)

text \<open>A plain name is itself, whatever qualifier is asked for.\<close>

lemma plain_reference:
  assumes "validName name 64 = None"
  shows "ParseFunctionReference name '''' = Inr (name, '''')"
proof -
  have "CHR '':'' \<notin> set name" using validName_chars [OF assms] by simp
  with assms show ?thesis
    by (simp add: ParseFunctionReference_def validName_trim functionTail_def cut_none chooseQualifier_def)
qed

text \<open>The ARN of a function, with the qualifier of one of its versions or aliases.\<close>

definition functionARN :: "string \<Rightarrow> string \<Rightarrow> string \<Rightarrow> string \<Rightarrow> string" where
  "functionARN region account name qualifier =
     ''arn:aws:lambda:'' @ region @ '':'' @ account @ '':function:'' @ name @ (if qualifier = '''' then '''' else '':'' @ qualifier)"

lemma hasPrefix_word: "c \<notin> set a \<Longrightarrow> c \<notin> set w \<Longrightarrow> hasPrefix (a @ c # b) (w @ [c]) \<longleftrightarrow> a = w"
proof (induction a arbitrary: w)
  case Nil
  then show ?case by (cases w) (auto simp: hasPrefix_def)
next
  case (Cons x a)
  then show ?case by (cases w) (auto simp: hasPrefix_def)
qed

lemma cut_skip:
  assumes "c \<notin> set a" and "\<not> hasPrefix b (w @ [c])"
  shows "cut (a @ c # b) (c # w @ [c]) = map_option (map_prod (\<lambda>x. a @ c # x) id) (cut b (c # w @ [c]))"
proof -
  have "indexOf (a @ c # b) (c # w @ [c]) = map_option (\<lambda>i. Suc (length a) + i) (indexOf b (c # w @ [c]))"
    using assms(1)
  proof (induction a)
    case Nil
    have "\<not> hasPrefix (c # b) (c # w @ [c])" using assms(2) by (simp add: hasPrefix_def)
    then show ?case by simp
  next
    case (Cons x a)
    have "\<not> hasPrefix (x # a @ c # b) (c # w @ [c])" using Cons.prems by (auto simp: hasPrefix_def)
    with Cons show ?case by (simp add: option.map_comp comp_def)
  qed
  then show ?thesis by (cases "indexOf b (c # w @ [c])") (simp_all add: cut_def numeral_3_eq_3)
qed

text \<open>The ARN of a function names the function and the qualifier it is written with, whatever the region and
  the account, which are not the word \<open>function\<close>.\<close>

theorem function_arn_roundtrip:
  assumes "validName name 64 = None" and "qualifier = '''' \<or> validName qualifier 128 = None"
    and "CHR '':'' \<notin> set region" and "region \<noteq> ''function''" and "CHR '':'' \<notin> set account" and "account \<noteq> ''function''"
  shows "ParseFunctionReference (functionARN region account name qualifier) '''' = Inr (name, qualifier)"
proof -
  let ?q = "if qualifier = '''' then '''' else '':'' @ qualifier"
  let ?sep = "'':function:''"
  have name: "CHR '':'' \<notin> set name" "name \<noteq> ''''" "list_all nameChar name" using validName_chars [OF assms(1)] by auto
  have q: "qualifier = '''' \<or> CHR '':'' \<notin> set qualifier \<and> list_all nameChar qualifier" using assms(2) validName_chars by blast
  have skip: "cut (a @ CHR '':'' # b @ CHR '':'' # rest) ?sep = map_option (map_prod (\<lambda>x. a @ CHR '':'' # x) id) (cut (b @ CHR '':'' # rest) ?sep)"
    if "CHR '':'' \<notin> set a" "CHR '':'' \<notin> set b" "b \<noteq> ''function''" for a b rest
    using cut_skip [of "CHR '':''" a "b @ CHR '':'' # rest" "''function''"] hasPrefix_word [of "CHR '':''" b "''function''" rest] that by simp
  have "\<not> hasPrefix (drop j (account @ ?sep @ name @ ?q)) ?sep" if "j < length account" for j
  proof -
    have "drop j (account @ ?sep @ name @ ?q) = account ! j # drop (Suc j) (account @ ?sep @ name @ ?q)"
      using that by (simp add: Cons_nth_drop_Suc [symmetric] del: append.simps)
    moreover have "account ! j \<noteq> CHR '':''" using assms(5) that nth_mem by fastforce
    ultimately show ?thesis by (simp add: hasPrefix_def)
  qed
  then have "cut (account @ ?sep @ name @ ?q) ?sep = Some (account, name @ ?q)" by (rule cut_first)
  then have "cut (functionARN region account name qualifier) ?sep = Some (''arn:aws:lambda:'' @ region @ '':'' @ account, name @ ?q)"
    using skip [of "''arn''" "''aws''"] skip [of "''aws''" "''lambda''"] skip [of "''lambda''" region] skip [of region account] assms(3-6)
    by (simp add: functionARN_def)
  moreover have "splitOn CHR '':'' (''arn:aws:lambda:'' @ region @ '':'' @ account) = [''arn'', ''aws'', ''lambda'', region, account]"
    using assms(3,5) by (simp add: splitOn_append_sep splitOn_none)
  ultimately have tail: "functionTail (functionARN region account name qualifier) = Inr (name @ ?q)"
    by (simp add: functionTail_def hasPrefix_def)
  have "\<not> isSpace (last (functionARN region account name qualifier))"
    using name q nameChar_not_space by (auto simp: functionARN_def list_all_iff)
  then have "trimSpace (functionARN region account name qualifier) = functionARN region account name qualifier"
    by (intro trimSpace_trimmed) (simp add: functionARN_def isSpace_def)
  moreover have "cut (name @ ?q) '':'' = (if qualifier = '''' then None else Some (name, qualifier))"
    using name(1) by (simp add: cut_none cut_byte)
  ultimately show ?thesis using tail assms(1,2) q by (auto simp: ParseFunctionReference_def chooseQualifier_def)
qed

theorem function_arn_roundtrip_witness:
  "ParseFunctionReference (functionARN ''eu-west-1'' ''000000000000'' ''resize'' ''live'') '''' = Inr (''resize'', ''live'')"
proof (rule function_arn_roundtrip)
  show "validName ''resize'' 64 = None" by code_simp
  show "''live'' = '''' \<or> validName ''live'' 128 = None" by code_simp
qed simp_all

end
