(* ===== verification/SNS_Publish.thy ===== *)
theory SNS_Publish
  imports SNS_Invariant SQS_Service Lambda_Reference Tarn_Json
begin

text \<open>
  Publishing to a topic (\<open>internal/sns/service.go\<close>): the subscriptions of the topic in the order of their ARN, the
  filter policies, and the deliveries. A delivery to a queue is a \<open>SendMessage\<close> of the SQS service; a delivery to
  a function is queued, here a \<open>LambdaLeg\<close>. A leg that fails only marks its span.

  What each leg reads from its environment is given by the ARN of its subscription. JSON, base64, the verb
  \<open>%v\<close> and \<open>ParseFloat\<close> are the fields of \<open>publish_codec\<close>. The identifiers and times of the spans are left out.
\<close>

section \<open>Messages\<close>

record SNSMessageAttribute =
  sattr_DataType :: string
  sattr_StringValue :: string
  sattr_BinaryValue :: string

record PublishInput =
  pub_TopicArn :: string
  pub_TargetArn :: string
  pub_Message :: string
  pub_Subject :: string
  pub_GroupId :: string
  pub_DedupId :: string
  pub_Attributes :: "SNSMessageAttribute go_map"

datatype go_float = Finite rat | PlusInf | MinusInf | NotANumber

record publish_codec =
  marshalJSON :: "json \<Rightarrow> string option"
  decodeRawMap :: "string \<Rightarrow> string go_map option"
  decodeArray :: "string \<Rightarrow> json list option"
  decodeMap :: "string \<Rightarrow> json_object option"
  base64Decode :: "string \<Rightarrow> bytes option"
  sprintV :: "json \<Rightarrow> string"
  parseFloat64 :: "string \<Rightarrow> go_float option"

record leg_obs =
  obs_now :: int
  obs_roll :: int
  obs_time :: string

section \<open>Endpoints\<close>

definition queueNameFromSubscriptionEndpoint :: "string \<Rightarrow> string option" where
  "queueNameFromSubscriptionEndpoint rawEndpoint =
     (let endpoint = trimSpace rawEndpoint in
      if endpoint = '''' then None
      else if hasPrefix endpoint ''arn:aws:sqs:'' then
        (let parts = splitOn CHR '':'' endpoint in
         if length parts < 6 \<or> last parts = '''' then None else Some (last parts))
      else if CHR ''/'' \<in> set endpoint then
        (let name = last (splitOn CHR ''/'' endpoint) in if name = '''' then None else Some name)
      else Some endpoint)"

definition lambdaNameFromEndpoint :: "string \<Rightarrow> string" where
  "lambdaNameFromEndpoint endpoint = (case ParseFunctionReference endpoint '''' of
      Inl _ \<Rightarrow> trimSpace endpoint
    | Inr (name, qualifier) \<Rightarrow> if qualifier \<noteq> '''' then name @ '':'' @ qualifier else name)"

section \<open>Attributes and envelopes\<close>

definition withCorrelationSNSAttributes :: "SNSMessageAttribute go_map \<Rightarrow> string \<Rightarrow> SNSMessageAttribute go_map" where
  "withCorrelationSNSAttributes attrs correlationID =
     (if correlationID \<noteq> '''' \<and> map_of attrs ''correlationId'' = None
      then AList.update ''correlationId'' \<lparr>sattr_DataType = ''String'', sattr_StringValue = correlationID, sattr_BinaryValue = ''''\<rparr> attrs
      else attrs)"

fun firstCorrelation :: "SNSMessageAttribute go_map \<Rightarrow> string list \<Rightarrow> string" where
  "firstCorrelation attrs [] = ''''"
| "firstCorrelation attrs (key # ks) = (case map_of attrs key of
      Some attr \<Rightarrow> if trimSpace (sattr_StringValue attr) \<noteq> '''' then trimSpace (sattr_StringValue attr) else firstCorrelation attrs ks
    | None \<Rightarrow> firstCorrelation attrs ks)"

definition correlationIDFromSNSAttributes :: "SNSMessageAttribute go_map \<Rightarrow> string" where
  "correlationIDFromSNSAttributes attrs = firstCorrelation attrs [''correlationId'', ''CorrelationId'', ''x-correlation-id'']"

definition toSQSAttribute :: "publish_codec \<Rightarrow> SNSMessageAttribute \<Rightarrow> MessageAttribute" where
  "toSQSAttribute C attr =
     \<lparr>DataType = sattr_DataType attr, StringValue = sattr_StringValue attr,
      BinaryValue = (if hd (splitOn CHR ''.'' (sattr_DataType attr)) = ''Binary'' then
          (case base64Decode C (sattr_BinaryValue attr) of Some decoded \<Rightarrow> decoded | None \<Rightarrow> sattr_BinaryValue attr)
        else sattr_BinaryValue attr)\<rparr>"

definition snsToSQSMessageAttributes :: "publish_codec \<Rightarrow> SNSMessageAttribute go_map \<Rightarrow> msg_attrs" where
  "snsToSQSMessageAttributes C attrs =
     (if attrs = [] then None else Some (map (\<lambda>(key, attr). (key, Some (toSQSAttribute C attr))) attrs))"

definition attributeEntry :: "SNSMessageAttribute \<Rightarrow> json" where
  "attributeEntry attr = JObj ((''Type'', JStr (sattr_DataType attr)) #
     (if sattr_StringValue attr \<noteq> '''' then [(''Value'', JStr (sattr_StringValue attr))]
      else if sattr_BinaryValue attr \<noteq> '''' then [(''Value'', JStr (sattr_BinaryValue attr))]
      else []))"

definition mapMessageAttributes :: "SNSMessageAttribute go_map \<Rightarrow> json" where
  "mapMessageAttributes attrs = JObj (map (\<lambda>(name, attr). (name, attributeEntry attr)) attrs)"

definition buildSQSEnvelope :: "publish_codec \<Rightarrow> string \<Rightarrow> string \<Rightarrow> string \<Rightarrow> string \<Rightarrow> PublishInput \<Rightarrow> string option" where
  "buildSQSEnvelope C topicArn subscriptionArn messageID time inp =
     marshalJSON C (JObj [(''Type'', JStr ''Notification''), (''MessageId'', JStr messageID), (''TopicArn'', JStr topicArn),
       (''Subject'', JStr (pub_Subject inp)), (''Message'', JStr (pub_Message inp)), (''Timestamp'', JStr time),
       (''UnsubscribeURL'', JStr ''''), (''SubscriptionArn'', JStr subscriptionArn),
       (''MessageAttributes'', mapMessageAttributes (pub_Attributes inp))])"

definition buildLambdaEnvelope ::
    "publish_codec \<Rightarrow> string \<Rightarrow> string \<Rightarrow> string \<Rightarrow> string \<Rightarrow> PublishInput \<Rightarrow> string \<Rightarrow> string option" where
  "buildLambdaEnvelope C topicArn subscriptionArn messageID time inp correlationID =
     marshalJSON C (JObj [(''correlationId'', JStr correlationID), (''Records'', JArr [JObj [
       (''EventSource'', JStr ''aws:sns''), (''EventVersion'', JStr ''1.0''), (''EventSubscriptionArn'', JStr subscriptionArn),
       (''Sns'', JObj [(''Type'', JStr ''Notification''), (''MessageId'', JStr messageID), (''TopicArn'', JStr topicArn),
         (''Subject'', JStr (pub_Subject inp)), (''Message'', JStr (pub_Message inp)), (''Timestamp'', JStr time),
         (''MessageAttributes'', mapMessageAttributes (withCorrelationSNSAttributes (pub_Attributes inp) correlationID))])]])])"

section \<open>Filter policies\<close>

definition floatLess :: "go_float \<Rightarrow> rat \<Rightarrow> bool" where
  "floatLess a limit = (case a of Finite x \<Rightarrow> x < limit | MinusInf \<Rightarrow> True | _ \<Rightarrow> False)"

definition floatGreater :: "go_float \<Rightarrow> rat \<Rightarrow> bool" where
  "floatGreater a limit = (case a of Finite x \<Rightarrow> limit < x | PlusInf \<Rightarrow> True | _ \<Rightarrow> False)"

definition numericTest :: "string \<Rightarrow> go_float \<Rightarrow> rat \<Rightarrow> bool" where
  "numericTest op a limit =
     (if op = ''='' then a = Finite limit
      else if op = ''!='' then a \<noteq> Finite limit
      else if op = ''<'' then floatLess a limit
      else if op = ''<='' then floatLess a limit \<or> a = Finite limit
      else if op = ''>'' then floatGreater a limit
      else if op = ''>='' then floatGreater a limit \<or> a = Finite limit
      else False)"

definition filterString :: "json \<Rightarrow> string" where
  "filterString v = (case v of JStr s \<Rightarrow> s | _ \<Rightarrow> '''')"

definition filterLimit :: "json \<Rightarrow> rat" where
  "filterLimit v = (case v of JNum n \<Rightarrow> n | _ \<Rightarrow> 0)"

fun numericFilterLoop :: "go_float \<Rightarrow> json list \<Rightarrow> bool" where
  "numericFilterLoop a (op # limit # rest) = (numericTest (filterString op) a (filterLimit limit) \<and> numericFilterLoop a rest)"
| "numericFilterLoop a _ = True"

definition evalNumericFilter :: "publish_codec \<Rightarrow> json \<Rightarrow> string \<Rightarrow> bool" where
  "evalNumericFilter C conds attrValue = (case conds of
      JArr conditions \<Rightarrow>
        if length conditions < 2 then False
        else (case parseFloat64 C attrValue of None \<Rightarrow> False | Some a \<Rightarrow> numericFilterLoop a conditions)
    | _ \<Rightarrow> False)"

definition anythingBut :: "publish_codec \<Rightarrow> json \<Rightarrow> string \<Rightarrow> bool" where
  "anythingBut C v attrValue = (case v of
      JArr items \<Rightarrow> \<not> list_ex (\<lambda>item. sprintV C item = attrValue) items
    | _ \<Rightarrow> sprintV C v \<noteq> attrValue)"

definition evalFilterOperator :: "publish_codec \<Rightarrow> json_object \<Rightarrow> bool \<Rightarrow> string \<Rightarrow> bool" where
  "evalFilterOperator C op attrExists attrValue = (case map_of op ''exists'' of
      Some v \<Rightarrow> attrExists = (v = JBool True)
    | None \<Rightarrow>
        if \<not> attrExists then False
        else (case map_of op ''prefix'' of
          Some v \<Rightarrow> hasPrefix attrValue (filterString v)
        | None \<Rightarrow> (case map_of op ''anything-but'' of
            Some v \<Rightarrow> anythingBut C v attrValue
          | None \<Rightarrow> (case map_of op ''numeric'' of
              Some v \<Rightarrow> evalNumericFilter C v attrValue
            | None \<Rightarrow> False))))"

fun matchesCondition :: "publish_codec \<Rightarrow> bool \<Rightarrow> string \<Rightarrow> json \<Rightarrow> bool" where
  "matchesCondition C exists v (JStr c) = (exists \<and> c = v)"
| "matchesCondition C exists v (JObj c) = evalFilterOperator C c exists v"
| "matchesCondition C exists v _ = False"

definition matchesFilterConditions :: "publish_codec \<Rightarrow> json list \<Rightarrow> bool \<Rightarrow> string \<Rightarrow> bool" where
  "matchesFilterConditions C conditions exists v = list_ex (matchesCondition C exists v) conditions"

text \<open>The loop over the keys of a policy; a key whose conditions are not an array is skipped. \<open>fieldAt\<close> says
  whether the field is there, and its text.\<close>

definition policyMatches :: "publish_codec \<Rightarrow> string go_map \<Rightarrow> (string \<Rightarrow> bool \<times> string) \<Rightarrow> bool" where
  "policyMatches C raw fieldAt =
     list_all (\<lambda>(key, condJSON). case decodeArray C condJSON of
         None \<Rightarrow> True
       | Some conditions \<Rightarrow> (case fieldAt key of (exists, v) \<Rightarrow> matchesFilterConditions C conditions exists v)) raw"

definition bodyField :: "publish_codec \<Rightarrow> json_object \<Rightarrow> string \<Rightarrow> bool \<times> string" where
  "bodyField C body key = (case map_of body key of None \<Rightarrow> (False, '''') | Some v \<Rightarrow> (True, sprintV C v))"

definition attrField :: "SNSMessageAttribute go_map \<Rightarrow> string \<Rightarrow> bool \<times> string" where
  "attrField attrs key = (case map_of attrs key of
      None \<Rightarrow> (False, '''')
    | Some attr \<Rightarrow> (True, if sattr_StringValue attr = '''' then sattr_BinaryValue attr else sattr_StringValue attr))"

definition matchesSubscriptionFilter :: "publish_codec \<Rightarrow> SNSSubscription \<Rightarrow> SNSMessageAttribute go_map \<Rightarrow> string \<Rightarrow> bool" where
  "matchesSubscriptionFilter C sub attrs messageBody =
     (if trimSpace (sub_FilterPolicy sub) = '''' then True
      else (case decodeRawMap C (sub_FilterPolicy sub) of
        None \<Rightarrow> True
      | Some raw \<Rightarrow>
          let trimmed = trimSpace (sub_FilterScope sub); scope = (if trimmed = '''' then ''MessageAttributes'' else trimmed) in
          if equalFold scope ''MessageBody'' then
            (case decodeMap C messageBody of None \<Rightarrow> False | Some body \<Rightarrow> policyMatches C raw (bodyField C body))
          else policyMatches C raw (attrField attrs)))"

section \<open>Publish\<close>

record PublishSpan =
  span_kind :: string
  span_name :: string
  span_status :: string

record LambdaLeg =
  leg_span :: nat
  leg_fnName :: string
  leg_payload :: string

record publishState =
  pst_sqs :: "Service option"
  pst_spans :: "PublishSpan list"
  pst_legs :: "LambdaLeg list"

text \<open>What a publish knows when it starts its legs.\<close>

record publication =
  pn_topic :: SNSTopic
  pn_messageID :: string
  pn_correlationID :: string
  pn_input :: PublishInput

text \<open>The body of a queue delivery: the message itself, or an envelope.\<close>

definition deliveryBody :: "publish_codec \<Rightarrow> string \<Rightarrow> publication \<Rightarrow> SNSSubscription \<Rightarrow> string option" where
  "deliveryBody C time P sub =
     (if sub_Raw sub then Some (pub_Message (pn_input P))
      else buildSQSEnvelope C (topic_Arn (pn_topic P)) (sub_Arn sub) (pn_messageID P) time (pn_input P))"

definition deliveryAttributes :: "publish_codec \<Rightarrow> publication \<Rightarrow> msg_attrs" where
  "deliveryAttributes C P = snsToSQSMessageAttributes C (withCorrelationSNSAttributes (pub_Attributes (pn_input P)) (pn_correlationID P))"

definition sendToQueue :: "sqs_env \<Rightarrow> publish_codec \<Rightarrow> leg_obs \<Rightarrow> publication \<Rightarrow> string \<Rightarrow> string \<Rightarrow> Service \<Rightarrow> bool \<times> Service" where
  "sendToQueue Q C o1 P queueName body svc =
     (let fifo = hasSuffix queueName ''.fifo'';
          groupID = (if fifo then pub_GroupId (pn_input P) else ''''); dedupID = (if fifo then pub_DedupId (pn_input P) else '''') in
      case ServiceSendMessage Q (obs_now o1) (obs_roll o1) queueName body 0 (deliveryAttributes C P) groupID dedupID svc of
        (Inl _, svc') \<Rightarrow> (False, svc')
      | (Inr _, svc') \<Rightarrow> (True, svc'))"

definition deliverSqs :: "sqs_env \<Rightarrow> publish_codec \<Rightarrow> leg_obs \<Rightarrow> publication \<Rightarrow> SNSSubscription \<Rightarrow> Service option \<Rightarrow> bool \<times> Service option" where
  "deliverSqs Q C o1 P sub sqs = (case sqs of
      None \<Rightarrow> (False, None)
    | Some svc \<Rightarrow> (case queueNameFromSubscriptionEndpoint (sub_Endpoint sub) of
        None \<Rightarrow> (False, Some svc)
      | Some queueName \<Rightarrow> (case deliveryBody C (obs_time o1) P sub of
          None \<Rightarrow> (False, Some svc)
        | Some body \<Rightarrow> map_prod id Some (sendToQueue Q C o1 P queueName body svc))))"

definition deliverLambda :: "publish_codec \<Rightarrow> bool \<Rightarrow> leg_obs \<Rightarrow> publication \<Rightarrow> SNSSubscription \<Rightarrow> nat \<Rightarrow> LambdaLeg option" where
  "deliverLambda C lambda o1 P sub spanIndex =
     (if \<not> lambda then None
      else map_option (\<lambda>payload. \<lparr>leg_span = spanIndex, leg_fnName = lambdaNameFromEndpoint (sub_Endpoint sub), leg_payload = payload\<rparr>)
        (buildLambdaEnvelope C (topic_Arn (pn_topic P)) (sub_Arn sub) (pn_messageID P) (obs_time o1) (pn_input P) (pn_correlationID P)))"

definition spanOf :: "SNSTopic \<Rightarrow> SNSSubscription \<Rightarrow> bool \<Rightarrow> PublishSpan" where
  "spanOf topic sub ok =
     (if equalFold (sub_Protocol sub) ''sqs'' then
        \<lparr>span_kind = ''queue'', span_name = (case queueNameFromSubscriptionEndpoint (sub_Endpoint sub) of
            Some qn \<Rightarrow> qn | None \<Rightarrow> sub_Endpoint sub), span_status = (if ok then ''ok'' else ''error'')\<rparr>
      else if equalFold (sub_Protocol sub) ''lambda'' then
        \<lparr>span_kind = ''lambda'', span_name = lambdaNameFromEndpoint (sub_Endpoint sub), span_status = (if ok then ''ok'' else ''error'')\<rparr>
      else \<lparr>span_kind = ''topic'', span_name = topic_Name topic, span_status = (if ok then ''ok'' else ''error'')\<rparr>)"

text \<open>The body of the loop, for a subscription that is confirmed and whose filter matches.\<close>

definition deliverLeg ::
    "sqs_env \<Rightarrow> publish_codec \<Rightarrow> bool \<Rightarrow> (string \<Rightarrow> leg_obs) \<Rightarrow> publication \<Rightarrow> SNSSubscription \<Rightarrow> publishState \<Rightarrow> publishState" where
  "deliverLeg Q C lambda obs P sub st =
     (let o1 = obs (sub_Arn sub); protocol = toLower (sub_Protocol sub) in
      if protocol = ''sqs'' then
        (case deliverSqs Q C o1 P sub (pst_sqs st) of
           (ok, sqs') \<Rightarrow> st\<lparr>pst_sqs := sqs', pst_spans := pst_spans st @ [spanOf (pn_topic P) sub ok]\<rparr>)
      else if protocol = ''lambda'' then
        (case deliverLambda C lambda o1 P sub (length (pst_spans st)) of
           None \<Rightarrow> st\<lparr>pst_spans := pst_spans st @ [spanOf (pn_topic P) sub False]\<rparr>
         | Some leg \<Rightarrow> st\<lparr>pst_spans := pst_spans st @ [spanOf (pn_topic P) sub True], pst_legs := pst_legs st @ [leg]\<rparr>)
      else st\<lparr>pst_spans := pst_spans st @ [spanOf (pn_topic P) sub True]\<rparr>)"

definition selected :: "publish_codec \<Rightarrow> PublishInput \<Rightarrow> SNSSubscription \<Rightarrow> bool" where
  "selected C inp sub \<longleftrightarrow> \<not> sub_Pending sub \<and> matchesSubscriptionFilter C sub (pub_Attributes inp) (pub_Message inp)"

fun deliverAll ::
    "sqs_env \<Rightarrow> publish_codec \<Rightarrow> bool \<Rightarrow> (string \<Rightarrow> leg_obs) \<Rightarrow> publication \<Rightarrow> SNSSubscription list \<Rightarrow> publishState \<Rightarrow> publishState" where
  "deliverAll Q C lambda obs P [] st = st"
| "deliverAll Q C lambda obs P (sub # subs) st =
     deliverAll Q C lambda obs P subs (if selected C (pn_input P) sub then deliverLeg Q C lambda obs P sub st else st)"

text \<open>The span of the topic comes first, so a queued delivery reports to the span one further on.\<close>

definition Publish ::
    "sns_env \<Rightarrow> sqs_env \<Rightarrow> publish_codec \<Rightarrow> bool \<Rightarrow> (string \<Rightarrow> leg_obs) \<Rightarrow> PublishInput \<Rightarrow> Service option \<Rightarrow> snsStore
       \<Rightarrow> (sns_error + (string \<times> PublishSpan list \<times> LambdaLeg list)) \<times> Service option \<times> snsStore" where
  "Publish E Q C lambda obs inp sqs s =
     (let trimmed = trimSpace (pub_TopicArn inp); topicArn = (if trimmed = '''' then trimSpace (pub_TargetArn inp) else trimmed) in
      if topicArn = '''' then (Inl (Required ''TopicArn or TargetArn''), sqs, s)
      else if trimSpace (pub_Message inp) = '''' then (Inl (Required ''message''), sqs, s)
      else (case GetTopic topicArn s of
          Inl e \<Rightarrow> (Inl e, sqs, s)
        | Inr topic \<Rightarrow> (case ListSubscriptionsByTopic topicArn s of
            Inl e \<Rightarrow> (Inl e, sqs, s)
          | Inr subs \<Rightarrow>
              let messageID = sns_uuid E (sns_uuids s);
                  found = correlationIDFromSNSAttributes (pub_Attributes inp);
                  correlationID = (if found = '''' then messageID else found);
                  P = \<lparr>pn_topic = topic, pn_messageID = messageID, pn_correlationID = correlationID, pn_input = inp\<rparr>;
                  st = deliverAll Q C lambda obs P subs \<lparr>pst_sqs = sqs, pst_spans = [], pst_legs = []\<rparr>;
                  spans = \<lparr>span_kind = ''topic'', span_name = topic_Name topic, span_status = ''ok''\<rparr> # pst_spans st;
                  legs = map (\<lambda>leg. leg\<lparr>leg_span := leg_span leg + 1\<rparr>) (pst_legs st) in
              (Inr (messageID, spans, legs), pst_sqs st, s\<lparr>sns_uuids := Suc (sns_uuids s)\<rparr>))))"

end
