(* ===== verification/SNS_Fanout.thy ===== *)
theory SNS_Fanout
  imports SNS_Publish
begin

text \<open>
  What a publish does to the queues: each subscribed queue gets one message for each of its subscriptions the
  filters let through, in the order of the subscriptions, and no other queue changes; a leg that fails does not
  disturb the others. And what the filter operators do not do.
\<close>

section \<open>One delivery\<close>

text \<open>The subscriptions whose delivery goes to a queue, and the bodies it gets.\<close>

definition goesTo :: "publish_codec \<Rightarrow> PublishInput \<Rightarrow> string \<Rightarrow> SNSSubscription \<Rightarrow> bool" where
  "goesTo C inp qn sub \<longleftrightarrow> selected C inp sub \<and> toLower (sub_Protocol sub) = ''sqs'' \<and>
     queueNameFromSubscriptionEndpoint (sub_Endpoint sub) = Some qn"

definition bodiesFor :: "publish_codec \<Rightarrow> (string \<Rightarrow> leg_obs) \<Rightarrow> publication \<Rightarrow> string \<Rightarrow> SNSSubscription list \<Rightarrow> string list" where
  "bodiesFor C obs P qn subs =
     List.map_filter (\<lambda>sub. deliveryBody C (obs_time (obs (sub_Arn sub))) P sub) (filter (goesTo C (pn_input P) qn) subs)"

text \<open>What a delivery may change in the service.\<close>

definition appended :: "publish_codec \<Rightarrow> publication \<Rightarrow> string \<Rightarrow> string list \<Rightarrow> Service \<Rightarrow> Service \<Rightarrow> bool" where
  "appended C P qn bodies svc svc' \<longleftrightarrow> disruptor svc' = disruptor svc \<and>
     (\<forall>q. map_of (queues (store svc)) qn = Some q \<longrightarrow> \<not> FifoQueue (config q) \<longrightarrow> activeRule qn (disruptor svc) = None \<longrightarrow>
        (\<exists>q' new. map_of (queues (store svc')) qn = Some q' \<and> config q' = config q \<and> messages q' = messages q @ new \<and>
           map Body new = bodies \<and> (\<forall>m \<in> set new. MessageAttributes m = deliveryAttributes C P)))"

lemma appended_refl: "appended C P qn [] svc svc"
  by (auto simp: appended_def)

lemma appended_trans:
  assumes "appended C P qn as s0 s1" and "appended C P qn bs s1 s2"
  shows "appended C P qn (as @ bs) s0 s2"
  unfolding appended_def
proof (intro conjI allI impI)
  show "disruptor s2 = disruptor s0" using assms by (simp add: appended_def)
  fix q assume q: "map_of (queues (store s0)) qn = Some q" "\<not> FifoQueue (config q)" "activeRule qn (disruptor s0) = None"
  then obtain q1 n1 where 1: "map_of (queues (store s1)) qn = Some q1" "config q1 = config q" "messages q1 = messages q @ n1"
    "map Body n1 = as" "\<forall>m \<in> set n1. MessageAttributes m = deliveryAttributes C P"
    using assms(1) unfolding appended_def by blast
  moreover have "activeRule qn (disruptor s1) = None" using assms(1) q(3) by (simp add: appended_def)
  ultimately obtain q2 n2 where 2: "map_of (queues (store s2)) qn = Some q2" "config q2 = config q1" "messages q2 = messages q1 @ n2"
    "map Body n2 = bs" "\<forall>m \<in> set n2. MessageAttributes m = deliveryAttributes C P"
    using assms(2) q(2) unfolding appended_def by metis
  show "\<exists>q' new. map_of (queues (store s2)) qn = Some q' \<and> config q' = config q \<and> messages q' = messages q @ new \<and>
      map Body new = as @ bs \<and> (\<forall>m \<in> set new. MessageAttributes m = deliveryAttributes C P)"
    using 1 2 by (intro exI [of _ q2] exI [of _ "n1 @ n2"]) auto
qed

lemma sendToQueue_other:
  "sendToQueue Q C o1 P name body svc = (ok, svc') \<Longrightarrow> n \<noteq> name \<Longrightarrow>
     map_of (queues (store svc')) n = map_of (queues (store svc)) n \<and> disruptor svc' = disruptor svc"
  by (auto simp: sendToQueue_def ServiceSendMessage_def SendMessage_def Let_def
      split: option.splits sum.splits prod.splits if_splits)

lemma sendToQueue_disruptor: "sendToQueue Q C o1 P name body svc = (ok, svc') \<Longrightarrow> disruptor svc' = disruptor svc"
  by (auto simp: sendToQueue_def ServiceSendMessage_def Let_def split: option.splits sum.splits prod.splits)

lemma enqueue_standard:
  "\<not> FifoQueue (config q) \<Longrightarrow> enqueueMessageLocked Q now q u body delay attrs g d honor =
     Inr (newMessage Q now q u body delay attrs g d, signal (q\<lparr>messages := messages q @ [newMessage Q now q u body delay attrs g d]\<rparr>), Suc u)"
  by (simp add: enqueueMessageLocked_def Let_def)

lemma sendToQueue_appended:
  assumes "sendToQueue Q C o1 P name body svc = (ok, svc')"
  shows "appended C P name [body] svc svc'"
  unfolding appended_def
proof (intro conjI allI impI)
  show "disruptor svc' = disruptor svc" using assms by (rule sendToQueue_disruptor)
  fix q assume q: "map_of (queues (store svc)) name = Some q" "\<not> FifoQueue (config q)" and "activeRule name (disruptor svc) = None"
  then have pass: "shouldFail (obs_roll o1) name (disruptor svc) = None" by (intro ShouldFail_none)
  define g d where "g = (if hasSuffix name ''.fifo'' then pub_GroupId (pn_input P) else '''')"
    and "d = (if hasSuffix name ''.fifo'' then pub_DedupId (pn_input P) else '''')"
  obtain delay where sent: "SendMessage Q (obs_now o1) name body 0 (deliveryAttributes C P) g d (store svc) =
      (Inr (cloneMessage (newMessage Q (obs_now o1) q (uuids (store svc)) body delay (deliveryAttributes C P) g d)),
       (putQueue name (signal (q\<lparr>messages := messages q @ [newMessage Q (obs_now o1) q (uuids (store svc)) body delay (deliveryAttributes C P) g d]\<rparr>)) (store svc))
         \<lparr>uuids := Suc (uuids (store svc)), dirty := True\<rparr>)"
    using q by (auto simp: SendMessage_def Let_def enqueue_standard)
  have "store svc' = (putQueue name (signal (q\<lparr>messages := messages q @ [newMessage Q (obs_now o1) q (uuids (store svc)) body delay (deliveryAttributes C P) g d]\<rparr>)) (store svc))
         \<lparr>uuids := Suc (uuids (store svc)), dirty := True\<rparr>"
    using assms pass sent by (auto simp: sendToQueue_def ServiceSendMessage_def Let_def g_def d_def)
  then show "\<exists>q' new. map_of (queues (store svc')) name = Some q' \<and> config q' = config q \<and> messages q' = messages q @ new \<and>
      map Body new = [body] \<and> (\<forall>m \<in> set new. MessageAttributes m = deliveryAttributes C P)"
    by (intro exI [of _ "signal (q\<lparr>messages := messages q @ [newMessage Q (obs_now o1) q (uuids (store svc)) body delay (deliveryAttributes C P) g d]\<rparr>)"]
        exI [of _ "[newMessage Q (obs_now o1) q (uuids (store svc)) body delay (deliveryAttributes C P) g d]"]) simp
qed

text \<open>One leg: it sends to one queue at most, and it never takes the service away.\<close>

lemma deliverSqs_cases:
  assumes "deliverSqs Q C o1 P sub (Some svc) = (ok, sqs')"
  obtains (none) "sqs' = Some svc" "queueNameFromSubscriptionEndpoint (sub_Endpoint sub) = None \<or> deliveryBody C (obs_time o1) P sub = None"
  | (sent) name body svc' where "queueNameFromSubscriptionEndpoint (sub_Endpoint sub) = Some name"
      "deliveryBody C (obs_time o1) P sub = Some body" "sendToQueue Q C o1 P name body svc = (ok, svc')" "sqs' = Some svc'"
  using assms by (auto simp: deliverSqs_def map_prod_def split: option.splits prod.splits)

lemma deliverLeg_appended:
  assumes "pst_sqs st = Some svc" and "selected C (pn_input P) sub"
  shows "\<exists>svc'. pst_sqs (deliverLeg Q C lambda obs P sub st) = Some svc' \<and> appended C P qn (bodiesFor C obs P qn [sub]) svc svc'"
proof (cases "toLower (sub_Protocol sub) = ''sqs''")
  case False
  then have "bodiesFor C obs P qn [sub] = []" by (simp add: bodiesFor_def goesTo_def map_filter_simps)
  moreover have "pst_sqs (deliverLeg Q C lambda obs P sub st) = Some svc"
    using False assms(1) by (simp add: deliverLeg_def Let_def split: option.splits)
  ultimately show ?thesis by (simp add: appended_refl)
next
  case True
  let ?o = "obs (sub_Arn sub)"
  obtain ok sqs' where d: "deliverSqs Q C ?o P sub (Some svc) = (ok, sqs')" by fastforce
  then have leg: "pst_sqs (deliverLeg Q C lambda obs P sub st) = sqs'"
    using True assms(1) by (simp add: deliverLeg_def Let_def)
  from d show ?thesis
  proof (cases rule: deliverSqs_cases)
    case none
    then have "bodiesFor C obs P qn [sub] = []" by (auto simp: bodiesFor_def goesTo_def map_filter_simps split: option.splits)
    with none leg show ?thesis by (simp add: appended_refl)
  next
    case (sent name body svc')
    show ?thesis
    proof (cases "qn = name")
      case True
      then have "bodiesFor C obs P qn [sub] = [body]"
        using sent assms(2) \<open>toLower (sub_Protocol sub) = ''sqs''\<close> by (simp add: bodiesFor_def goesTo_def map_filter_simps)
      with True sent leg sendToQueue_appended [OF sent(3)] show ?thesis by simp
    next
      case False
      then have "bodiesFor C obs P qn [sub] = []" using sent by (simp add: bodiesFor_def goesTo_def map_filter_simps)
      moreover have "appended C P qn [] svc svc'" using sendToQueue_other [OF sent(3) False] by (auto simp: appended_def)
      ultimately show ?thesis using sent leg by simp
    qed
  qed
qed

lemma bodiesFor_Cons: "bodiesFor C obs P qn (sub # subs) = bodiesFor C obs P qn [sub] @ bodiesFor C obs P qn subs"
  by (simp add: bodiesFor_def map_filter_simps split: option.splits)

lemma bodiesFor_unselected: "\<not> selected C (pn_input P) sub \<Longrightarrow> bodiesFor C obs P qn [sub] = []"
  by (simp add: bodiesFor_def goesTo_def map_filter_simps)

lemma deliverAll_appended:
  "pst_sqs st = Some svc \<Longrightarrow>
     \<exists>svc'. pst_sqs (deliverAll Q C lambda obs P subs st) = Some svc' \<and> appended C P qn (bodiesFor C obs P qn subs) svc svc'"
proof (induction subs arbitrary: st svc)
  case Nil
  then show ?case by (simp add: bodiesFor_def map_filter_simps appended_refl)
next
  case (Cons sub subs)
  let ?st = "if selected C (pn_input P) sub then deliverLeg Q C lambda obs P sub st else st"
  obtain s1 where s1: "pst_sqs ?st = Some s1" "appended C P qn (bodiesFor C obs P qn [sub]) svc s1"
    using deliverLeg_appended [OF Cons.prems, of C P sub] Cons.prems bodiesFor_unselected [of C P sub] appended_refl
    by (metis (full_types))
  have "deliverAll Q C lambda obs P (sub # subs) st = deliverAll Q C lambda obs P subs ?st" by simp
  with Cons.IH [OF s1(1)] s1(2) show ?case
    unfolding bodiesFor_Cons [of C obs P qn sub subs] by (metis appended_trans)
qed

text \<open>A queue that no delivery goes to.\<close>

lemma deliverLeg_other:
  assumes "pst_sqs st = Some svc" and "selected C (pn_input P) sub" and "\<not> goesTo C (pn_input P) n sub"
  shows "\<exists>svc'. pst_sqs (deliverLeg Q C lambda obs P sub st) = Some svc' \<and> map_of (queues (store svc')) n = map_of (queues (store svc)) n"
proof (cases "toLower (sub_Protocol sub) = ''sqs''")
  case False
  with assms(1) show ?thesis by (simp add: deliverLeg_def Let_def split: option.splits)
next
  case True
  obtain ok sqs' where d: "deliverSqs Q C (obs (sub_Arn sub)) P sub (Some svc) = (ok, sqs')" by fastforce
  then have leg: "pst_sqs (deliverLeg Q C lambda obs P sub st) = sqs'" using True assms(1) by (simp add: deliverLeg_def Let_def)
  from d show ?thesis
  proof (cases rule: deliverSqs_cases)
    case none
    with leg show ?thesis by simp
  next
    case (sent name body svc')
    then have "n \<noteq> name" using assms(2,3) True by (auto simp: goesTo_def)
    with sent leg sendToQueue_other [OF sent(3)] show ?thesis by simp
  qed
qed

lemma deliverAll_other:
  "pst_sqs st = Some svc \<Longrightarrow> filter (goesTo C (pn_input P) n) subs = [] \<Longrightarrow>
     \<exists>svc'. pst_sqs (deliverAll Q C lambda obs P subs st) = Some svc' \<and> map_of (queues (store svc')) n = map_of (queues (store svc)) n"
proof (induction subs arbitrary: st svc)
  case (Cons sub subs)
  let ?st = "if selected C (pn_input P) sub then deliverLeg Q C lambda obs P sub st else st"
  have "\<not> goesTo C (pn_input P) n sub" and rest: "filter (goesTo C (pn_input P) n) subs = []"
    using Cons.prems(2) by (auto split: if_splits)
  then obtain s1 where s1: "pst_sqs ?st = Some s1" "map_of (queues (store s1)) n = map_of (queues (store svc)) n"
    using deliverLeg_other [OF Cons.prems(1), of C P sub n] Cons.prems(1) by (metis (full_types))
  with Cons.IH [OF s1(1) rest] show ?case by auto
qed simp

section \<open>Publishing\<close>

text \<open>The publication of a message, as \<open>Publish\<close> makes it.\<close>

definition publicationOf :: "sns_env \<Rightarrow> snsStore \<Rightarrow> SNSTopic \<Rightarrow> PublishInput \<Rightarrow> publication" where
  "publicationOf E s topic inp =
     \<lparr>pn_topic = topic, pn_messageID = sns_uuid E (sns_uuids s),
      pn_correlationID = (if correlationIDFromSNSAttributes (pub_Attributes inp) = '''' then sns_uuid E (sns_uuids s)
        else correlationIDFromSNSAttributes (pub_Attributes inp)), pn_input = inp\<rparr>"

lemma Publish_runs:
  assumes "map_of (topics s) (trimSpace (pub_TopicArn inp)) = Some topic" and "trimSpace (pub_TopicArn inp) \<noteq> ''''"
    and "trimSpace (pub_Message inp) \<noteq> ''''"
  shows "Publish E Q C lambda obs inp sqs s =
     (let st = deliverAll Q C lambda obs (publicationOf E s topic inp) (subscriptionsOf (trimSpace (pub_TopicArn inp)) s)
            \<lparr>pst_sqs = sqs, pst_spans = [], pst_legs = []\<rparr> in
      (Inr (sns_uuid E (sns_uuids s), \<lparr>span_kind = ''topic'', span_name = topic_Name topic, span_status = ''ok''\<rparr> # pst_spans st,
         map (\<lambda>leg. leg\<lparr>leg_span := leg_span leg + 1\<rparr>) (pst_legs st)), pst_sqs st, s\<lparr>sns_uuids := Suc (sns_uuids s)\<rparr>))"
proof -
  show ?thesis using assms by (simp add: trimSpace_idem Publish_def GetTopic_def ListSubscriptionsByTopic_def publicationOf_def Let_def)
qed

text \<open>C10: A publish to a topic adds to a standard queue that is not disrupted exactly the messages of the confirmed
  subscriptions of the topic that name the queue and whose filter matches, in the order of their ARN, each with
  its own body and with the attributes of the message and its correlation identifier. What happens to the other
  legs makes no difference.\<close>

theorem publish_fans_out:
  assumes "map_of (topics s) (trimSpace (pub_TopicArn inp)) = Some topic" and "trimSpace (pub_TopicArn inp) \<noteq> ''''"
    and "trimSpace (pub_Message inp) \<noteq> ''''"
    and "map_of (queues (store svc)) qn = Some q" and "\<not> FifoQueue (config q)" and "activeRule qn (disruptor svc) = None"
  shows "\<exists>r svc' q' new. Publish E Q C lambda obs inp (Some svc) s = (Inr r, Some svc', s\<lparr>sns_uuids := Suc (sns_uuids s)\<rparr>) \<and>
    map_of (queues (store svc')) qn = Some q' \<and> messages q' = messages q @ new \<and>
    map Body new = bodiesFor C obs (publicationOf E s topic inp) qn (subscriptionsOf (trimSpace (pub_TopicArn inp)) s) \<and>
    (\<forall>m \<in> set new. MessageAttributes m = deliveryAttributes C (publicationOf E s topic inp))"
proof -
  let ?P = "publicationOf E s topic inp" and ?subs = "subscriptionsOf (trimSpace (pub_TopicArn inp)) s"
  let ?st = "deliverAll Q C lambda obs ?P ?subs \<lparr>pst_sqs = Some svc, pst_spans = [], pst_legs = []\<rparr>"
  obtain svc' where svc': "pst_sqs ?st = Some svc'" "appended C ?P qn (bodiesFor C obs ?P qn ?subs) svc svc'"
    using deliverAll_appended [of "\<lparr>pst_sqs = Some svc, pst_spans = [], pst_legs = []\<rparr>" svc Q C lambda obs ?P ?subs qn] by auto
  then show ?thesis using assms(4-6) unfolding Publish_runs [OF assms(1-3)] Let_def appended_def by fastforce
qed

text \<open>C40: A queue that no selected subscription of the topic names, FIFO or not, is left as it was.\<close>

theorem publish_leaves_other_queues:
  assumes "map_of (topics s) (trimSpace (pub_TopicArn inp)) = Some topic" and "trimSpace (pub_TopicArn inp) \<noteq> ''''"
    and "trimSpace (pub_Message inp) \<noteq> ''''"
    and "filter (goesTo C inp n) (subscriptionsOf (trimSpace (pub_TopicArn inp)) s) = []"
  shows "\<exists>r svc'. Publish E Q C lambda obs inp (Some svc) s = (Inr r, Some svc', s\<lparr>sns_uuids := Suc (sns_uuids s)\<rparr>) \<and>
    map_of (queues (store svc')) n = map_of (queues (store svc)) n"
proof -
  let ?P = "publicationOf E s topic inp"
  have "pn_input ?P = inp" by (simp add: publicationOf_def)
  then show ?thesis
    using deliverAll_other [of "\<lparr>pst_sqs = Some svc, pst_spans = [], pst_legs = []\<rparr>" svc C ?P n] assms(4)
    unfolding Publish_runs [OF assms(1-3)] Let_def by auto
qed

text \<open>A topic with one raw subscription, and the queue it delivers to.\<close>

definition fanoutSqsEnv :: sqs_env where
  "fanoutSqsEnv = \<lparr>uuid = (\<lambda>n. itoa (int n)), md5Hash = (\<lambda>_. ''''), decodeRedrivePolicy = (\<lambda>_. None), Endpoint = ''h'',
     Region = ''r'', AccountID = ''1''\<rparr>"

definition fanoutCodec :: publish_codec where
  "fanoutCodec = \<lparr>marshalJSON = (\<lambda>_. Some ''{}''), decodeRawMap = (\<lambda>_. None), decodeArray = (\<lambda>_. None), decodeMap = (\<lambda>_. None),
     base64Decode = (\<lambda>_. None), sprintV = (\<lambda>_. ''''), parseFloat64 = (\<lambda>_. None)\<rparr>"

definition fanoutTopics :: snsStore where
  "fanoutTopics = snd (Subscribe demoSns 3 ''arn:aws:sns:r:1:orders'' ''sqs'' ''http://h/1/q''
     (Some [(''RawMessageDelivery'', ''true'')]) demoSubscribed)"

definition fanoutService :: Service where
  "fanoutService = \<lparr>store = snd (CreateQueue fanoutSqsEnv 1 ''q'' [] None
     \<lparr>queues = [], dirty = False, uuids = 0\<rparr>), disruptor = newDisruptor\<rparr>"

definition fanoutInput :: PublishInput where
  "fanoutInput = \<lparr>pub_TopicArn = ''arn:aws:sns:r:1:orders'', pub_TargetArn = '''', pub_Message = ''hi'', pub_Subject = '''',
     pub_GroupId = '''', pub_DedupId = '''', pub_Attributes = []\<rparr>"

theorem publish_fans_out_witness:
  "let svc' = the (fst (snd (Publish demoSns fanoutSqsEnv fanoutCodec False (\<lambda>_. \<lparr>obs_now = 5, obs_roll = 0, obs_time = ''t''\<rparr>)
       fanoutInput (Some fanoutService) fanoutTopics))) in
     map Body (messages (the (map_of (queues (store svc')) ''q''))) = [''{}'', ''hi'']"
proof -
  let ?obs = "\<lambda>_::string. \<lparr>obs_now = 5, obs_roll = 0, obs_time = ''t''\<rparr>"
  let ?topic = "the (map_of (topics fanoutTopics) ''arn:aws:sns:r:1:orders'')"
  let ?q = "the (map_of (queues (store fanoutService)) ''q'')"
  have arn: "trimSpace (pub_TopicArn fanoutInput) = ''arn:aws:sns:r:1:orders''" by code_simp
  have "map_of (topics fanoutTopics) ''arn:aws:sns:r:1:orders'' \<noteq> None" by code_simp
  then have 1: "map_of (topics fanoutTopics) (trimSpace (pub_TopicArn fanoutInput)) = Some ?topic" by (auto simp: arn)
  have 2: "trimSpace (pub_TopicArn fanoutInput) \<noteq> ''''" by (simp add: arn)
  have 3: "trimSpace (pub_Message fanoutInput) \<noteq> ''''" by code_simp
  have "map_of (queues (store fanoutService)) ''q'' \<noteq> None" by code_simp
  then have 4: "map_of (queues (store fanoutService)) ''q'' = Some ?q" by auto
  have 5: "\<not> FifoQueue (config ?q)" by code_simp
  have 6: "activeRule ''q'' (disruptor fanoutService) = None" by code_simp
  have empty: "messages ?q = []" by code_simp
  have bodies: "bodiesFor fanoutCodec ?obs (publicationOf demoSns fanoutTopics ?topic fanoutInput) ''q''
      (subscriptionsOf (trimSpace (pub_TopicArn fanoutInput)) fanoutTopics) = [''{}'', ''hi'']" by code_simp
  show ?thesis
    using publish_fans_out [OF 1 2 3 4 5 6, of demoSns fanoutSqsEnv fanoutCodec False ?obs] unfolding bodies empty
    by (auto simp: Let_def)
qed

theorem publish_leaves_other_queues_witness:
  "\<exists>svc'. fst (snd (Publish demoSns fanoutSqsEnv fanoutCodec False (\<lambda>_. \<lparr>obs_now = 5, obs_roll = 0, obs_time = ''t''\<rparr>)
       fanoutInput (Some fanoutService) fanoutTopics)) = Some svc' \<and>
     map_of (queues (store svc')) ''other'' = map_of (queues (store fanoutService)) ''other''"
proof -
  let ?topic = "the (map_of (topics fanoutTopics) ''arn:aws:sns:r:1:orders'')"
  have arn: "trimSpace (pub_TopicArn fanoutInput) = ''arn:aws:sns:r:1:orders''" by code_simp
  have "map_of (topics fanoutTopics) ''arn:aws:sns:r:1:orders'' \<noteq> None" by code_simp
  then have 1: "map_of (topics fanoutTopics) (trimSpace (pub_TopicArn fanoutInput)) = Some ?topic" by (auto simp: arn)
  have 2: "trimSpace (pub_TopicArn fanoutInput) \<noteq> ''''" by (simp add: arn)
  have 3: "trimSpace (pub_Message fanoutInput) \<noteq> ''''" by code_simp
  have 4: "filter (goesTo fanoutCodec fanoutInput ''other'') (subscriptionsOf (trimSpace (pub_TopicArn fanoutInput)) fanoutTopics) = []"
    by code_simp
  show ?thesis
    using publish_leaves_other_queues [OF 1 2 3 4, of demoSns fanoutSqsEnv False "\<lambda>_. \<lparr>obs_now = 5, obs_roll = 0, obs_time = ''t''\<rparr>"
      fanoutService] by auto
qed

end
