(* ===== verification/Spec2Isabelle.thy ===== *)
theory Spec2Isabelle
  imports SQS_Visibility SQS_Wakeup SQS_Guarantees EB_Pattern EB_NextRun EB_FieldText SFN_Progress
    DDB_Updates DDB_Lock DDB_Reachable DDB_Paging SNS_Invariant SNS_Fanout
begin

text \<open>
  Verification of Tarn, a local emulation of AWS services in Go (module \<open>github.com/aircwo-systems/tarn\<close>).

  One server process holds a store per service. An HTTP layer (\<open>internal/api\<close>) parses requests and calls the
  service packages (\<open>internal/sqs\<close>, \<open>internal/sns\<close>, \<open>internal/dynamodb\<close>, ...), which keep their state in maps behind a
  mutex and write snapshots of it to disk. Services call one another: SNS publishes into SQS queues and Lambda
  functions, EventBridge matches events and runs schedules, Step Functions interprets state machines. What is
  modelled here is the logic of those services on their state.

  Conventions. An operation on a store is a function that returns the result of the Go method and the store
  after it; errors are values of a sum type. A Go map is an association list with distinct keys, looked up with
  \<open>map_of\<close>; where Go walks a map in random order the model walks the list in its order, so what is proved for
  all stores holds for every order. A slice is a list; \<open>sort.Slice\<close> is a stable sort or an insertion sort, which
  agree on the keys the code compares. \<open>int64\<close> arithmetic that can leave its range is written with \<open>wrap64\<close>. Strings are lists
  of bytes; functions that change case or look for white space treat ASCII. Clock readings, random numbers and
  UUIDs are arguments or streams of an environment record, and so are the functions of packages outside
  the repository whose results matter: JSON encoding and decoding, \<open>math/big\<close>, MD5, base64, \<open>fmt\<close>'s \<open>%v\<close>. Every operation is
  one step, as it runs under the mutex of its store; where the code can lose the mutex (a panic or an early
  return without unlocking) the store has a flag for it and the operations that would wait for ever give \<open>None\<close>.

  \<^bold>\<open>Foundations.\<close> \<open>Tarn_Prelude\<close>: strings, numbers, association lists. \<open>Tarn_Json\<close>: decoded JSON. \<open>Tarn_Interfaces\<close>:
  the locales \<open>transition_system\<close> (reachable states and invariants) and \<open>keyed_store\<close> (what a lookup gives after a
  write), with interpretations in the theories of SQS, DynamoDB and SNS. \<open>Tarn_Search\<close>: \<open>sort.Search\<close>. \<open>Tarn_Calendar\<close>: the
  calendar of Go's \<open>time\<close> package.

  \<^bold>\<open>SQS\<close> (\<open>internal/sqs\<close>, \<open>pkg/types/sqs.go\<close>). \<open>SQS_Types\<close> has messages, queues and attributes, \<open>SQS_Store\<close> the operations of
  \<open>store.go\<close>, \<open>SQS_Receive\<close> what can be done with a received message, \<open>SQS_Dlq\<close> the dead-letter transfer and the reaper (\<open>dlq.go\<close>), \<open>SQS_Disruptor\<close> the injection of failures,
  \<open>SQS_Snapshot\<close> the persisted value, \<open>SQS_Service\<close> sending and long polling (\<open>service.go\<close>). \<open>SQS_Invariant\<close> proves an
  invariant of all operations. \<open>SQS_Theorems\<close> specifies a receive; \<open>SQS_Visibility\<close> says that a message that was delivered stays hidden
  whatever else happens; \<open>SQS_Wakeup\<close> that no long poll misses a message; \<open>SQS_Guarantees\<close> deletion, transfer, redrive, reaping,
  snapshots. A long poll consumes one observation of its environment per turn.

  \<^bold>\<open>SNS\<close> (\<open>internal/sns\<close>). \<open>SNS_Store\<close> has topics and subscriptions, \<open>SNS_Invariant\<close> the invariant and the snapshot,
  \<open>SNS_Publish\<close> filters, envelopes and deliveries (\<open>service.go\<close>), which call the SQS service of \<open>SQS_Service\<close>, and \<open>SNS_Fanout\<close>
  what a publish does to the queues. \<open>Lambda_Reference\<close> reads function names and ARNs (\<open>internal/lambda/reference.go\<close>).

  \<^bold>\<open>DynamoDB\<close> (\<open>internal/dynamodb\<close>, \<open>pkg/types/dynamodb.go\<close>). \<open>DDB_Attr\<close> has values and their canonical form (\<open>attr.go\<close>), \<open>DDB_Number\<close> its
  arithmetic meaning, \<open>DDB_Expr\<close> the expression language (\<open>expr.go\<close>), \<open>DDB_Language\<close> what its tokenizer and parser do. \<open>DDB_Table\<close> has the state, keys and
  streams, \<open>DDB_Write\<close> and \<open>DDB_Batch\<close> the writes (\<open>write.go\<close>, \<open>ttl.go\<close>), \<open>DDB_Admin\<close> tables and their settings (\<open>table.go\<close>, \<open>sse.go\<close>), \<open>DDB_Stream\<close> the reading of
  streams, \<open>DDB_Read\<close> Scan and Query (\<open>read.go\<close>). \<open>DDB_Canonical\<close>, \<open>DDB_Invariant\<close>, \<open>DDB_Integrity\<close>, \<open>DDB_Steps\<close> and \<open>DDB_Reachable\<close> build the invariant of all
  operations; \<open>DDB_ChangeLog\<close> shows that the stream of a table is the log of its changes; \<open>DDB_Transact\<close> that transactions are
  atomic; \<open>DDB_Paging\<close> that pages and segments cover a table once; \<open>DDB_StreamRead\<close> the same for stream readers; \<open>DDB_Updates\<close> document
  paths and sets; \<open>DDB_Lock\<close> how the mutex is lost. The parser has the fuel \<open>6 * n + 6\<close> for \<open>n\<close> tokens, proved to be enough
  (\<open>parse_total\<close>); the tokenizer gives \<open>None\<close> exactly where the code loops for ever.

  \<^bold>\<open>EventBridge\<close> (\<open>internal/eventbridge\<close>). \<open>EB_Pattern\<close> has event patterns (\<open>pattern.go\<close>) and what they mean; \<open>EB_Schedule\<close> the schedule
  expressions (\<open>schedule.go\<close>), \<open>EB_NextRun\<close> the next run of a schedule, \<open>EB_FieldText\<close> the text of cron expressions. The loop over the
  steps of a field has the fuel \<open>stepFuel\<close>, proved to be enough; the search for the next run ends in the year 2200.

  \<^bold>\<open>Step Functions\<close> (\<open>internal/stepfunctions\<close>). \<open>ASL_Model\<close> has state machines and their validation (\<open>asl\<close>), \<open>ASL_Validation\<close> what a
  validated machine promises; \<open>SFN_Path\<close> and \<open>SFN_IO\<close> paths, payloads and intrinsic functions, \<open>SFN_Choice\<close> choice rules, \<open>SFN_Interp\<close> the
  interpreter (\<open>interpreter\<close>) with a fuel for the rounds of an execution; \<open>SFN_Execution\<close> and \<open>SFN_Progress\<close> its histories, bounds and
  termination: the rank of the start state plus one is enough fuel for a machine without cycles.

  \<^bold>\<open>Not modelled.\<close> S3, ECS, API Gateway, Cognito, KMS and secrets, the container engine and the rest of Lambda, the HTTP
  layer and the command line: they mostly drive the file system, containers, sockets and cryptographic libraries.
  Of the modelled packages: file access and the text of snapshots; traces and logs; the rules, buses,
  archives and targets of EventBridge; backups, contributor insights, Kinesis destinations and the
  description of streams of DynamoDB. The interleaving of goroutines is modelled where an operation waits (long polls, stream
  readers), as what others do to the store while it sleeps; the branches of a parallel state run in their
  order. Rounding of floating-point numbers is not modelled: JSON numbers are rationals.
\<close>

end
